(* ===== verification/FZ_Prelude.thy ===== *)
theory FZ_Prelude
  imports Main "HOL-Library.List_Lexorder" "HOL-Library.Sublist"
begin

text \<open>
  The vocabulary shared by the component theories: wide strings and their searching
  operations, decimal numbers, and the generic lemmas on lists that the component proofs use.

  A \<^verbatim>\<open>wchar_t\<close> is its code, a natural number, and a \<^verbatim>\<open>std::wstring\<close> is the list of its
  characters. The order of \<^verbatim>\<open>std::wstring\<close> (\<^verbatim>\<open>operator<\<close>, \<^verbatim>\<open>compare\<close>) is the lexicographic
  order of lists. A search that returns \<^verbatim>\<open>npos\<close> returns \<^term>\<open>None\<close> here.
\<close>

named_theorems str_simps \<open>rules on the string operations\<close>

type_synonym wchar = nat
type_synonym wstring = "wchar list"

subsection \<open>Literals\<close>

definition L :: "string \<Rightarrow> wstring" where
  "L s = map of_char s"

lemma L_simps [simp]: "L [] = []" "L (c # s) = of_char c # L s"
  by (simp_all add: L_def)

text \<open>
  \<^verbatim>\<open>s[i]\<close> reads the terminating zero at \<^verbatim>\<open>i = size()\<close>.
\<close>

definition at :: "wstring \<Rightarrow> nat \<Rightarrow> wchar" where
  "at s i = (if i < length s then s ! i else 0)"

text \<open>The part of a string that the C functions see: up to the first zero.\<close>

definition cstr :: "wstring \<Rightarrow> wstring" where
  "cstr s = takeWhile (\<lambda>c. c \<noteq> 0) s"

lemma cstr_id [simp]: "0 \<notin> set s \<Longrightarrow> cstr s = s"
  unfolding cstr_def takeWhile_eq_all_conv by (metis)

subsection \<open>Searching\<close>

text \<open>\<^verbatim>\<open>find\<close>, \<^verbatim>\<open>find_first_of\<close>: the index of the first character that satisfies a predicate.\<close>

fun find_idx :: "('a \<Rightarrow> bool) \<Rightarrow> 'a list \<Rightarrow> nat option" where
  "find_idx P [] = None"
| "find_idx P (x # xs) = (if P x then Some 0 else map_option Suc (find_idx P xs))"

text \<open>\<^verbatim>\<open>rfind\<close>, \<^verbatim>\<open>find_last_of\<close>: the index of the last one.\<close>

fun rfind_idx :: "('a \<Rightarrow> bool) \<Rightarrow> 'a list \<Rightarrow> nat option" where
  "rfind_idx P [] = None"
| "rfind_idx P (x # xs) =
     (case rfind_idx P xs of
        Some i \<Rightarrow> Some (Suc i)
      | None \<Rightarrow> if P x then Some 0 else None)"

text \<open>\<^verbatim>\<open>find\<close> of a string: the first index where it occurs.\<close>

fun find_sub :: "'a list \<Rightarrow> 'a list \<Rightarrow> nat option" where
  "find_sub pat [] = (if pat = [] then Some 0 else None)"
| "find_sub pat (x # xs) =
     (if take (length pat) (x # xs) = pat then Some 0 else map_option Suc (find_sub pat xs))"

text \<open>\<^verbatim>\<open>find(c, from)\<close>.\<close>

definition find_from :: "('a \<Rightarrow> bool) \<Rightarrow> nat \<Rightarrow> 'a list \<Rightarrow> nat option" where
  "find_from P k s = map_option (\<lambda>i. k + i) (find_idx P (drop k s))"

text \<open>\<^verbatim>\<open>substr(from, count)\<close>, for \<^verbatim>\<open>from <= size()\<close>.\<close>

definition substr :: "'a list \<Rightarrow> nat \<Rightarrow> nat \<Rightarrow> 'a list" where
  "substr s from n = take n (drop from s)"

lemma find_idx_None [str_simps]: "find_idx P xs = None \<longleftrightarrow> (\<forall>x\<in>set xs. \<not> P x)"
  by (induction xs) auto

lemma find_idx_SomeD:
  "find_idx P xs = Some i \<Longrightarrow> i < length xs \<and> P (xs ! i) \<and> (\<forall>x\<in>set (take i xs). \<not> P x)"
  by (induction xs arbitrary: i) (auto split: if_splits)

lemma find_idx_append:
  "find_idx P (xs @ ys) =
     (case find_idx P xs of Some i \<Rightarrow> Some i | None \<Rightarrow> map_option (\<lambda>i. length xs + i) (find_idx P ys))"
proof (induction xs)
  case Nil
  then show ?case by (cases "find_idx P ys") auto
next
  case (Cons x xs)
  then show ?case by (cases "find_idx P ys") (auto split: option.splits)
qed

lemma find_idx_append_None [str_simps]:
  "\<forall>x\<in>set xs. \<not> P x \<Longrightarrow>
     find_idx P (xs @ ys) = map_option (\<lambda>i. length xs + i) (find_idx P ys)"
  using find_idx_None [of P xs] by (simp add: find_idx_append)

lemma find_idx_split:
  assumes "find_idx P xs = Some i"
  shows "xs = take i xs @ xs ! i # drop (Suc i) xs"
  using find_idx_SomeD [OF assms] by (simp add: id_take_nth_drop)

lemma rfind_idx_None [str_simps]: "rfind_idx P xs = None \<longleftrightarrow> (\<forall>x\<in>set xs. \<not> P x)"
  by (induction xs) (auto split: option.splits)

lemma rfind_idx_SomeD:
  "rfind_idx P xs = Some i \<Longrightarrow> i < length xs \<and> P (xs ! i) \<and> (\<forall>x\<in>set (drop (Suc i) xs). \<not> P x)"
proof (induction xs arbitrary: i)
  case (Cons x xs)
  then show ?case
    using rfind_idx_None [of P xs] by (cases "rfind_idx P xs") (auto split: if_splits)
qed simp

lemma rfind_idx_append:
  "rfind_idx P (xs @ ys) =
     (case rfind_idx P ys of Some i \<Rightarrow> Some (length xs + i) | None \<Rightarrow> rfind_idx P xs)"
  by (induction xs) (auto split: option.splits)

lemma rfind_idx_snoc [simp]: "P x \<Longrightarrow> rfind_idx P (xs @ [x]) = Some (length xs)"
  by (simp add: rfind_idx_append)

lemma rfind_idx_drop_set:
  assumes "rfind_idx P xs = Some i"
  shows "\<forall>x\<in>set (drop (Suc i) xs). \<not> P x"
  using rfind_idx_SomeD [OF assms] by simp

subsection \<open>Lists\<close>

lemma butlast_last_snoc: "xs \<noteq> [] \<Longrightarrow> butlast xs @ [last xs] = xs"
  by simp

lemma last_in_set_drop: "drop n xs \<noteq> [] \<Longrightarrow> last (drop n xs) = last xs"
  by (simp add: last_drop)

text \<open>Sum over a list where one element is replaced.\<close>

lemma sum_list_map_update:
  fixes f :: "'a \<Rightarrow> int"
  assumes "i < length xs"
  shows "sum_list (map f (xs[i := y])) = sum_list (map f xs) - f (xs ! i) + f y"
  using assms
proof (induction xs arbitrary: i)
  case (Cons x xs)
  then show ?case by (cases i) auto
qed simp

lemma sum_list_filter_split:
  fixes f :: "'a \<Rightarrow> int"
  shows "sum_list (map f xs) = sum_list (map f (filter P xs)) + sum_list (map f (filter (\<lambda>x. \<not> P x) xs))"
  by (induction xs) auto

end
