(* ===== verification/FZ_Containers.thy ===== *)
theory FZ_Containers
  imports FZ_Prelude "HOL-Library.Product_Lexorder"
begin

text \<open>
  The ordered containers of the C++ library that the engine keeps its caches in. A
  \<^verbatim>\<open>std::map<K, V>\<close> is an association list whose keys ascend strictly in the order the
  container was given (\<^verbatim>\<open>K::operator<\<close>). Two keys neither of which is less than the other
  are the same key, whatever \<^verbatim>\<open>operator==\<close> says of them. The laws a client relies on are
  proved once, in the locale \<open>strict_weak\<close>, for every order that meets the requirement the
  library puts on a comparison; \<open>keyed_order\<close> gives it for a comparison by a key.
\<close>

definition eqv :: "('k \<Rightarrow> 'k \<Rightarrow> bool) \<Rightarrow> 'k \<Rightarrow> 'k \<Rightarrow> bool" where
  "eqv lt a b \<longleftrightarrow> \<not> lt a b \<and> \<not> lt b a"

text \<open>\<^verbatim>\<open>find\<close>, \<^verbatim>\<open>operator[] =\<close> (which keeps the key that is there), \<^verbatim>\<open>erase(key)\<close>.\<close>

fun omap_find :: "('k \<Rightarrow> 'k \<Rightarrow> bool) \<Rightarrow> 'k \<Rightarrow> ('k \<times> 'v) list \<Rightarrow> 'v option" where
  "omap_find lt k [] = None"
| "omap_find lt k ((a, v) # m) =
     (if lt a k then omap_find lt k m else if lt k a then None else Some v)"

fun omap_set :: "('k \<Rightarrow> 'k \<Rightarrow> bool) \<Rightarrow> 'k \<Rightarrow> 'v \<Rightarrow> ('k \<times> 'v) list \<Rightarrow> ('k \<times> 'v) list" where
  "omap_set lt k v [] = [(k, v)]"
| "omap_set lt k v ((a, w) # m) =
     (if lt a k then (a, w) # omap_set lt k v m
      else if lt k a then (k, v) # (a, w) # m else (a, v) # m)"

fun omap_erase :: "('k \<Rightarrow> 'k \<Rightarrow> bool) \<Rightarrow> 'k \<Rightarrow> ('k \<times> 'v) list \<Rightarrow> ('k \<times> 'v) list" where
  "omap_erase lt k [] = []"
| "omap_erase lt k ((a, w) # m) =
     (if lt a k then (a, w) # omap_erase lt k m
      else if lt k a then (a, w) # m else m)"

definition omap_ok :: "('k \<Rightarrow> 'k \<Rightarrow> bool) \<Rightarrow> ('k \<times> 'v) list \<Rightarrow> bool" where
  "omap_ok lt m \<longleftrightarrow> sorted_wrt lt (map fst m)"

lemma omap_ok_Nil [simp]: "omap_ok lt []"
  by (simp add: omap_ok_def)

lemma omap_ok_Cons [simp]:
  "omap_ok lt ((a, v) # m) \<longleftrightarrow> (\<forall>b\<in>fst ` set m. lt a b) \<and> omap_ok lt m"
  by (simp add: omap_ok_def)

lemma omap_ok_filter: "omap_ok lt m \<Longrightarrow> omap_ok lt (filter P m)"
  by (induction m) auto

lemma keys_omap_set: "fst ` set (omap_set lt k v m) \<subseteq> insert k (fst ` set m)"
  by (induction m) (force split: if_splits)+

lemma set_omap_erase: "set (omap_erase lt k m) \<subseteq> set m"
  by (induction m) (auto split: if_splits)

lemma keys_omap_erase: "fst ` set (omap_erase lt k m) \<subseteq> fst ` set m"
  using set_omap_erase by (metis image_mono)

locale strict_weak =
  fixes lt :: "'k \<Rightarrow> 'k \<Rightarrow> bool"
  assumes irrefl: "\<not> lt a a"
    and trans: "lt a b \<Longrightarrow> lt b c \<Longrightarrow> lt a c"
    and eqv_trans: "eqv lt a b \<Longrightarrow> eqv lt b c \<Longrightarrow> eqv lt a c"
begin

lemma asym: "lt a b \<Longrightarrow> \<not> lt b a"
  using irrefl trans by blast

lemma eqv_refl [simp]: "eqv lt a a"
  by (simp add: eqv_def irrefl)

lemma eqv_sym: "eqv lt a b \<longleftrightarrow> eqv lt b a"
  by (auto simp: eqv_def)

lemma lt_eqv: "lt a b \<Longrightarrow> eqv lt b c \<Longrightarrow> lt a c"
proof (rule ccontr)
  assume ab: "lt a b" and bc: "eqv lt b c" and nac: "\<not> lt a c"
  have "\<not> lt c a" using ab bc trans by (auto simp: eqv_def)
  with nac have "eqv lt a c" by (simp add: eqv_def)
  with bc have "eqv lt a b" using eqv_trans eqv_sym by blast
  with ab show False by (simp add: eqv_def)
qed

lemma eqv_lt: "eqv lt a b \<Longrightarrow> lt b c \<Longrightarrow> lt a c"
proof (rule ccontr)
  assume ab: "eqv lt a b" and bc: "lt b c" and nac: "\<not> lt a c"
  have "\<not> lt c a" using ab bc trans by (auto simp: eqv_def)
  with nac have "eqv lt a c" by (simp add: eqv_def)
  with ab have "eqv lt b c" using eqv_trans eqv_sym by blast
  with bc show False by (simp add: eqv_def)
qed

lemma omap_ok_set: "omap_ok lt m \<Longrightarrow> omap_ok lt (omap_set lt k v m)"
proof (induction m)
  case (Cons p m)
  obtain a w where p: "p = (a, w)" by (cases p)
  show ?case
  proof (cases "lt a k")
    case True
    with Cons p show ?thesis
      using keys_omap_set [of lt k v m] by fastforce
  next
    case False
    with Cons p show ?thesis by (auto intro: trans)
  qed
qed simp

lemma omap_ok_erase: "omap_ok lt m \<Longrightarrow> omap_ok lt (omap_erase lt k m)"
proof (induction m)
  case (Cons p m)
  then show ?case
    using set_omap_erase [of lt k m] by (cases p) auto
qed simp

lemma omap_find_less: "\<forall>b\<in>fst ` set m. lt k b \<Longrightarrow> omap_find lt k m = None"
  by (cases m) (auto dest: asym)

lemma omap_find_eqv:
  "omap_ok lt m \<Longrightarrow> eqv lt k k' \<Longrightarrow> omap_find lt k m = omap_find lt k' m"
proof (induction m)
  case (Cons p m)
  obtain a w where p: "p = (a, w)" by (cases p)
  have "lt a k \<longleftrightarrow> lt a k'" "lt k a \<longleftrightarrow> lt k' a"
    using Cons.prems(2) lt_eqv eqv_lt eqv_sym by blast+
  with Cons p show ?case by simp
qed simp

lemma omap_find_set_same: "omap_ok lt m \<Longrightarrow> omap_find lt k (omap_set lt k v m) = Some v"
  by (induction m) (auto simp: irrefl)

lemma omap_find_set_other:
  assumes "omap_ok lt m" "\<not> eqv lt k k'"
  shows "omap_find lt k' (omap_set lt k v m) = omap_find lt k' m"
  using assms(1)
proof (induction m)
  case Nil
  with assms(2) show ?case by (auto simp: eqv_def)
next
  case (Cons p m)
  obtain a w where p: "p = (a, w)" by (cases p)
  consider "lt a k" | "lt k a" | "eqv lt a k" by (auto simp: eqv_def)
  then show ?case
  proof cases
    case 1
    with Cons p show ?thesis by simp
  next
    case 2
    then have na: "\<not> lt a k" by (rule asym)
    show ?thesis
    proof (cases "lt k k'")
      case True
      with 2 na p show ?thesis by simp
    next
      case False
      with assms(2) have "lt k' k" by (simp add: eqv_def)
      with 2 have "lt k' a" by (blast intro: trans)
      moreover have "\<not> lt a k'" using \<open>lt k' a\<close> by (rule asym)
      ultimately show ?thesis using 2 na p False \<open>lt k' k\<close> by simp
    qed
  next
    case 3
    then have "\<not> eqv lt a k'" using assms(2) eqv_trans eqv_sym by blast
    moreover have "\<not> lt a k" "\<not> lt k a" using 3 by (simp_all add: eqv_def)
    ultimately show ?thesis using p by (simp add: eqv_def) blast
  qed
qed

lemma omap_find_set:
  assumes "omap_ok lt m"
  shows "omap_find lt k' (omap_set lt k v m) =
    (if eqv lt k k' then Some v else omap_find lt k' m)"
  using omap_find_set_same [OF assms, of k v] omap_find_set_other [OF assms, of k k' v]
    omap_find_eqv [OF omap_ok_set [OF assms, of k v], of k k'] by simp

lemma omap_find_erase:
  assumes "omap_ok lt m"
  shows "omap_find lt k' (omap_erase lt k m) =
    (if eqv lt k k' then None else omap_find lt k' m)"
  using assms
proof (induction m)
  case (Cons p m)
  obtain a w where p: "p = (a, w)" by (cases p)
  have m: "omap_ok lt m" and am: "\<forall>b\<in>fst ` set m. lt a b"
    using Cons.prems p by auto
  consider "lt a k" | "lt k a" | "eqv lt a k" by (auto simp: eqv_def)
  then show ?case
  proof cases
    case 1
    have "eqv lt k k' \<Longrightarrow> lt a k'" using 1 lt_eqv by blast
    with 1 Cons.IH [OF m] p show ?thesis by auto
  next
    case 2
    have "eqv lt k k' \<Longrightarrow> lt k' a" using 2 eqv_lt eqv_sym by blast
    moreover have "lt k' a \<Longrightarrow> \<not> lt a k'" by (rule asym)
    ultimately show ?thesis using asym [OF 2] 2 p by (cases "lt k' a") auto
  next
    case 3
    then have n: "\<not> lt a k" "\<not> lt k a" by (simp_all add: eqv_def)
    show ?thesis
    proof (cases "eqv lt k k'")
      case True
      with 3 have "eqv lt k' a" using eqv_trans eqv_sym by blast
      then have "\<forall>b\<in>fst ` set m. lt k' b" using am eqv_lt by blast
      with True p show ?thesis by (simp add: n omap_find_less)
    next
      case False
      then have "\<not> eqv lt a k'" using 3 eqv_trans eqv_sym by blast
      then consider "lt a k'" | "lt k' a" by (auto simp: eqv_def)
      then show ?thesis
      proof cases
        case 1
        with False p show ?thesis by (simp add: n)
      next
        case 2
        then have "\<forall>b\<in>fst ` set m. lt k' b" using am trans by blast
        with 2 False p asym [OF 2] show ?thesis by (simp add: n omap_find_less)
      qed
    qed
  qed
qed simp

lemma omap_find_member:
  "omap_ok lt m \<Longrightarrow> omap_find lt k m = Some v \<longleftrightarrow> (\<exists>a. (a, v) \<in> set m \<and> eqv lt a k)"
proof (induction m)
  case (Cons p m)
  obtain a w where p: "p = (a, w)" by (cases p)
  have am: "\<And>b u. (b, u) \<in> set m \<Longrightarrow> lt a b"
    using Cons.prems p by force
  have diff: "\<And>b u. (b, u) \<in> set m \<Longrightarrow> eqv lt b k \<Longrightarrow> lt a k"
    using am lt_eqv by blast
  show ?case
  proof (cases "lt a k")
    case True
    then show ?thesis using Cons p by (auto simp: eqv_def)
  next
    case False
    then show ?thesis using p diff by (auto simp: eqv_def)
  qed
qed simp

end

locale keyed_order =
  fixes lt :: "'k \<Rightarrow> 'k \<Rightarrow> bool" and key :: "'k \<Rightarrow> 'l :: linorder"
  assumes lt_key: "lt a b \<longleftrightarrow> key a < key b"
begin

lemma eqv_key: "eqv lt a b \<longleftrightarrow> key a = key b"
  by (auto simp: eqv_def lt_key)

end

sublocale keyed_order \<subseteq> strict_weak lt
  by unfold_locales (auto simp: lt_key eqv_key)

text \<open>Keys with an order of their own, such as \<^verbatim>\<open>std::string\<close> or an \<^verbatim>\<open>enum\<close>.\<close>

interpretation lin: keyed_order "(<) :: 'a :: linorder \<Rightarrow> 'a \<Rightarrow> bool" "\<lambda>x. x"
  by unfold_locales simp

lemma eqv_linorder [simp]: "eqv (<) a b \<longleftrightarrow> a = (b :: 'a :: linorder)"
  by (rule lin.eqv_key)

end
