(* ===== verification/FZ_Lib.thy ===== *)
theory FZ_Lib
  imports FZ_Prelude
begin

text \<open>
  The functions of libfilezilla (namespace \<^verbatim>\<open>fz\<close>) and of the locale that the engine calls and
  whose code is not part of the repository. They are the fields of one record, an argument of
  every definition that uses them; what a theorem relies on is one of the predicates below.
\<close>

record fzlib =
  stricmp :: "wstring \<Rightarrow> wstring \<Rightarrow> int"           \<comment> \<open>\<^verbatim>\<open>fz::stricmp\<close>\<close>
  opt_less :: "wstring option \<Rightarrow> wstring option \<Rightarrow> bool"
    \<comment> \<open>\<^verbatim>\<open>fz::sparse_optional<std::wstring>::operator<\<close>\<close>
  replace_substrings :: "wstring \<Rightarrow> wstring \<Rightarrow> wstring \<Rightarrow> wstring"
    \<comment> \<open>\<^verbatim>\<open>fz::replace_substrings(in, find, replacement)\<close>\<close>
  percent_encode_w :: "wstring \<Rightarrow> wstring"          \<comment> \<open>\<^verbatim>\<open>fz::percent_encode_w\<close>\<close>
  str_tolower_ascii :: "wstring \<Rightarrow> wstring"         \<comment> \<open>\<^verbatim>\<open>fz::str_tolower_ascii\<close>\<close>
  translate :: "wstring \<Rightarrow> wstring"                 \<comment> \<open>\<^verbatim>\<open>fz::translate\<close>, \<^verbatim>\<open>_()\<close>\<close>
  fz_dec :: "int \<Rightarrow> wstring"                        \<comment> \<open>decimal output of \<^verbatim>\<open>fz::sprintf\<close> and \<^verbatim>\<open>fz::to_wstring\<close>\<close>
  str_tolower :: "wstring \<Rightarrow> wstring"               \<comment> \<open>\<^verbatim>\<open>fz::str_tolower\<close>\<close>
  mm_pick :: "nat list \<Rightarrow> nat"
    \<comment> \<open>which of several equal keys \<^verbatim>\<open>std::unordered_multimap::find\<close> returns\<close>

text \<open>Comparing with \<^verbatim>\<open>stricmp\<close> for zero is an equivalence (case is ignored).\<close>

definition stricmp_equivalence :: "'a fzlib_scheme \<Rightarrow> bool" where
  "stricmp_equivalence lib \<longleftrightarrow>
     (\<forall>a. stricmp lib a a = 0) \<and>
     (\<forall>a b. stricmp lib a b = 0 \<longrightarrow> stricmp lib b a = 0) \<and>
     (\<forall>a b c. stricmp lib a b = 0 \<longrightarrow> stricmp lib b c = 0 \<longrightarrow> stricmp lib a c = 0)"

text \<open>The comparison of optional strings is a strict total order.\<close>

definition opt_less_total :: "'a fzlib_scheme \<Rightarrow> bool" where
  "opt_less_total lib \<longleftrightarrow>
     (\<forall>a. \<not> opt_less lib a a) \<and>
     (\<forall>a b c. opt_less lib a b \<longrightarrow> opt_less lib b c \<longrightarrow> opt_less lib a c) \<and>
     (\<forall>a b. a \<noteq> b \<longrightarrow> opt_less lib a b \<or> opt_less lib b a)"

text \<open>Replacing a one-character string replaces every occurrence of the character.\<close>

definition replace_substrings_char :: "'a fzlib_scheme \<Rightarrow> bool" where
  "replace_substrings_char lib \<longleftrightarrow>
     (\<forall>s c r. replace_substrings lib s [c] r = concat (map (\<lambda>x. if x = c then r else [x]) s))"

text \<open>Replacing a string replaces its occurrences from left to right, without overlaps.\<close>

fun replace_all :: "wstring \<Rightarrow> wstring \<Rightarrow> wstring \<Rightarrow> wstring" where
  "replace_all f r [] = []"
| "replace_all f r (c # s) =
     (if f \<noteq> [] \<and> take (length f) (c # s) = f then r @ replace_all f r (drop (length f - 1) s)
      else c # replace_all f r s)"

definition replace_substrings_all :: "'a fzlib_scheme \<Rightarrow> bool" where
  "replace_substrings_all lib \<longleftrightarrow>
     (\<forall>s f r. f \<noteq> [] \<longrightarrow> replace_substrings lib s f r = replace_all f r s)"

lemma replace_all_char: "replace_all [c] r s = concat (map (\<lambda>x. if x = c then r else [x]) s)"
  by (induction s) auto

lemma replace_substrings_all_char: "replace_substrings_all lib \<Longrightarrow> replace_substrings_char lib"
  by (simp add: replace_substrings_all_def replace_substrings_char_def replace_all_char)

text \<open>A multimap returns one of the values stored under the key.\<close>

definition mm_pick_member :: "'a fzlib_scheme \<Rightarrow> bool" where
  "mm_pick_member lib \<longleftrightarrow> (\<forall>is. is \<noteq> [] \<longrightarrow> mm_pick lib is \<in> set is)"

text \<open>Lower-case ASCII text without upper-case letters is its own lower-case form.\<close>

definition tolower_ascii_lower :: "'a fzlib_scheme \<Rightarrow> bool" where
  "tolower_ascii_lower lib \<longleftrightarrow>
     (\<forall>s. (\<forall>c\<in>set s. \<not> (65 \<le> c \<and> c \<le> 90)) \<longrightarrow> str_tolower_ascii lib s = s)"

lemma stricmp_refl [simp]: "stricmp_equivalence lib \<Longrightarrow> stricmp lib a a = 0"
  by (simp add: stricmp_equivalence_def)

lemma stricmp_sym: "stricmp_equivalence lib \<Longrightarrow> stricmp lib a b = 0 \<longleftrightarrow> stricmp lib b a = 0"
  unfolding stricmp_equivalence_def by blast

lemma stricmp_trans:
  "stricmp_equivalence lib \<Longrightarrow> stricmp lib a b = 0 \<Longrightarrow> stricmp lib b c = 0 \<Longrightarrow> stricmp lib a c = 0"
  unfolding stricmp_equivalence_def by blast

subsection \<open>A concrete instance\<close>

text \<open>
  One library that satisfies every predicate above, for the concrete runs: case is folded for
  the ASCII letters, nothing is translated, and a multimap returns the first value stored.
\<close>

definition ascii_lower :: "wchar \<Rightarrow> wchar" where
  "ascii_lower c = (if 65 \<le> c \<and> c \<le> 90 then c + 32 else c)"

definition ascii_cmp :: "wstring \<Rightarrow> wstring \<Rightarrow> int" where
  "ascii_cmp a b =
     (if map ascii_lower a = map ascii_lower b then 0
      else if map ascii_lower a < map ascii_lower b then -1 else 1)"

fun opt_lt :: "wstring option \<Rightarrow> wstring option \<Rightarrow> bool" where
  "opt_lt None None = False"
| "opt_lt None (Some b) = True"
| "opt_lt (Some a) None = False"
| "opt_lt (Some a) (Some b) = (a < b)"

fun nat_digits :: "nat \<Rightarrow> wstring" where
  "nat_digits n = (if n < 10 then [48 + n] else nat_digits (n div 10) @ [48 + n mod 10])"

declare nat_digits.simps [simp del]

definition int_digits :: "int \<Rightarrow> wstring" where
  "int_digits i = (if i < 0 then 45 # nat_digits (nat (- i)) else nat_digits (nat i))"

definition ascii_lib :: fzlib where
  "ascii_lib = \<lparr>stricmp = ascii_cmp, opt_less = opt_lt, replace_substrings = (\<lambda>s f r. replace_all f r s),
     percent_encode_w = (\<lambda>s. concat (map (\<lambda>c. if c = 32 then L ''%20'' else if c = 37 then L ''%25'' else [c]) s)),
     str_tolower_ascii = map ascii_lower, translate = (\<lambda>s. s), fz_dec = int_digits,
     str_tolower = map ascii_lower, mm_pick = hd\<rparr>"

lemma ascii_lib_sel [simp]:
  "stricmp ascii_lib = ascii_cmp" "opt_less ascii_lib = opt_lt"
  "replace_substrings ascii_lib = (\<lambda>s f r. replace_all f r s)" "str_tolower_ascii ascii_lib = map ascii_lower"
  "percent_encode_w ascii_lib =
     (\<lambda>s. concat (map (\<lambda>c. if c = 32 then L ''%20'' else if c = 37 then L ''%25'' else [c]) s))"
  "translate ascii_lib = (\<lambda>s. s)" "fz_dec ascii_lib = int_digits"
  "str_tolower ascii_lib = map ascii_lower" "mm_pick ascii_lib = hd"
  by (simp_all add: ascii_lib_def)

lemma ascii_cmp_zero: "ascii_cmp a b = 0 \<longleftrightarrow> map ascii_lower a = map ascii_lower b"
  by (simp add: ascii_cmp_def)

lemma ascii_lib_stricmp [simp]: "stricmp_equivalence ascii_lib"
  unfolding stricmp_equivalence_def ascii_lib_sel ascii_cmp_zero by metis

lemma ascii_lib_opt_less [simp]: "opt_less_total ascii_lib"
proof -
  have "\<not> opt_lt a a" for a by (cases a) auto
  moreover have "opt_lt a b \<Longrightarrow> opt_lt b c \<Longrightarrow> opt_lt a c" for a b c
    by (cases a; cases b; cases c) auto
  moreover have "a \<noteq> b \<Longrightarrow> opt_lt a b \<or> opt_lt b a" for a b
    by (cases a; cases b) auto
  ultimately show ?thesis unfolding opt_less_total_def ascii_lib_sel by blast
qed

lemma ascii_lib_replace [simp]: "replace_substrings_all ascii_lib" "replace_substrings_char ascii_lib"
  by (simp_all add: replace_substrings_all_def replace_substrings_char_def replace_all_char)

lemma ascii_lib_mm_pick [simp]: "mm_pick_member ascii_lib"
  by (simp add: mm_pick_member_def)

lemma ascii_lib_tolower [simp]: "tolower_ascii_lower ascii_lib"
proof -
  have "map ascii_lower s = s" if "\<forall>c\<in>set s. \<not> (65 \<le> c \<and> c \<le> 90)" for s
    using that by (intro map_idI) (simp add: ascii_lower_def)
  then show ?thesis by (simp add: tolower_ascii_lower_def)
qed

end
