(* ===== verification/Server.thy ===== *)
theory Server
  imports FZ_Containers FZ_Lib
begin

text \<open>
  \<^verbatim>\<open>CServer\<close> and \<^verbatim>\<open>Credentials\<close> (\<^verbatim>\<open>src/include/server.h\<close>, \<^verbatim>\<open>src/engine/server.cpp\<close>): the
  protocol table, the server record with its setters and comparisons, and the formatting of a
  server as text. The map of extra parameters is an ordered association list.
\<close>

unbundle bit_operations_syntax

subsection \<open>Enumerations\<close>

datatype server_protocol =
    UNKNOWN | FTP | SFTP | HTTP | FTPS | FTPES | HTTPS | INSECURE_FTP | S3 | STORJ | WEBDAV
  | AZURE_FILE | AZURE_BLOB | SWIFT | GOOGLE_CLOUD | GOOGLE_DRIVE | DROPBOX | ONEDRIVE | B2 | BOX
  | INSECURE_WEBDAV | RACKSPACE | STORJ_GRANT

fun protocol_num :: "server_protocol \<Rightarrow> int" where
  "protocol_num UNKNOWN = -1" | "protocol_num FTP = 0" | "protocol_num SFTP = 1"
| "protocol_num HTTP = 2" | "protocol_num FTPS = 3" | "protocol_num FTPES = 4"
| "protocol_num HTTPS = 5" | "protocol_num INSECURE_FTP = 6" | "protocol_num S3 = 7"
| "protocol_num STORJ = 8" | "protocol_num WEBDAV = 9" | "protocol_num AZURE_FILE = 10"
| "protocol_num AZURE_BLOB = 11" | "protocol_num SWIFT = 12" | "protocol_num GOOGLE_CLOUD = 13"
| "protocol_num GOOGLE_DRIVE = 14" | "protocol_num DROPBOX = 15" | "protocol_num ONEDRIVE = 16"
| "protocol_num B2 = 17" | "protocol_num BOX = 18" | "protocol_num INSECURE_WEBDAV = 19"
| "protocol_num RACKSPACE = 20" | "protocol_num STORJ_GRANT = 21"

datatype server_type =
    DEFAULT | UNIX | VMS | DOS | MVS | VXWORKS | ZVM | HPNONSTOP | DOS_VIRTUAL | CYGWIN
  | DOS_FWD_SLASHES

fun type_num :: "server_type \<Rightarrow> nat" where
  "type_num DEFAULT = 0" | "type_num UNIX = 1" | "type_num VMS = 2" | "type_num DOS = 3"
| "type_num MVS = 4" | "type_num VXWORKS = 5" | "type_num ZVM = 6" | "type_num HPNONSTOP = 7"
| "type_num DOS_VIRTUAL = 8" | "type_num CYGWIN = 9" | "type_num DOS_FWD_SLASHES = 10"

definition SERVERTYPE_MAX :: nat where
  "SERVERTYPE_MAX = 11"

text \<open>\<^verbatim>\<open>static_cast<ServerType>\<close>, for a value below \<^verbatim>\<open>SERVERTYPE_MAX\<close>.\<close>

definition all_types :: "server_type list" where
  "all_types = [DEFAULT, UNIX, VMS, DOS, MVS, VXWORKS, ZVM, HPNONSTOP, DOS_VIRTUAL, CYGWIN,
     DOS_FWD_SLASHES]"

definition type_of_num :: "nat \<Rightarrow> server_type" where
  "type_of_num n = all_types ! n"

lemma type_num_less: "type_num t < SERVERTYPE_MAX"
  by (cases t) (simp_all add: SERVERTYPE_MAX_def)

lemma type_of_num [simp]: "type_of_num (type_num t) = t"
  by (cases t) (simp_all add: type_of_num_def all_types_def)

lemma type_num_inj [simp]: "type_num a = type_num b \<longleftrightarrow> a = b"
  by (metis type_of_num)

lemma protocol_num_inj [simp]: "protocol_num a = protocol_num b \<longleftrightarrow> a = b"
  by (cases a; cases b) simp_all

instantiation server_type :: linorder
begin

definition less_eq_server_type :: "server_type \<Rightarrow> server_type \<Rightarrow> bool" where
  "less_eq_server_type a b \<longleftrightarrow> type_num a \<le> type_num b"

definition less_server_type :: "server_type \<Rightarrow> server_type \<Rightarrow> bool" where
  "less_server_type a b \<longleftrightarrow> type_num a < type_num b"

instance
  by standard (auto simp: less_eq_server_type_def less_server_type_def)

end

instantiation server_protocol :: linorder
begin

definition less_eq_server_protocol :: "server_protocol \<Rightarrow> server_protocol \<Rightarrow> bool" where
  "less_eq_server_protocol a b \<longleftrightarrow> protocol_num a \<le> protocol_num b"

definition less_server_protocol :: "server_protocol \<Rightarrow> server_protocol \<Rightarrow> bool" where
  "less_server_protocol a b \<longleftrightarrow> protocol_num a < protocol_num b"

instance
  by standard (auto simp: less_eq_server_protocol_def less_server_protocol_def)

end

datatype pasv_mode = MODE_DEFAULT | MODE_ACTIVE | MODE_PASSIVE

fun pasv_num :: "pasv_mode \<Rightarrow> nat" where
  "pasv_num MODE_DEFAULT = 0" | "pasv_num MODE_ACTIVE = 1" | "pasv_num MODE_PASSIVE = 2"

datatype charset_encoding = ENCODING_AUTO | ENCODING_UTF8 | ENCODING_CUSTOM

fun encoding_num :: "charset_encoding \<Rightarrow> nat" where
  "encoding_num ENCODING_AUTO = 0" | "encoding_num ENCODING_UTF8 = 1"
| "encoding_num ENCODING_CUSTOM = 2"

datatype server_format =
    host_only | with_optional_port | with_port | with_user_and_optional_port | url
  | url_with_password

datatype protocol_feature =
    DataTypeConcept | TransferMode | PreserveTimestamp | Charset | ServerType | EnterCommand
  | DirectoryRename | PostLoginCommands | RecursiveDelete | ServerAssignedHome | TemporaryUrl
  | Security | UnixChmod

datatype case_sensitivity = cs_unspecified | cs_yes | cs_no

datatype logon_type =
    anonymous | normal | ask | interactive | account | key_file | profile

datatype parameter_section = sec_host | sec_user | sec_credentials | sec_extra | sec_custom

lemma pasv_num_inj [simp]: "pasv_num a = pasv_num b \<longleftrightarrow> a = b"
  by (cases a; cases b) simp_all

lemma encoding_num_inj [simp]: "encoding_num a = encoding_num b \<longleftrightarrow> a = b"
  by (cases a; cases b) simp_all

subsection \<open>The protocol table\<close>

record t_protocolInfo =
  info_protocol :: server_protocol
  info_prefix :: wstring
  alwaysShowPrefix :: bool
  parse_from_prefix :: bool
  defaultPort :: nat
  translateable :: bool
  info_name :: wstring
  alternative_prefix :: wstring

definition protocol_info ::
  "server_protocol \<Rightarrow> string \<Rightarrow> bool \<Rightarrow> bool \<Rightarrow> nat \<Rightarrow> bool \<Rightarrow> string \<Rightarrow> string \<Rightarrow> t_protocolInfo" where
  "protocol_info p pre always parse port transl nm alt =
     \<lparr>info_protocol = p, info_prefix = L pre, alwaysShowPrefix = always, parse_from_prefix = parse,
      defaultPort = port, translateable = transl, info_name = L nm, alternative_prefix = L alt\<rparr>"

definition protocolInfos :: "t_protocolInfo list" where
  "protocolInfos = [
    protocol_info FTP ''ftp'' False True 21 True ''FTP - File Transfer Protocol with optional encryption'' '''',
    protocol_info SFTP ''sftp'' True True 22 False ''SFTP - SSH File Transfer Protocol'' '''',
    protocol_info HTTP ''http'' True True 80 False ''HTTP - Hypertext Transfer Protocol'' '''',
    protocol_info HTTPS ''https'' True True 443 True ''HTTPS - HTTP over TLS'' '''',
    protocol_info FTPS ''ftps'' True True 990 True ''FTPS - FTP over implicit TLS'' '''',
    protocol_info FTPES ''ftpes'' True True 21 True ''FTPES - FTP over explicit TLS'' '''',
    protocol_info INSECURE_FTP ''ftp'' False False 21 True ''FTP - Insecure File Transfer Protocol'' '''',
    protocol_info S3 ''s3'' True True 443 False ''S3 - Amazon Simple Storage Service'' '''',
    protocol_info STORJ ''storj'' True False 7777 True ''Storj (using legacy API key)'' '''',
    protocol_info WEBDAV ''webdav'' True True 443 True ''WebDAV using HTTPS'' ''https'',
    protocol_info AZURE_FILE ''azfile'' True True 443 False ''Microsoft Azure File Storage Service'' ''https'',
    protocol_info AZURE_BLOB ''azblob'' True True 443 False ''Microsoft Azure Blob Storage Service'' ''https'',
    protocol_info SWIFT ''swift'' True True 443 False ''OpenStack Swift'' ''https'',
    protocol_info GOOGLE_CLOUD ''google'' True True 443 False ''Google Cloud Storage'' ''https'',
    protocol_info GOOGLE_DRIVE ''gdrive'' True True 443 False ''Google Drive'' ''https'',
    protocol_info DROPBOX ''dropbox'' True True 443 False ''Dropbox'' ''https'',
    protocol_info ONEDRIVE ''onedrive'' True True 443 False ''Microsoft OneDrive'' ''https'',
    protocol_info B2 ''b2'' True True 443 False ''Backblaze B2'' ''https'',
    protocol_info BOX ''box'' True True 443 False ''Box'' ''https'',
    protocol_info INSECURE_WEBDAV ''webdav'' True True 80 True ''WebDAV using HTTP (insecure)'' ''http'',
    protocol_info RACKSPACE ''rackspace'' True True 443 False ''Rackspace Cloud Storage'' ''https'',
    protocol_info STORJ_GRANT ''storj'' True True 7777 True ''Storj - Decentralized Cloud Storage'' '''',
    protocol_info UNKNOWN '''' False False 21 False '''' '''']"

text \<open>The loops over the table stop at the entry of \<^verbatim>\<open>UNKNOWN\<close>.\<close>

definition known_infos :: "t_protocolInfo list" where
  "known_infos = takeWhile (\<lambda>i. info_protocol i \<noteq> UNKNOWN) protocolInfos"

definition GetProtocolInfo :: "server_protocol \<Rightarrow> t_protocolInfo" where
  "GetProtocolInfo p =
     (case find (\<lambda>i. info_protocol i = p) known_infos of
        Some i \<Rightarrow> i
      | None \<Rightarrow> protocolInfos ! length known_infos)"

definition GetDefaultPort :: "server_protocol \<Rightarrow> nat" where
  "GetDefaultPort p = defaultPort (GetProtocolInfo p)"

definition GetProtocolFromPort :: "nat \<Rightarrow> bool \<Rightarrow> server_protocol" where
  "GetProtocolFromPort port defaultOnly =
     (case find (\<lambda>i. defaultPort i = port) known_infos of
        Some i \<Rightarrow> info_protocol i
      | None \<Rightarrow> if defaultOnly then UNKNOWN else FTP)"

definition info_display_name :: "'a fzlib_scheme \<Rightarrow> t_protocolInfo \<Rightarrow> wstring" where
  "info_display_name lib i = (if translateable i then translate lib (info_name i) else info_name i)"

definition GetProtocolName :: "'a fzlib_scheme \<Rightarrow> server_protocol \<Rightarrow> wstring" where
  "GetProtocolName lib p =
     (case find (\<lambda>i. info_protocol i = p) known_infos of
        Some i \<Rightarrow> info_display_name lib i
      | None \<Rightarrow> [])"

definition GetProtocolFromName :: "'a fzlib_scheme \<Rightarrow> wstring \<Rightarrow> server_protocol" where
  "GetProtocolFromName lib name =
     (case find (\<lambda>i. info_display_name lib i = name) known_infos of
        Some i \<Rightarrow> info_protocol i
      | None \<Rightarrow> UNKNOWN)"

definition GetProtocolFromPrefix :: "'a fzlib_scheme \<Rightarrow> wstring \<Rightarrow> server_protocol \<Rightarrow> server_protocol" where
  "GetProtocolFromPrefix lib pre hint =
     (let lower = str_tolower_ascii lib pre; info = GetProtocolInfo hint
      in if hint \<noteq> UNKNOWN \<and> lower \<noteq> [] \<and>
            (info_prefix info = lower \<or> alternative_prefix info = lower) then hint
         else case find (\<lambda>i. info_prefix i = lower \<and> parse_from_prefix i) known_infos of
           Some i \<Rightarrow> info_protocol i
         | None \<Rightarrow> UNKNOWN)"

definition GetPrefixFromProtocol :: "server_protocol \<Rightarrow> wstring" where
  "GetPrefixFromProtocol p = info_prefix (GetProtocolInfo p)"

subsection \<open>Features of the protocols\<close>

definition is_ftp :: "server_protocol \<Rightarrow> bool" where
  "is_ftp p \<longleftrightarrow> p = FTP \<or> p = FTPS \<or> p = FTPES \<or> p = INSECURE_FTP"

fun ProtocolHasFeature :: "server_protocol \<Rightarrow> protocol_feature \<Rightarrow> bool" where
  "ProtocolHasFeature p DataTypeConcept = is_ftp p"
| "ProtocolHasFeature p TransferMode = is_ftp p"
| "ProtocolHasFeature p EnterCommand = is_ftp p"
| "ProtocolHasFeature p PostLoginCommands = is_ftp p"
| "ProtocolHasFeature p Charset = (is_ftp p \<or> p = SFTP)"
| "ProtocolHasFeature p PreserveTimestamp =
     (is_ftp p \<or> p = SFTP \<or> p = AZURE_BLOB \<or> p = AZURE_FILE \<or> p = B2 \<or> p = BOX \<or> p = DROPBOX \<or>
      p = GOOGLE_CLOUD \<or> p = GOOGLE_DRIVE \<or> p = ONEDRIVE \<or> p = S3 \<or> p = SWIFT \<or> p = WEBDAV)"
| "ProtocolHasFeature p ServerType = (is_ftp p \<or> p = SFTP)"
| "ProtocolHasFeature p UnixChmod = (is_ftp p \<or> p = SFTP)"
| "ProtocolHasFeature p DirectoryRename = (p \<noteq> AZURE_FILE)"
| "ProtocolHasFeature p RecursiveDelete = (p = GOOGLE_DRIVE \<or> p = DROPBOX \<or> p = ONEDRIVE \<or> p = B2)"
| "ProtocolHasFeature p ServerAssignedHome = (is_ftp p \<or> p = SFTP)"
| "ProtocolHasFeature p TemporaryUrl =
     (p = B2 \<or> p = S3 \<or> p = DROPBOX \<or> p = AZURE_BLOB \<or> p = AZURE_FILE)"
| "ProtocolHasFeature p Security = (p \<noteq> HTTP \<and> p \<noteq> INSECURE_FTP \<and> p \<noteq> INSECURE_WEBDAV)"

fun GetSupportedLogonTypes :: "server_protocol \<Rightarrow> logon_type list" where
  "GetSupportedLogonTypes SFTP = [anonymous, normal, ask, interactive, key_file]"
| "GetSupportedLogonTypes S3 = [anonymous, normal, ask, profile]"
| "GetSupportedLogonTypes p =
     (if is_ftp p \<or> p = HTTP then [anonymous, normal, ask, interactive, account]
      else if p \<in> {STORJ, STORJ_GRANT, AZURE_FILE, AZURE_BLOB, SWIFT, B2, RACKSPACE} then [normal, ask]
      else if p \<in> {WEBDAV, INSECURE_WEBDAV} then [anonymous, normal, ask]
      else if p \<in> {GOOGLE_CLOUD, GOOGLE_DRIVE, DROPBOX, ONEDRIVE, BOX} then [interactive]
      else [anonymous])"

definition ProtocolHasUser :: "server_protocol \<Rightarrow> bool" where
  "ProtocolHasUser p \<longleftrightarrow>
     p \<noteq> DROPBOX \<and> p \<noteq> ONEDRIVE \<and> p \<noteq> BOX \<and> p \<noteq> GOOGLE_DRIVE \<and> p \<noteq> STORJ_GRANT"

fun GetDefaultHost :: "server_protocol \<Rightarrow> wstring \<times> wstring" where
  "GetDefaultHost AZURE_FILE = (L ''file.core.windows.net'', [])"
| "GetDefaultHost AZURE_BLOB = (L ''blob.core.windows.net'', [])"
| "GetDefaultHost GOOGLE_CLOUD = (L ''storage.googleapis.com'', [])"
| "GetDefaultHost GOOGLE_DRIVE = (L ''www.googleapis.com'', [])"
| "GetDefaultHost S3 = (L ''s3.amazonaws.com'', [])"
| "GetDefaultHost DROPBOX = (L ''api.dropboxapi.com'', [])"
| "GetDefaultHost ONEDRIVE = (L ''graph.microsoft.com'', [])"
| "GetDefaultHost B2 = (L ''api.backblazeb2.com'', [])"
| "GetDefaultHost BOX = (L ''api.box.com'', [])"
| "GetDefaultHost RACKSPACE = (L ''identity.api.rackspacecloud.com'', [])"
| "GetDefaultHost STORJ = (L ''us-central-1.tardigrade.io'', [])"
| "GetDefaultHost STORJ_GRANT = (L ''us-central-1.tardigrade.io'', [])"
| "GetDefaultHost _ = ([], [])"

fun protocol_case_sensitivity :: "server_protocol \<Rightarrow> case_sensitivity" where
  "protocol_case_sensitivity B2 = cs_yes"
| "protocol_case_sensitivity GOOGLE_DRIVE = cs_yes"
| "protocol_case_sensitivity BOX = cs_no"
| "protocol_case_sensitivity ONEDRIVE = cs_no"
| "protocol_case_sensitivity _ = cs_unspecified"

subsection \<open>Extra parameters\<close>

record ParameterTraits =
  trait_name :: wstring
  trait_section :: parameter_section
  trait_flags :: nat
  trait_default :: wstring
  trait_hint :: wstring

definition trait :: "string \<Rightarrow> parameter_section \<Rightarrow> nat \<Rightarrow> wstring \<Rightarrow> wstring \<Rightarrow> ParameterTraits" where
  "trait n sec fl def hint =
     \<lparr>trait_name = L n, trait_section = sec, trait_flags = fl, trait_default = def, trait_hint = hint\<rparr>"

definition flag_optional :: nat where "flag_optional = 1"
definition flag_content_transparent :: nat where "flag_content_transparent = 4"

fun ExtraServerParameterTraits :: "'a fzlib_scheme \<Rightarrow> server_protocol \<Rightarrow> ParameterTraits list" where
  "ExtraServerParameterTraits lib GOOGLE_CLOUD =
     [trait ''login_hint'' sec_user flag_optional [] (translate lib (L ''Name or email address'')),
      trait ''oauth_identity'' sec_custom flag_optional [] []]"
| "ExtraServerParameterTraits lib SWIFT =
     [trait ''identpath'' sec_host 0 [] (translate lib (L ''Path of identity service'')),
      trait ''identuser'' sec_user flag_optional [] [],
      trait ''keystone_version'' sec_custom flag_optional [] [],
      trait ''domain'' sec_custom flag_optional (L ''Default'') []]"
| "ExtraServerParameterTraits lib RACKSPACE =
     [trait ''identpath'' sec_host 0 (L ''/v2.0/tokens'') (translate lib (L ''Path of identity service'')),
      trait ''identuser'' sec_user flag_optional [] []]"
| "ExtraServerParameterTraits lib S3 =
     [trait ''ssealgorithm'' sec_custom flag_optional [] [],
      trait ''ssekmskey'' sec_custom flag_optional [] [],
      trait ''ssecustomerkey'' sec_custom flag_optional [] [],
      trait ''stsrolearn'' sec_custom flag_optional [] [],
      trait ''stsmfaserial'' sec_custom flag_optional [] [],
      trait ''region'' sec_custom flag_optional [] [],
      trait ''original_profile'' sec_custom flag_optional [] []]"
| "ExtraServerParameterTraits lib GOOGLE_DRIVE =
     [trait ''login_hint'' sec_user flag_optional [] (translate lib (L ''Name or email address'')),
      trait ''oauth_identity'' sec_custom flag_optional [] []]"
| "ExtraServerParameterTraits lib ONEDRIVE =
     [trait ''login_hint'' sec_user flag_optional [] (translate lib (L ''Name or email address'')),
      trait ''oauth_identity'' sec_custom flag_optional [] []]"
| "ExtraServerParameterTraits lib DROPBOX =
     [trait ''oauth_identity'' sec_custom flag_optional [] [],
      trait ''root_namespace'' sec_custom flag_optional [] []]"
| "ExtraServerParameterTraits lib BOX = [trait ''oauth_identity'' sec_custom flag_optional [] []]"
| "ExtraServerParameterTraits lib STORJ = [trait ''passphrase_hash'' sec_custom flag_optional [] []]"
| "ExtraServerParameterTraits lib STORJ_GRANT = [trait ''credentials_hash'' sec_custom flag_optional [] []]"
| "ExtraServerParameterTraits lib _ = []"

type_synonym parameters = "(wstring \<times> wstring) list"

text \<open>
  Setting a parameter: an empty value erases it; otherwise it is stored if the protocol has a
  parameter of that name outside the credentials section.
\<close>

definition set_parameter :: "'a fzlib_scheme \<Rightarrow> server_protocol \<Rightarrow> wstring \<Rightarrow> wstring \<Rightarrow> parameters \<Rightarrow> parameters" where
  "set_parameter lib p name value ps =
     (if value = [] then omap_erase (<) name ps
      else if \<exists>t \<in> set (ExtraServerParameterTraits lib p). trait_section t \<noteq> sec_credentials \<and> name = trait_name t
      then omap_set (<) name value ps
      else ps)"

definition get_parameter :: "wstring \<Rightarrow> parameters \<Rightarrow> wstring" where
  "get_parameter name ps = (case omap_find (<) name ps of Some v \<Rightarrow> v | None \<Rightarrow> [])"

subsection \<open>CServer\<close>

record cserver =
  srv_protocol :: server_protocol
  srv_type :: server_type
  srv_host :: wstring
  srv_user :: wstring
  srv_port :: nat
  srv_timezoneOffset :: int
  srv_pasvMode :: pasv_mode
  srv_maximumMultipleConnections :: int
  srv_bypassProxy :: bool
  srv_encodingType :: charset_encoding
  srv_customEncoding :: wstring
  srv_postLoginCommands :: "wstring list"
  srv_extraParameters :: parameters

definition empty_server :: cserver where
  "empty_server = \<lparr>srv_protocol = UNKNOWN, srv_type = DEFAULT, srv_host = [], srv_user = [],
     srv_port = 21, srv_timezoneOffset = 0, srv_pasvMode = MODE_DEFAULT,
     srv_maximumMultipleConnections = 0, srv_bypassProxy = False, srv_encodingType = ENCODING_AUTO,
     srv_customEncoding = [], srv_postLoginCommands = [], srv_extraParameters = []\<rparr>"

definition make_server :: "server_protocol \<Rightarrow> server_type \<Rightarrow> wstring \<Rightarrow> nat \<Rightarrow> cserver" where
  "make_server p t host port =
     empty_server\<lparr>srv_protocol := p, srv_type := t, srv_host := host,
       srv_port := (if port \<noteq> 0 then port else GetDefaultPort p)\<rparr>"

definition server_eq :: "cserver \<Rightarrow> cserver \<Rightarrow> bool" where
  "server_eq a b \<longleftrightarrow>
     srv_protocol a = srv_protocol b \<and> srv_type a = srv_type b \<and> srv_host a = srv_host b \<and>
     srv_port a = srv_port b \<and> srv_user a = srv_user b \<and>
     srv_timezoneOffset a = srv_timezoneOffset b \<and> srv_pasvMode a = srv_pasvMode b \<and>
     srv_encodingType a = srv_encodingType b \<and>
     (srv_encodingType a = ENCODING_CUSTOM \<longrightarrow> srv_customEncoding a = srv_customEncoding b) \<and>
     srv_postLoginCommands a = srv_postLoginCommands b \<and>
     srv_bypassProxy a = srv_bypassProxy b \<and> srv_extraParameters a = srv_extraParameters b"

text \<open>One step of the comparison chain: less, greater, or go on with the rest.\<close>

definition less_or :: "'a :: linorder \<Rightarrow> 'a \<Rightarrow> bool \<Rightarrow> bool" where
  "less_or x y rest = (if x < y then True else if x > y then False else rest)"

definition server_less :: "cserver \<Rightarrow> cserver \<Rightarrow> bool" where
  "server_less a b =
     less_or (srv_protocol a) (srv_protocol b)
     (less_or (srv_type a) (srv_type b)
     (less_or (srv_host a) (srv_host b)
     (less_or (srv_port a) (srv_port b)
     (less_or (srv_user a) (srv_user b)
     (less_or (srv_timezoneOffset a) (srv_timezoneOffset b)
     (less_or (pasv_num (srv_pasvMode a)) (pasv_num (srv_pasvMode b))
     (less_or (encoding_num (srv_encodingType a)) (encoding_num (srv_encodingType b))
     ((if srv_encodingType a = ENCODING_CUSTOM
       then less_or (srv_customEncoding a) (srv_customEncoding b) else (\<lambda>rest. rest))
     (less_or (srv_bypassProxy a) (srv_bypassProxy b)
     (less_or (srv_extraParameters a) (srv_extraParameters b) False))))))))))"

definition SameResource :: "'a fzlib_scheme \<Rightarrow> cserver \<Rightarrow> cserver \<Rightarrow> bool" where
  "SameResource lib a b \<longleftrightarrow>
     (srv_protocol a, srv_host a, srv_port a, srv_user a, srv_postLoginCommands a) =
     (srv_protocol b, srv_host b, srv_port b, srv_user b, srv_postLoginCommands b) \<and>
     (\<forall>t \<in> set (ExtraServerParameterTraits lib (srv_protocol a)).
        trait_flags t AND flag_content_transparent \<noteq> 0 \<or>
        get_parameter (trait_name t) (srv_extraParameters a) =
        get_parameter (trait_name t) (srv_extraParameters b))"

definition SameContent :: "'a fzlib_scheme \<Rightarrow> cserver \<Rightarrow> cserver \<Rightarrow> bool" where
  "SameContent lib a b \<longleftrightarrow>
     SameResource lib a b \<and>
     (srv_timezoneOffset a, srv_encodingType a, srv_customEncoding a) =
     (srv_timezoneOffset b, srv_encodingType b, srv_customEncoding b)"

definition GetCaseSensitivity :: "cserver \<Rightarrow> case_sensitivity" where
  "GetCaseSensitivity s = protocol_case_sensitivity (srv_protocol s)"

subsection \<open>Setters\<close>

definition SetExtraParameter :: "'a fzlib_scheme \<Rightarrow> wstring \<Rightarrow> wstring \<Rightarrow> cserver \<Rightarrow> cserver" where
  "SetExtraParameter lib name value s =
     s\<lparr>srv_extraParameters := set_parameter lib (srv_protocol s) name value (srv_extraParameters s)\<rparr>"

definition GetExtraParameter :: "wstring \<Rightarrow> cserver \<Rightarrow> wstring" where
  "GetExtraParameter name s = get_parameter name (srv_extraParameters s)"

definition HasExtraParameter :: "wstring \<Rightarrow> cserver \<Rightarrow> bool" where
  "HasExtraParameter name s \<longleftrightarrow> omap_find (<) name (srv_extraParameters s) \<noteq> None"

definition ClearExtraParameter :: "wstring \<Rightarrow> cserver \<Rightarrow> cserver" where
  "ClearExtraParameter name s = s\<lparr>srv_extraParameters := omap_erase (<) name (srv_extraParameters s)\<rparr>"

definition ClearExtraParameters :: "cserver \<Rightarrow> cserver" where
  "ClearExtraParameters s = s\<lparr>srv_extraParameters := []\<rparr>"

text \<open>\<^verbatim>\<open>SetProtocol\<close>, for \<^verbatim>\<open>UNKNOWN\<close> too, where the source asserts that it is not called with it.\<close>

definition SetProtocol :: "'a fzlib_scheme \<Rightarrow> server_protocol \<Rightarrow> cserver \<Rightarrow> cserver" where
  "SetProtocol lib p s =
     (let s1 = (if \<not> ProtocolHasFeature p PostLoginCommands then s\<lparr>srv_postLoginCommands := []\<rparr> else s);
          s2 = s1\<lparr>srv_protocol := p\<rparr>;
          oldParams = srv_extraParameters s2
      in fold (\<lambda>(n, v). SetExtraParameter lib n v) oldParams (s2\<lparr>srv_extraParameters := []\<rparr>))"

definition SetHost :: "wstring \<Rightarrow> nat \<Rightarrow> cserver \<Rightarrow> bool \<times> cserver" where
  "SetHost host port s =
     (if host = [] then (False, s)
      else if port < 1 \<or> port > 65535 then (False, s)
      else let s1 = s\<lparr>srv_host := host, srv_port := port\<rparr>
           in (True, if srv_protocol s1 = UNKNOWN
                     then s1\<lparr>srv_protocol := GetProtocolFromPort port False\<rparr> else s1))"

definition SetTimezoneOffset :: "int \<Rightarrow> cserver \<Rightarrow> bool \<times> cserver" where
  "SetTimezoneOffset minutes s =
     (if minutes > 60 * 24 \<or> minutes < - 60 * 24 then (False, s)
      else (True, s\<lparr>srv_timezoneOffset := minutes\<rparr>))"

definition SetEncodingType :: "charset_encoding \<Rightarrow> wstring \<Rightarrow> cserver \<Rightarrow> bool \<times> cserver" where
  "SetEncodingType t enc s =
     (if t = ENCODING_CUSTOM \<and> enc = [] then (False, s)
      else (True, s\<lparr>srv_encodingType := t, srv_customEncoding := enc\<rparr>))"

definition SetPostLoginCommands :: "wstring list \<Rightarrow> cserver \<Rightarrow> bool \<times> cserver" where
  "SetPostLoginCommands cmds s =
     (if \<not> ProtocolHasFeature (srv_protocol s) PostLoginCommands
      then (False, s\<lparr>srv_postLoginCommands := []\<rparr>)
      else (True, s\<lparr>srv_postLoginCommands := cmds\<rparr>))"

subsection \<open>Names\<close>

definition typeNames :: "wstring list" where
  "typeNames = [L ''Default (Autodetect)'', L ''Unix'', L ''VMS'', L ''DOS with backslash separators'',
     L ''MVS, OS/390, z/OS'', L ''VxWorks'', L ''z/VM'', L ''HP NonStop'',
     L ''DOS-like with virtual paths'', L ''Cygwin'', L ''DOS with forward-slash separators'']"

definition GetNameFromServerType :: "'a fzlib_scheme \<Rightarrow> server_type \<Rightarrow> wstring" where
  "GetNameFromServerType lib t = translate lib (typeNames ! type_num t)"

definition GetServerTypeFromName :: "'a fzlib_scheme \<Rightarrow> wstring \<Rightarrow> server_type" where
  "GetServerTypeFromName lib name =
     (case find (\<lambda>t. name = GetNameFromServerType lib t) all_types of Some t \<Rightarrow> t | None \<Rightarrow> DEFAULT)"

fun GetNameFromLogonType :: "'a fzlib_scheme \<Rightarrow> logon_type \<Rightarrow> wstring" where
  "GetNameFromLogonType lib normal = translate lib (L ''Normal'')"
| "GetNameFromLogonType lib ask = translate lib (L ''Ask for password'')"
| "GetNameFromLogonType lib key_file = translate lib (L ''Key file'')"
| "GetNameFromLogonType lib interactive = translate lib (L ''Interactive'')"
| "GetNameFromLogonType lib account = translate lib (L ''Account'')"
| "GetNameFromLogonType lib profile = translate lib (L ''Profile'')"
| "GetNameFromLogonType lib anonymous = translate lib (L ''Anonymous'')"

definition GetLogonTypeFromName :: "'a fzlib_scheme \<Rightarrow> wstring \<Rightarrow> logon_type" where
  "GetLogonTypeFromName lib name =
     (if name = translate lib (L ''Normal'') then normal
      else if name = translate lib (L ''Ask for password'') then ask
      else if name = translate lib (L ''Key file'') then key_file
      else if name = translate lib (L ''Interactive'') then interactive
      else if name = translate lib (L ''Account'') then account
      else if name = translate lib (L ''Profile'') then profile
      else anonymous)"

subsection \<open>Credentials and formatting\<close>

record credentials =
  cred_logonType :: logon_type
  cred_password :: wstring
  cred_account :: wstring
  cred_keyFile :: wstring
  cred_extraParameters :: parameters

definition SetPass :: "wstring \<Rightarrow> credentials \<Rightarrow> credentials" where
  "SetPass p c = (if cred_logonType c \<noteq> anonymous then c\<lparr>cred_password := p\<rparr> else c)"

definition GetPass :: "credentials \<Rightarrow> wstring" where
  "GetPass c = (if cred_logonType c = anonymous then [] else cred_password c)"

definition cred_SetExtraParameter ::
  "'a fzlib_scheme \<Rightarrow> server_protocol \<Rightarrow> wstring \<Rightarrow> wstring \<Rightarrow> credentials \<Rightarrow> credentials" where
  "cred_SetExtraParameter lib p name value c =
     c\<lparr>cred_extraParameters := set_parameter lib p name value (cred_extraParameters c)\<rparr>"

text \<open>The host, in brackets if it holds a colon, with the port where the format shows it.\<close>

definition format_host :: "cserver \<Rightarrow> wstring" where
  "format_host s =
     (if find_idx (\<lambda>c. c = 58) (srv_host s) \<noteq> None then L ''['' @ srv_host s @ L '']'' else srv_host s)"

definition format_host_port :: "'a fzlib_scheme \<Rightarrow> server_format \<Rightarrow> cserver \<Rightarrow> wstring" where
  "format_host_port lib fmt s =
     (if srv_port s \<noteq> GetDefaultPort (srv_protocol s) \<or> fmt = with_port
      then format_host s @ L '':'' @ fz_dec lib (int (srv_port s)) else format_host s)"

text \<open>The user part put in front of the host.\<close>

definition format_user :: "'a fzlib_scheme \<Rightarrow> server_format \<Rightarrow> credentials \<Rightarrow> cserver \<Rightarrow> wstring \<Rightarrow> wstring" where
  "format_user lib fmt cred s server =
     (let user = (if srv_protocol s = STORJ then [] else srv_user s)
      in if cred_logonType cred = anonymous then server
         else let user1 = (if fmt = url \<or> fmt = url_with_password then percent_encode_w lib user else user)
           in if user1 = [] then server
              else if fmt = url_with_password then
                (if GetPass cred = [] then server
                 else user1 @ L '':'' @ percent_encode_w lib (GetPass cred) @ L ''@'' @ server)
              else percent_encode_w lib user1 @ L ''@'' @ server)"

definition Format :: "'a fzlib_scheme \<Rightarrow> server_format \<Rightarrow> credentials \<Rightarrow> cserver \<Rightarrow> wstring" where
  "Format lib fmt cred s =
     (let info = GetProtocolInfo (srv_protocol s)
      in if fmt = host_only then format_host s
         else if fmt = with_optional_port \<or> fmt = with_port then format_host_port lib fmt s
         else let server = format_user lib fmt cred s (format_host_port lib fmt s)
           in if fmt = with_user_and_optional_port \<and> \<not> alwaysShowPrefix info \<and> srv_port s = defaultPort info
              then server
              else if info_prefix info \<noteq> [] then info_prefix info @ L ''://'' @ server
              else server)"

end
