(* ===== verification/Server_Props.thy ===== *)
theory Server_Props
  imports Server
begin

text \<open>
  Properties of \<^verbatim>\<open>CServer\<close>: the order that \<^verbatim>\<open>std::map<CServer, ...>\<close> is keyed by, the
  invariant of the setters, and the comparison used by the caches.
\<close>

subsection \<open>The order of servers\<close>

lemma less_or_iff: "less_or x y r \<longleftrightarrow> x < y \<or> x = y \<and> r"
  by (auto simp: less_or_def)

lemma less_or_pair: "less_or x y (k < k') \<longleftrightarrow> (x, k) < (y, k')"
  by (auto simp: less_or_iff)

lemma less_or_False: "less_or x y False \<longleftrightarrow> x < y"
  by (simp add: less_or_iff)

definition server_key where
  "server_key s =
     (srv_protocol s, srv_type s, srv_host s, srv_port s, srv_user s, srv_timezoneOffset s,
      pasv_num (srv_pasvMode s), encoding_num (srv_encodingType s),
      if srv_encodingType s = ENCODING_CUSTOM then srv_customEncoding s else [],
      srv_bypassProxy s, srv_extraParameters s)"

lemma server_less_key: "server_less a b \<longleftrightarrow> server_key a < server_key b"
proof -
  let ?c = "\<lambda>s. if srv_encodingType s = ENCODING_CUSTOM then srv_customEncoding s else []"
  have custom: "less_or (encoding_num (srv_encodingType a)) (encoding_num (srv_encodingType b))
     ((if srv_encodingType a = ENCODING_CUSTOM
       then less_or (srv_customEncoding a) (srv_customEncoding b) else (\<lambda>rest. rest)) r) =
     less_or (encoding_num (srv_encodingType a)) (encoding_num (srv_encodingType b))
       (less_or (?c a) (?c b) r)" for r
    by (auto simp: less_or_iff)
  show ?thesis
    unfolding server_less_def server_key_def custom less_or_False less_or_pair by simp
qed

interpretation servers: keyed_order server_less server_key
  by unfold_locales (rule server_less_key)

lemma eqv_server_less:
  "eqv server_less a b \<longleftrightarrow>
     srv_protocol a = srv_protocol b \<and> srv_type a = srv_type b \<and> srv_host a = srv_host b \<and>
     srv_port a = srv_port b \<and> srv_user a = srv_user b \<and>
     srv_timezoneOffset a = srv_timezoneOffset b \<and> srv_pasvMode a = srv_pasvMode b \<and>
     srv_encodingType a = srv_encodingType b \<and>
     (srv_encodingType a = ENCODING_CUSTOM \<longrightarrow> srv_customEncoding a = srv_customEncoding b) \<and>
     srv_bypassProxy a = srv_bypassProxy b \<and> srv_extraParameters a = srv_extraParameters b"
  unfolding servers.eqv_key server_key_def by auto

lemma server_eq_eqv:
  "server_eq a b \<longleftrightarrow> eqv server_less a b \<and> srv_postLoginCommands a = srv_postLoginCommands b"
  by (auto simp: server_eq_def eqv_server_less)

subsection \<open>The invariant of the setters\<close>

definition supported_parameter :: "'a fzlib_scheme \<Rightarrow> server_protocol \<Rightarrow> wstring \<Rightarrow> bool" where
  "supported_parameter lib p name \<longleftrightarrow>
     (\<exists>t \<in> set (ExtraServerParameterTraits lib p). trait_section t \<noteq> sec_credentials \<and> name = trait_name t)"

definition wf_parameters :: "'a fzlib_scheme \<Rightarrow> server_protocol \<Rightarrow> parameters \<Rightarrow> bool" where
  "wf_parameters lib p ps \<longleftrightarrow>
     omap_ok (<) ps \<and> (\<forall>(n, v) \<in> set ps. supported_parameter lib p n \<and> v \<noteq> [])"

definition wf_server :: "'a fzlib_scheme \<Rightarrow> cserver \<Rightarrow> bool" where
  "wf_server lib s \<longleftrightarrow>
     wf_parameters lib (srv_protocol s) (srv_extraParameters s) \<and>
     (srv_postLoginCommands s \<noteq> [] \<longrightarrow> ProtocolHasFeature (srv_protocol s) PostLoginCommands) \<and>
     \<bar>srv_timezoneOffset s\<bar> \<le> 60 * 24 \<and>
     (srv_encodingType s = ENCODING_CUSTOM \<longrightarrow> srv_customEncoding s \<noteq> [])"

lemma omap_set_mem: "(n, v) \<in> set (omap_set lt k w m) \<Longrightarrow> (n, v) \<in> set m \<or> v = w \<and> (n = k \<or> n \<in> fst ` set m)"
  by (induction m) (force split: if_splits)+

lemma wf_parameters_erase: "wf_parameters lib p ps \<Longrightarrow> wf_parameters lib p (omap_erase (<) n ps)"
  using set_omap_erase [of "(<)" n ps] by (auto simp: wf_parameters_def lin.omap_ok_erase)

lemma set_parameter_eq:
  "set_parameter lib p n v ps =
     (if v = [] then omap_erase (<) n ps
      else if supported_parameter lib p n then omap_set (<) n v ps else ps)"
  by (simp add: set_parameter_def supported_parameter_def)

lemma wf_parameters_omap_set:
  assumes wf: "wf_parameters lib p ps" and new: "supported_parameter lib p n" "v \<noteq> []"
  shows "wf_parameters lib p (omap_set (<) n v ps)"
proof -
  have "supported_parameter lib p a \<and> b \<noteq> []" if "(a, b) \<in> set (omap_set (<) n v ps)" for a b
    using omap_set_mem [OF that] new wf by (fastforce simp: wf_parameters_def)
  moreover have "omap_ok (<) (omap_set (<) n v ps)"
    using wf by (simp add: wf_parameters_def lin.omap_ok_set)
  ultimately show ?thesis by (auto simp: wf_parameters_def)
qed

lemma wf_parameters_set: "wf_parameters lib p ps \<Longrightarrow> wf_parameters lib p (set_parameter lib p n v ps)"
  by (simp add: set_parameter_eq wf_parameters_erase wf_parameters_omap_set)

lemma wf_server_SetExtraParameter: "wf_server lib s \<Longrightarrow> wf_server lib (SetExtraParameter lib n v s)"
  by (simp add: wf_server_def SetExtraParameter_def wf_parameters_set)

lemma SetExtraParameter_frame [simp]:
  "srv_protocol (SetExtraParameter lib n v s) = srv_protocol s"
  "srv_postLoginCommands (SetExtraParameter lib n v s) = srv_postLoginCommands s"
  by (simp_all add: SetExtraParameter_def)

lemma wf_server_fold_params:
  "wf_server lib s \<Longrightarrow> wf_server lib (fold (\<lambda>(n, v). SetExtraParameter lib n v) ps s)"
  by (induction ps arbitrary: s) (auto simp: wf_server_SetExtraParameter)

lemma wf_server_SetProtocol: "wf_server lib s \<Longrightarrow> wf_server lib (SetProtocol lib p s)"
  unfolding SetProtocol_def Let_def
  by (rule wf_server_fold_params) (auto simp: wf_server_def wf_parameters_def)

lemma unknown_no_parameters:
  "wf_server lib s \<Longrightarrow> srv_protocol s = UNKNOWN \<Longrightarrow> srv_extraParameters s = [] \<and> srv_postLoginCommands s = []"
  by (cases "srv_extraParameters s")
    (auto simp: wf_server_def wf_parameters_def supported_parameter_def is_ftp_def)

lemma wf_server_SetHost:
  assumes wf: "wf_server lib s"
  shows "wf_server lib (snd (SetHost h p s))"
proof (cases "srv_protocol s = UNKNOWN")
  case True
  with wf have "srv_extraParameters s = []" "srv_postLoginCommands s = []"
    using unknown_no_parameters by blast+
  with True wf show ?thesis by (simp add: SetHost_def Let_def wf_server_def wf_parameters_def)
next
  case False
  with wf show ?thesis by (simp add: SetHost_def Let_def wf_server_def)
qed

text \<open>The servers that the constructors and setters can build.\<close>

inductive server_built :: "'a fzlib_scheme \<Rightarrow> cserver \<Rightarrow> bool" for lib where
  built_default: "server_built lib empty_server"
| built_make: "server_built lib (make_server p t h port)"
| built_type: "server_built lib s \<Longrightarrow> server_built lib (s\<lparr>srv_type := t\<rparr>)"
| built_user: "server_built lib s \<Longrightarrow> server_built lib (s\<lparr>srv_user := u\<rparr>)"
| built_pasv: "server_built lib s \<Longrightarrow> server_built lib (s\<lparr>srv_pasvMode := m\<rparr>)"
| built_max: "server_built lib s \<Longrightarrow> server_built lib (s\<lparr>srv_maximumMultipleConnections := n\<rparr>)"
| built_bypass: "server_built lib s \<Longrightarrow> server_built lib (s\<lparr>srv_bypassProxy := b\<rparr>)"
| built_protocol: "server_built lib s \<Longrightarrow> server_built lib (SetProtocol lib p s)"
| built_host: "server_built lib s \<Longrightarrow> server_built lib (snd (SetHost h port s))"
| built_tz: "server_built lib s \<Longrightarrow> server_built lib (snd (SetTimezoneOffset tz s))"
| built_enc: "server_built lib s \<Longrightarrow> server_built lib (snd (SetEncodingType e enc s))"
| built_cmds: "server_built lib s \<Longrightarrow> server_built lib (snd (SetPostLoginCommands cmds s))"
| built_param: "server_built lib s \<Longrightarrow> server_built lib (SetExtraParameter lib n v s)"
| built_clear1: "server_built lib s \<Longrightarrow> server_built lib (ClearExtraParameter n s)"
| built_clear: "server_built lib s \<Longrightarrow> server_built lib (ClearExtraParameters s)"

lemma server_built_wf: "server_built lib s \<Longrightarrow> wf_server lib s"
proof (induction rule: server_built.induct)
  case built_default
  show ?case by (simp add: empty_server_def wf_server_def wf_parameters_def)
next
  case built_make
  show ?case by (simp add: make_server_def empty_server_def wf_server_def wf_parameters_def)
next
  case built_protocol
  then show ?case by (simp add: wf_server_SetProtocol)
next
  case built_host
  then show ?case by (simp add: wf_server_SetHost)
next
  case built_param
  then show ?case by (simp add: wf_server_SetExtraParameter)
next
  case (built_clear1 s n)
  then show ?case by (simp add: wf_server_def ClearExtraParameter_def wf_parameters_erase)
qed (auto simp: wf_server_def SetTimezoneOffset_def SetEncodingType_def SetPostLoginCommands_def
  ClearExtraParameters_def wf_parameters_def)

subsection \<open>Content equality\<close>

lemma SameContent_refl [simp]: "SameContent lib s s"
  by (simp add: SameContent_def SameResource_def)

lemma SameContent_sym: "SameContent lib a b \<longleftrightarrow> SameContent lib b a"
  by (auto simp: SameContent_def SameResource_def)

lemma SameContent_trans: "SameContent lib a b \<Longrightarrow> SameContent lib b c \<Longrightarrow> SameContent lib a c"
  unfolding SameContent_def SameResource_def by (simp, metis)

subsection \<open>The table of protocols, the order and the invariant\<close>

lemma prefixes_lower: "\<forall>i\<in>set protocolInfos. \<forall>c\<in>set (info_prefix i). \<not> (65 \<le> c \<and> c \<le> 90)"
  by (simp add: protocolInfos_def protocol_info_def)

lemma prefixes_nonempty: "\<forall>i\<in>set protocolInfos. info_protocol i \<noteq> UNKNOWN \<longrightarrow> info_prefix i \<noteq> []"
  by (simp add: protocolInfos_def protocol_info_def)

lemma known_protocols:
  "map info_protocol known_infos = [FTP, SFTP, HTTP, HTTPS, FTPS, FTPES, INSECURE_FTP, S3, STORJ, WEBDAV,
     AZURE_FILE, AZURE_BLOB, SWIFT, GOOGLE_CLOUD, GOOGLE_DRIVE, DROPBOX, ONEDRIVE, B2, BOX, INSECURE_WEBDAV,
     RACKSPACE, STORJ_GRANT]"
  by (simp add: known_infos_def protocolInfos_def protocol_info_def del: L_simps)

lemma infos_complete:
  assumes "p \<noteq> UNKNOWN"
  shows "\<exists>i\<in>set known_infos. info_protocol i = p"
proof -
  have "p \<in> set (map info_protocol known_infos)"
    unfolding known_protocols using assms by (cases p) simp_all
  then show ?thesis by auto
qed

lemma GetProtocolInfo_member:
  assumes "p \<noteq> UNKNOWN"
  shows "GetProtocolInfo p \<in> set protocolInfos \<and> info_protocol (GetProtocolInfo p) = p"
proof -
  obtain i where i: "find (\<lambda>i. info_protocol i = p) known_infos = Some i"
    using infos_complete [OF assms] find_None_iff [of "\<lambda>i. info_protocol i = p" known_infos]
    by (cases "find (\<lambda>i. info_protocol i = p) known_infos") blast+
  then have "i \<in> set known_infos" "info_protocol i = p" by (auto simp: find_Some_iff)
  with i show ?thesis by (auto simp: GetProtocolInfo_def known_infos_def dest: set_takeWhileD)
qed

text \<open>The prefixes that a URL can have, and what they stand for.\<close>

definition url_prefixes :: "(wstring \<times> server_protocol) list" where
  "url_prefixes =
    [(L ''ftp'', FTP), (L ''sftp'', SFTP), (L ''http'', HTTP), (L ''https'', HTTPS), (L ''ftps'', FTPS), (L ''ftpes'', FTPES),
     (L ''s3'', S3), (L ''webdav'', WEBDAV), (L ''azfile'', AZURE_FILE), (L ''azblob'', AZURE_BLOB), (L ''swift'', SWIFT),
     (L ''google'', GOOGLE_CLOUD), (L ''gdrive'', GOOGLE_DRIVE), (L ''dropbox'', DROPBOX), (L ''onedrive'', ONEDRIVE), (L ''b2'', B2),
     (L ''box'', BOX), (L ''rackspace'', RACKSPACE), (L ''storj'', STORJ_GRANT)]"

lemma search_prefix:
  "(case find (\<lambda>i. info_prefix i = s \<and> parse_from_prefix i) known_infos of Some i \<Rightarrow> info_protocol i | None \<Rightarrow> UNKNOWN) =
     (case map_of url_prefixes s of Some p \<Rightarrow> p | None \<Rightarrow> UNKNOWN)"
  by (simp add: known_infos_def protocolInfos_def protocol_info_def url_prefixes_def del: L_simps)

lemma prefix_rows:
  "map (\<lambda>i. (info_protocol i, info_prefix i)) known_infos =
    [(FTP, L ''ftp''), (SFTP, L ''sftp''), (HTTP, L ''http''), (HTTPS, L ''https''), (FTPS, L ''ftps''), (FTPES, L ''ftpes''),
     (INSECURE_FTP, L ''ftp''), (S3, L ''s3''), (STORJ, L ''storj''), (WEBDAV, L ''webdav''), (AZURE_FILE, L ''azfile''),
     (AZURE_BLOB, L ''azblob''), (SWIFT, L ''swift''), (GOOGLE_CLOUD, L ''google''), (GOOGLE_DRIVE, L ''gdrive''), (DROPBOX, L ''dropbox''),
     (ONEDRIVE, L ''onedrive''), (B2, L ''b2''), (BOX, L ''box''), (INSECURE_WEBDAV, L ''webdav''), (RACKSPACE, L ''rackspace''),
     (STORJ_GRANT, L ''storj'')]"
  by (simp add: known_infos_def protocolInfos_def protocol_info_def del: L_simps)

lemma find_row: "find (\<lambda>x. f x = k) xs = Some x \<Longrightarrow> map_of (map (\<lambda>x. (f x, g x)) xs) k = Some (g x)"
  by (induction xs) (auto split: if_splits)

lemma printed_prefix:
  assumes "p \<noteq> UNKNOWN"
  shows "(case map_of url_prefixes (GetPrefixFromProtocol p) of Some q \<Rightarrow> q | None \<Rightarrow> UNKNOWN) =
     (case p of INSECURE_FTP \<Rightarrow> FTP | INSECURE_WEBDAV \<Rightarrow> WEBDAV | STORJ \<Rightarrow> STORJ_GRANT | _ \<Rightarrow> p)"
proof -
  obtain i where i: "find (\<lambda>i. info_protocol i = p) known_infos = Some i"
    using infos_complete [OF assms] find_None_iff [of "\<lambda>i. info_protocol i = p" known_infos]
    by (cases "find (\<lambda>i. info_protocol i = p) known_infos") blast+
  then have "Some (GetPrefixFromProtocol p) = map_of (map (\<lambda>i. (info_protocol i, info_prefix i)) known_infos) p"
    using find_row [OF i, of info_prefix] by (simp add: GetPrefixFromProtocol_def GetProtocolInfo_def)
  then show ?thesis unfolding prefix_rows using assms by (cases p) (simp_all add: url_prefixes_def)
qed

text \<open>
  C24: read without a hint, a URL prefix in upper or lower case stands for the protocol listed for it, and any other string
  for none. The prefix printed for a protocol is read back as that protocol, except for the three that share theirs with another one; given the
  protocol as the hint it is read back for all of them.
\<close>

theorem prefix_roundtrip:
  assumes "tolower_ascii_lower lib" "p \<noteq> UNKNOWN"
  shows "GetProtocolFromPrefix lib s UNKNOWN = (case map_of url_prefixes (str_tolower_ascii lib s) of Some q \<Rightarrow> q | None \<Rightarrow> UNKNOWN) \<and>
    GetProtocolFromPrefix lib (GetPrefixFromProtocol p) UNKNOWN =
      (case p of INSECURE_FTP \<Rightarrow> FTP | INSECURE_WEBDAV \<Rightarrow> WEBDAV | STORJ \<Rightarrow> STORJ_GRANT | _ \<Rightarrow> p) \<and>
    GetProtocolFromPrefix lib (GetPrefixFromProtocol p) p = p"
proof -
  have low: "str_tolower_ascii lib (GetPrefixFromProtocol p) = GetPrefixFromProtocol p"
    using assms(1) prefixes_lower GetProtocolInfo_member [OF assms(2)]
    unfolding tolower_ascii_lower_def GetPrefixFromProtocol_def by blast
  have ne: "GetPrefixFromProtocol p \<noteq> []" using assms(2) prefixes_nonempty GetProtocolInfo_member [OF assms(2)]
    unfolding GetPrefixFromProtocol_def by auto
  have none: "GetProtocolFromPrefix lib s UNKNOWN = (case map_of url_prefixes (str_tolower_ascii lib s) of Some q \<Rightarrow> q | None \<Rightarrow> UNKNOWN)" for s
    using search_prefix [of "str_tolower_ascii lib s"] by (simp add: GetProtocolFromPrefix_def Let_def)
  have "GetProtocolFromPrefix lib (GetPrefixFromProtocol p) p = p"
    using assms(2) low ne by (simp add: GetProtocolFromPrefix_def Let_def GetPrefixFromProtocol_def)
  then show ?thesis using none [of s] none [of "GetPrefixFromProtocol p"] low printed_prefix [OF assms(2)] by simp
qed

theorem prefix_roundtrip_witness:
  "GetProtocolFromPrefix ascii_lib (L ''SFTP'') UNKNOWN = SFTP \<and>
   GetProtocolFromPrefix ascii_lib (GetPrefixFromProtocol INSECURE_FTP) UNKNOWN = FTP \<and>
   GetProtocolFromPrefix ascii_lib (GetPrefixFromProtocol INSECURE_FTP) INSECURE_FTP = INSECURE_FTP"
proof -
  have "map_of url_prefixes (str_tolower_ascii ascii_lib (L ''SFTP'')) = Some SFTP" by code_simp
  then show ?thesis using prefix_roundtrip [of ascii_lib INSECURE_FTP "L ''SFTP''"] by simp
qed

text \<open>
  C22: \<^verbatim>\<open>CServer::operator<\<close> is a strict weak order, so servers can be keys of a map, and its
  equivalence is \<^verbatim>\<open>operator==\<close> without the post-login commands.
\<close>

theorem server_order:
  "strict_weak server_less \<and>
   (\<not> server_less a b \<and> \<not> server_less b a \<longleftrightarrow>
    server_eq (a\<lparr>srv_postLoginCommands := []\<rparr>) (b\<lparr>srv_postLoginCommands := []\<rparr>))"
  using servers.strict_weak_axioms eqv_server_less [of a b] by (auto simp: server_eq_def eqv_def)

text \<open>
  C23: every server built with the constructors and setters keeps the invariant: extra
  parameters are sorted, supported by the protocol and not empty, post-login commands exist only
  for protocols that have them, the timezone offset is within a day, and a custom encoding has a
  name.
\<close>

theorem server_invariant:
  "server_built lib s \<Longrightarrow> wf_server lib s"
  by (rule server_built_wf)

theorem server_invariant_witness:
  "wf_server ascii_lib (snd (SetPostLoginCommands [L ''SITE X''] (SetProtocol ascii_lib FTP empty_server)))"
  by (rule server_invariant) (intro server_built.intros)

end
