(* ===== verification/Server_Path.thy ===== *)
theory Server_Path
  imports Server_Props "HOL-Library.Monad_Syntax"
begin

text \<open>
  \<^verbatim>\<open>CServerPath\<close> (\<^verbatim>\<open>src/include/serverpath.h\<close>, \<^verbatim>\<open>src/engine/serverpath.cpp\<close>): paths on a
  server, in the syntax of each of the eleven server types. A path is empty, or an optional
  prefix and a list of segments. Parsing (\<^verbatim>\<open>SetPath\<close>, \<^verbatim>\<open>ChangePath\<close>) fails with \<^term>\<open>None\<close>
  inside \<open>DoChangePath\<close>, as the code returns \<^verbatim>\<open>false\<close>; printing is \<^verbatim>\<open>GetPath\<close> and, for
  storage, \<^verbatim>\<open>GetSafePath\<close>.
\<close>

subsection \<open>Traits of the server types\<close>

record type_traits =
  separators :: wstring
  has_root :: bool
  left_enclosure :: wchar
  right_enclosure :: wchar
  filename_inside_enclosure :: bool
  prefixmode :: nat
  separatorEscape :: wchar
  has_dots :: bool
  separator_after_prefix :: bool

definition mk_traits ::
  "wstring \<Rightarrow> bool \<Rightarrow> wchar \<Rightarrow> wchar \<Rightarrow> bool \<Rightarrow> nat \<Rightarrow> wchar \<Rightarrow> bool \<Rightarrow> bool \<Rightarrow> type_traits" where
  "mk_traits seps root le re inside mode esc dots after =
     \<lparr>separators = seps, has_root = root, left_enclosure = le, right_enclosure = re,
      filename_inside_enclosure = inside, prefixmode = mode, separatorEscape = esc,
      has_dots = dots, separator_after_prefix = after\<rparr>"

lemma mk_traits_sel [simp]:
  "separators (mk_traits seps root le re inside mode esc dots after) = seps"
  "has_root (mk_traits seps root le re inside mode esc dots after) = root"
  "left_enclosure (mk_traits seps root le re inside mode esc dots after) = le"
  "right_enclosure (mk_traits seps root le re inside mode esc dots after) = re"
  "filename_inside_enclosure (mk_traits seps root le re inside mode esc dots after) = inside"
  "prefixmode (mk_traits seps root le re inside mode esc dots after) = mode"
  "separatorEscape (mk_traits seps root le re inside mode esc dots after) = esc"
  "has_dots (mk_traits seps root le re inside mode esc dots after) = dots"
  "separator_after_prefix (mk_traits seps root le re inside mode esc dots after) = after"
  by (simp_all add: mk_traits_def)

text \<open>Characters: \<^verbatim>\<open>/\<close> 47, \<^verbatim>\<open>.\<close> 46, \<^verbatim>\<open>:\<close> 58, backslash 92, \<^verbatim>\<open>[\<close> 91, \<^verbatim>\<open>]\<close> 93, \<^verbatim>\<open>^\<close> 94, \<^verbatim>\<open>'\<close> 39,
  \<^verbatim>\<open>(\<close> 40, \<^verbatim>\<open>)\<close> 41, and \<^verbatim>\<open>FTP_MVS_DOUBLE_QUOTE\<close> 220.\<close>

fun traits :: "server_type \<Rightarrow> type_traits" where
  "traits DEFAULT = mk_traits [47] True 0 0 False 0 0 True False"
| "traits UNIX = mk_traits [47] True 0 0 False 0 0 True False"
| "traits VMS = mk_traits [46] False 91 93 False 0 94 False False"
| "traits DOS = mk_traits [92, 47] False 0 0 False 0 0 True False"
| "traits MVS = mk_traits [46] False 39 39 True 1 0 False False"
| "traits VXWORKS = mk_traits [47] True 0 0 False 0 0 True False"
| "traits ZVM = mk_traits [47] True 0 0 False 0 0 True False"
| "traits HPNONSTOP = mk_traits [46] False 0 0 False 0 0 False False"
| "traits DOS_VIRTUAL = mk_traits [92] True 0 0 False 0 0 True False"
| "traits CYGWIN = mk_traits [47] True 0 0 False 0 0 True True"
| "traits DOS_FWD_SLASHES = mk_traits [47, 92] False 0 0 False 0 0 True False"

definition sep0 :: "server_type \<Rightarrow> wchar" where
  "sep0 t = hd (separators (traits t))"

definition IsSeparator :: "server_type \<Rightarrow> wchar \<Rightarrow> bool" where
  "IsSeparator t c \<longleftrightarrow> c \<in> set (separators (traits t))"

lemma sep0_simps [simp]:
  "sep0 DEFAULT = 47" "sep0 UNIX = 47" "sep0 VMS = 46" "sep0 DOS = 92" "sep0 MVS = 46"
  "sep0 VXWORKS = 47" "sep0 ZVM = 47" "sep0 HPNONSTOP = 46" "sep0 DOS_VIRTUAL = 92"
  "sep0 CYGWIN = 47" "sep0 DOS_FWD_SLASHES = 47"
  by (simp_all add: sep0_def)

lemma IsSeparator_simps [simp]:
  "IsSeparator DEFAULT c \<longleftrightarrow> c = 47" "IsSeparator UNIX c \<longleftrightarrow> c = 47"
  "IsSeparator VMS c \<longleftrightarrow> c = 46" "IsSeparator DOS c \<longleftrightarrow> c = 92 \<or> c = 47"
  "IsSeparator MVS c \<longleftrightarrow> c = 46" "IsSeparator VXWORKS c \<longleftrightarrow> c = 47"
  "IsSeparator ZVM c \<longleftrightarrow> c = 47" "IsSeparator HPNONSTOP c \<longleftrightarrow> c = 46"
  "IsSeparator DOS_VIRTUAL c \<longleftrightarrow> c = 92" "IsSeparator CYGWIN c \<longleftrightarrow> c = 47"
  "IsSeparator DOS_FWD_SLASHES c \<longleftrightarrow> c = 47 \<or> c = 92"
  by (simp_all add: IsSeparator_def)

definition MVS_QUOTE :: wchar where
  "MVS_QUOTE = 220"

subsection \<open>The data\<close>

record path_data =
  m_segments :: "wstring list"
  m_prefix :: "wstring option"

record server_path =
  m_data :: "path_data option"
  m_type :: server_type

definition empty_data :: path_data where
  "empty_data = \<lparr>m_segments = [], m_prefix = None\<rparr>"

definition empty_path :: server_path where
  "empty_path = \<lparr>m_data = None, m_type = DEFAULT\<rparr>"

definition path_empty :: "server_path \<Rightarrow> bool" where
  "path_empty p \<longleftrightarrow> m_data p = None"

definition clear_path :: "server_path \<Rightarrow> server_path" where
  "clear_path p = p\<lparr>m_data := None\<rparr>"

text \<open>\<^verbatim>\<open>m_data.get()\<close> creates the data of an empty path.\<close>

definition get_data :: "server_path \<Rightarrow> path_data" where
  "get_data p = (case m_data p of Some d \<Rightarrow> d | None \<Rightarrow> empty_data)"

subsection \<open>Splitting a string into segments\<close>

definition SegmentizeAddSegment ::
  "server_type \<Rightarrow> wstring \<Rightarrow> wstring list \<Rightarrow> bool \<Rightarrow> wstring list \<times> bool" where
  "SegmentizeAddSegment t segment segments app =
     (if has_dots (traits t) \<and> segment = [46] then (segments, app)
      else if has_dots (traits t) \<and> segment = [46, 46] then (butlast segments, app)
      else let append_next = (segment \<noteq> [] \<and> separatorEscape (traits t) \<noteq> 0 \<and>
                              last segment = separatorEscape (traits t));
               segment1 = (if append_next then butlast segment @ [sep0 t] else segment)
           in (if app then butlast segments @ [last segments @ segment1]
               else segments @ [segment1], append_next))"

function segmentize_loop ::
  "server_type \<Rightarrow> wstring \<Rightarrow> wstring list \<Rightarrow> bool \<Rightarrow> wstring list \<times> bool" where
  "segmentize_loop t str segments app =
     (case find_idx (IsSeparator t) str of
        None \<Rightarrow> if str \<noteq> [] then SegmentizeAddSegment t str segments app else (segments, app)
      | Some pos \<Rightarrow>
          if pos = 0 then segmentize_loop t (drop 1 str) segments app
          else let r = SegmentizeAddSegment t (take pos str) segments app
               in segmentize_loop t (drop (Suc pos) str) (fst r) (snd r))"
  by pat_completeness auto
termination
  by (relation "measure (\<lambda>(t, str, segments, app). length str)")
    (auto dest: find_idx_SomeD)

declare segmentize_loop.simps [simp del]

definition Segmentize :: "server_type \<Rightarrow> wstring \<Rightarrow> wstring list \<Rightarrow> wstring list option" where
  "Segmentize t str segments =
     (let r = segmentize_loop t str segments False in if snd r then None else Some (fst r))"

text \<open>The directory part, up to the last separator, and the file name after it.\<close>

definition ExtractFile :: "server_type \<Rightarrow> wstring \<Rightarrow> (wstring \<times> wstring) option" where
  "ExtractFile t dir =
     (case rfind_idx (IsSeparator t) dir of
        None \<Rightarrow> Some ([], dir)
      | Some pos \<Rightarrow> if Suc pos = length dir then None
                    else Some (take (Suc pos) dir, drop (Suc pos) dir))"

definition extract_if :: "server_type \<Rightarrow> bool \<Rightarrow> wstring \<Rightarrow> (wstring \<times> wstring) option" where
  "extract_if t isFile dir = (if isFile then ExtractFile t dir else Some (dir, []))"

subsection \<open>Changing the path\<close>

text \<open>
  The cases of the \<^verbatim>\<open>switch\<close> in \<^verbatim>\<open>DoChangePath\<close>. Each takes the path data, whether the path
  was empty, the string and whether it names a file, and gives the new data and the file name.
\<close>

definition segments_into ::
  "server_type \<Rightarrow> wstring \<Rightarrow> path_data \<Rightarrow> path_data option" where
  "segments_into t dir d =
     map_option (\<lambda>segs. d\<lparr>m_segments := segs\<rparr>) (Segmentize t dir (m_segments d))"

definition segments_nonempty ::
  "server_type \<Rightarrow> bool \<Rightarrow> wstring \<Rightarrow> path_data \<Rightarrow> path_data option" where
  "segments_nonempty t was_empty dir d =
     (case segments_into t dir d of
        None \<Rightarrow> None
      | Some d1 \<Rightarrow> if m_segments d1 = [] \<and> was_empty then None else Some d1)"

definition change_VMS :: "path_data \<Rightarrow> bool \<Rightarrow> wstring \<Rightarrow> bool \<Rightarrow> (path_data \<times> wstring) option" where
  "change_VMS d was_empty dir isFile =
     (case find_idx (\<lambda>c. c = 91) dir of
        None \<Rightarrow>
          if rfind_idx (\<lambda>c. c = 93) dir \<noteq> None then None
          else if isFile then (if was_empty then None else Some (d, dir))
          else map_option (\<lambda>d1. (d1, [])) (segments_nonempty VMS was_empty dir d)
      | Some pos1 \<Rightarrow>
          (case rfind_idx (\<lambda>c. c = 93) dir of
             None \<Rightarrow> None
           | Some pos2 \<Rightarrow>
               if pos2 \<le> pos1 + 1 then None
               else if isFile = (Suc pos2 = length dir) then None
               else let file = (if isFile then drop (Suc pos2) dir else []);
                        dir1 = take pos2 dir;
                        d1 = (if pos1 \<noteq> 0 then d\<lparr>m_prefix := Some (take pos1 dir1)\<rparr> else d)
                    in map_option (\<lambda>d2. (d2, file))
                         (segments_nonempty VMS was_empty (drop (Suc pos1) dir1) (d1\<lparr>m_segments := []\<rparr>))))"

definition change_DOS ::
  "server_type \<Rightarrow> path_data \<Rightarrow> bool \<Rightarrow> wstring \<Rightarrow> bool \<Rightarrow> (path_data \<times> wstring) option" where
  "change_DOS t d was_empty dir isFile =
     (let sep = (case find_idx (IsSeparator t) dir of None \<Rightarrow> length dir | Some i \<Rightarrow> i);
          is_absolute = (case find_idx (\<lambda>c. c = 58) dir of
             None \<Rightarrow> False | Some colon \<Rightarrow> colon > 0 \<and> Suc colon = sep)
      in do {
        (d1, dir1) \<leftarrow>
          (if is_absolute then Some (d\<lparr>m_segments := []\<rparr>, dir)
           else if IsSeparator t (at dir 0) then
             (if m_segments d = [] then None
              else Some (d\<lparr>m_segments := [hd (m_segments d)]\<rparr>, drop 1 dir))
           else Some (d, dir));
        (dir2, file) \<leftarrow> extract_if t isFile dir1;
        d2 \<leftarrow> segments_nonempty t was_empty dir2 d1;
        Some (d2, file)
      })"

definition strip_quotes :: "wstring \<Rightarrow> wstring" where
  "strip_quotes dir =
     rev (dropWhile (\<lambda>c. c = MVS_QUOTE) (rev (dropWhile (\<lambda>c. c = MVS_QUOTE) dir)))"

text \<open>MVS: a name in quotes replaces the segments, one without is relative.\<close>

definition mvs_unquote :: "path_data \<Rightarrow> bool \<Rightarrow> wstring \<Rightarrow> (path_data \<times> wstring) option" where
  "mvs_unquote d was_empty dir =
     (if dir = [] then None
      else if at dir 0 = 39 then
        (if last dir \<noteq> 39 then None
         else Some (d\<lparr>m_segments := []\<rparr>, substr dir 1 (length dir - 2)))
      else if last dir = 39 then None
      else if was_empty then None
      else Some (d, dir))"

text \<open>MVS: a member of a partitioned dataset, and a dataset or a level of the hierarchy.\<close>

definition mvs_member :: "path_data \<Rightarrow> bool \<Rightarrow> wstring \<Rightarrow> bool \<Rightarrow> (path_data \<times> wstring \<times> wstring) option" where
  "mvs_member d was_empty dir isFile =
     (if \<not> isFile then None
      else case find_idx (\<lambda>c. c = 40) dir of
        None \<Rightarrow> None
      | Some pos \<Rightarrow>
          let dir1 = butlast dir; file = drop (Suc pos) dir1; dir2 = take pos dir1
          in if \<not> was_empty \<and> m_prefix d = None \<and> dir2 \<noteq> [] then None
             else Some (d\<lparr>m_prefix := None\<rparr>, dir2, file))"

definition mvs_plain :: "path_data \<Rightarrow> bool \<Rightarrow> wstring \<Rightarrow> bool \<Rightarrow> (path_data \<times> wstring \<times> wstring) option" where
  "mvs_plain d was_empty dir isFile =
     (if \<not> was_empty \<and> m_prefix d = None \<and> (find_idx (\<lambda>c. c = 46) dir \<noteq> None \<or> \<not> isFile) then None
      else if isFile then
        map_option (\<lambda>(dir1, file). (d\<lparr>m_prefix := Some [46]\<rparr>, dir1, file)) (ExtractFile MVS dir)
      else if dir \<noteq> [] \<and> last dir = 46 then Some (d\<lparr>m_prefix := Some [46]\<rparr>, dir, [])
      else Some (d\<lparr>m_prefix := None\<rparr>, dir, []))"

definition change_MVS :: "path_data \<Rightarrow> bool \<Rightarrow> wstring \<Rightarrow> bool \<Rightarrow> (path_data \<times> wstring) option" where
  "change_MVS d was_empty dir isFile =
     do {
       (d1, dir1) \<leftarrow> mvs_unquote d was_empty (strip_quotes dir);
       (d2, dir2, file) \<leftarrow>
         (if dir1 \<noteq> [] \<and> last dir1 = 41 then mvs_member d1 was_empty dir1 isFile
          else mvs_plain d1 was_empty dir1 isFile);
       d3 \<leftarrow> segments_into MVS dir2 d2;
       Some (d3, file)
     }"

definition change_HPNONSTOP :: "path_data \<Rightarrow> bool \<Rightarrow> wstring \<Rightarrow> bool \<Rightarrow> (path_data \<times> wstring) option" where
  "change_HPNONSTOP d was_empty dir isFile =
     do {
       let d1 = (if at dir 0 = 92 then d\<lparr>m_segments := []\<rparr> else d);
       (dir1, file) \<leftarrow> extract_if HPNONSTOP isFile dir;
       d2 \<leftarrow> segments_nonempty HPNONSTOP was_empty dir1 d1;
       Some (d2, file)
     }"

definition change_VXWORKS :: "path_data \<Rightarrow> bool \<Rightarrow> wstring \<Rightarrow> bool \<Rightarrow> (path_data \<times> wstring) option" where
  "change_VXWORKS d was_empty dir isFile =
     do {
       (d1, dir1) \<leftarrow>
         (if at dir 0 \<noteq> 58 then (if was_empty then None else Some (d, dir))
          else case find_from (\<lambda>c. c = 58) 1 dir of
            None \<Rightarrow> None
          | Some colon2 \<Rightarrow>
              if colon2 = 1 then None
              else Some (\<lparr>m_segments = [], m_prefix = Some (take (Suc colon2) dir)\<rparr>, drop (Suc colon2) dir));
       (dir2, file) \<leftarrow> extract_if VXWORKS isFile dir1;
       d2 \<leftarrow> segments_into VXWORKS dir2 d1;
       Some (d2, file)
     }"

definition change_CYGWIN :: "path_data \<Rightarrow> bool \<Rightarrow> wstring \<Rightarrow> bool \<Rightarrow> (path_data \<times> wstring) option" where
  "change_CYGWIN d was_empty dir isFile =
     do {
       d1 \<leftarrow> (if IsSeparator CYGWIN (at dir 0) then Some empty_data
              else if was_empty then None else Some d);
       let (d2, dir1) = (if at dir 0 = 47 \<and> at dir 1 = 47
                         then (d1\<lparr>m_prefix := Some [sep0 CYGWIN]\<rparr>, drop 1 dir) else (d1, dir));
       (dir2, file) \<leftarrow> extract_if CYGWIN isFile dir1;
       d3 \<leftarrow> segments_into CYGWIN dir2 d2;
       Some (d3, file)
     }"

definition change_default ::
  "server_type \<Rightarrow> path_data \<Rightarrow> bool \<Rightarrow> wstring \<Rightarrow> bool \<Rightarrow> (path_data \<times> wstring) option" where
  "change_default t d was_empty dir isFile =
     do {
       d1 \<leftarrow> (if IsSeparator t (at dir 0) then Some (d\<lparr>m_segments := []\<rparr>)
              else if was_empty then None else Some d);
       (dir1, file) \<leftarrow> extract_if t isFile dir;
       d2 \<leftarrow> segments_into t dir1 d1;
       Some (d2, file)
     }"

definition change_by_type ::
  "server_type \<Rightarrow> path_data \<Rightarrow> bool \<Rightarrow> wstring \<Rightarrow> bool \<Rightarrow> (path_data \<times> wstring) option" where
  "change_by_type t =
     (case t of
        VMS \<Rightarrow> change_VMS
      | DOS \<Rightarrow> change_DOS t
      | DOS_FWD_SLASHES \<Rightarrow> change_DOS t
      | MVS \<Rightarrow> change_MVS
      | HPNONSTOP \<Rightarrow> change_HPNONSTOP
      | VXWORKS \<Rightarrow> change_VXWORKS
      | CYGWIN \<Rightarrow> change_CYGWIN
      | _ \<Rightarrow> change_default t)"

text \<open>The new path and the new value of \<^verbatim>\<open>subdir\<close>, which is the file name if a file was given.\<close>

definition DoChangePath :: "server_path \<Rightarrow> wstring \<Rightarrow> bool \<Rightarrow> (server_path \<times> wstring) option" where
  "DoChangePath p subdir isFile =
     (if subdir = [] then (if path_empty p \<or> isFile then None else Some (p, subdir))
      else case change_by_type (m_type p) (get_data p) (path_empty p) subdir isFile of
        None \<Rightarrow> None
      | Some (d, file) \<Rightarrow>
          if \<not> has_root (traits (m_type p)) \<and> m_segments d = [] then None
          else if isFile \<and> has_dots (traits (m_type p)) \<and> (file = [46, 46] \<or> file = [46]) then None
          else Some (p\<lparr>m_data := Some d\<rparr>, if isFile then file else subdir))"

definition ChangePath :: "server_path \<Rightarrow> wstring \<Rightarrow> bool \<Rightarrow> bool \<times> server_path \<times> wstring" where
  "ChangePath p subdir isFile =
     (case DoChangePath p subdir isFile of
        None \<Rightarrow> (False, clear_path p, subdir)
      | Some (p1, subdir1) \<Rightarrow> (True, p1, subdir1))"

text \<open>\<^verbatim>\<open>ChangePath(std::wstring const&)\<close>.\<close>

definition change_dir :: "server_path \<Rightarrow> wstring \<Rightarrow> bool \<times> server_path" where
  "change_dir p subdir = (case ChangePath p subdir False of (ok, p1, _) \<Rightarrow> (ok, p1))"

subsection \<open>Setting the path\<close>

definition is_letter :: "wchar \<Rightarrow> bool" where
  "is_letter c \<longleftrightarrow> (65 \<le> c \<and> c \<le> 90) \<or> (97 \<le> c \<and> c \<le> 122)"

text \<open>
  The server type of a string, where it is not known. In the branch for VxWorks the source
  reads \<^verbatim>\<open>(pos1 = path.find(':'), 2) != npos\<close>: the comma operator makes the condition
  \<^verbatim>\<open>2 != npos\<close>, and \<^verbatim>\<open>pos1\<close> is the first colon.
\<close>

definition detect_type :: "wstring \<Rightarrow> bool \<Rightarrow> server_type" where
  "detect_type path isFile =
     (case find_sub [58, 91] path of
        Some pos1 \<Rightarrow>
          (case rfind_idx (\<lambda>c. c = 93) path of
             Some pos2 \<Rightarrow>
               if Suc pos2 = length path \<and> \<not> isFile then VMS
               else if isFile \<and> pos2 > pos1 then VMS else UNIX
           | None \<Rightarrow> if isFile then VMS else UNIX)
      | None \<Rightarrow>
          if length path \<ge> 3 \<and> is_letter (at path 0) \<and> at path 1 = 58 \<and>
             (at path 2 = 92 \<or> at path 2 = 47) then DOS
          else if at path 0 = MVS_QUOTE \<and> last path = MVS_QUOTE then MVS
          else if at path 0 = 58 then
            (case find_idx (\<lambda>c. c = 47) path of
               None \<Rightarrow> VXWORKS
             | Some slash \<Rightarrow>
                 (case find_idx (\<lambda>c. c = 58) path of
                    Some pos1 \<Rightarrow> if slash > pos1 then VXWORKS else UNIX
                  | None \<Rightarrow> UNIX))
          else if at path 0 = 92 then DOS_VIRTUAL
          else UNIX)"

definition SetPath :: "server_path \<Rightarrow> wstring \<Rightarrow> bool \<Rightarrow> bool \<times> server_path \<times> wstring" where
  "SetPath p newPath isFile =
     (if newPath = [] then (False, p, newPath)
      else let t = (if m_type p = DEFAULT then detect_type newPath isFile else m_type p)
           in case ChangePath \<lparr>m_data = None, m_type = t\<rparr> newPath isFile of
                (ok, p1, path1) \<Rightarrow> (ok, p1, if ok \<and> isFile then path1 else newPath))"

text \<open>\<^verbatim>\<open>CServerPath(std::wstring const& path, ServerType type)\<close>.\<close>

definition path_of :: "wstring \<Rightarrow> server_type \<Rightarrow> server_path" where
  "path_of path t = (case SetPath \<lparr>m_data = None, m_type = t\<rparr> path False of (_, p, _) \<Rightarrow> p)"

text \<open>\<^verbatim>\<open>CServerPath(CServerPath const& path, std::wstring subdir)\<close>.\<close>

definition path_sub :: "server_path \<Rightarrow> wstring \<Rightarrow> server_path" where
  "path_sub p subdir =
     (if subdir = [] then p
      else case change_dir p subdir of (ok, p1) \<Rightarrow> if ok then p1 else clear_path p1)"

definition GetChanged :: "server_path \<Rightarrow> server_path \<Rightarrow> wstring \<Rightarrow> server_path" where
  "GetChanged oldPath newPath newSubdir =
     (case change_dir (if path_empty newPath then oldPath else newPath) newSubdir of
        (ok, p) \<Rightarrow> if ok then p else clear_path p)"

subsection \<open>Printing\<close>

definition EscapeSeparators :: "'a fzlib_scheme \<Rightarrow> server_type \<Rightarrow> wstring \<Rightarrow> wstring" where
  "EscapeSeparators lib t subdir =
     (if separatorEscape (traits t) \<noteq> 0
      then fold (\<lambda>c s. replace_substrings lib s [c] [separatorEscape (traits t), sep0 t])
             (separators (traits t)) subdir
      else subdir)"

definition enclosure :: "wchar \<Rightarrow> wstring" where
  "enclosure c = (if c \<noteq> 0 then [c] else [])"

text \<open>The separators and segments of the printed path.\<close>

definition print_segments :: "'a fzlib_scheme \<Rightarrow> server_type \<Rightarrow> bool \<Rightarrow> wstring list \<Rightarrow> wstring" where
  "print_segments lib t no_prefix segments =
     (case segments of
        [] \<Rightarrow> if \<not> has_root (traits t) \<or> no_prefix \<or> separator_after_prefix (traits t) then [sep0 t] else []
      | s # ss \<Rightarrow>
          (if has_root (traits t) \<and> (no_prefix \<or> separator_after_prefix (traits t)) then [sep0 t] else []) @
          EscapeSeparators lib t s @
          concat (map (\<lambda>x. sep0 t # EscapeSeparators lib t x) ss))"

definition prefix_str :: "path_data \<Rightarrow> wstring" where
  "prefix_str d = (case m_prefix d of Some s \<Rightarrow> s | None \<Rightarrow> [])"

definition GetPath :: "'a fzlib_scheme \<Rightarrow> server_path \<Rightarrow> wstring" where
  "GetPath lib p =
     (case m_data p of
        None \<Rightarrow> []
      | Some d \<Rightarrow>
          (let t = m_type p in
           (if prefixmode (traits t) = 0 then prefix_str d else []) @
           enclosure (left_enclosure (traits t)) @
           print_segments lib t (m_prefix d = None) (m_segments d) @
           (if prefixmode (traits t) \<noteq> 0 then prefix_str d else []) @
           enclosure (right_enclosure (traits t)) @
           (if (t = DOS \<or> t = DOS_FWD_SLASHES) \<and> length (m_segments d) = 1 then [sep0 t] else [])))"

definition FormatSubdir :: "'a fzlib_scheme \<Rightarrow> server_path \<Rightarrow> wstring \<Rightarrow> wstring" where
  "FormatSubdir lib p subdir =
     (if separatorEscape (traits (m_type p)) = 0 then subdir else EscapeSeparators lib (m_type p) subdir)"

definition FormatFilename :: "'a fzlib_scheme \<Rightarrow> server_path \<Rightarrow> wstring \<Rightarrow> bool \<Rightarrow> wstring" where
  "FormatFilename lib p filename omitPath =
     (case m_data p of
        None \<Rightarrow> filename
      | Some d \<Rightarrow>
          (let t = m_type p; inside = (left_enclosure (traits t) \<noteq> 0 \<and> filename_inside_enclosure (traits t))
           in if filename = [] then filename
              else if omitPath \<and> (prefixmode (traits t) = 0 \<or> m_prefix d = Some [46]) then filename
              else let r0 = GetPath lib p;
                       r1 = (if inside then butlast r0 else r0);
                       r2 = (if t = VXWORKS then
                               (if r1 \<noteq> [] \<and> \<not> IsSeparator t (last r1) \<and> m_segments d \<noteq> [] then r1 @ [sep0 t] else r1)
                             else if t = VMS \<or> t = MVS then r1
                             else if r1 \<noteq> [] \<and> \<not> IsSeparator t (last r1) then r1 @ [sep0 t] else r1);
                       r3 = (if prefixmode (traits t) = 1 \<and> m_prefix d = None
                             then r2 @ [40] @ filename @ [41] else r2 @ filename)
                   in if inside then r3 @ [right_enclosure (traits t)] else r3))"

subsection \<open>Storage format\<close>

text \<open>\<^verbatim>\<open>fast_sprint_number\<close>: the digits are produced from the last one and then reversed.\<close>

fun rev_digits :: "nat \<Rightarrow> wstring" where
  "rev_digits n = (n mod 10 + 48) # (if n div 10 > 0 then rev_digits (n div 10) else [])"

declare rev_digits.simps [simp del]

definition fast_sprint_number :: "nat \<Rightarrow> wstring" where
  "fast_sprint_number n = rev (rev_digits n)"

text \<open>
  \<^verbatim>\<open>wcscpy\<close> into a zeroed buffer, of which then \<^verbatim>\<open>size()\<close> characters are used: what follows
  an embedded zero stays zero.
\<close>

definition wcs_copied :: "wstring \<Rightarrow> wstring" where
  "wcs_copied s = cstr s @ replicate (length s - length (cstr s)) 0"

definition safe_segment :: "wstring \<Rightarrow> wstring" where
  "safe_segment s = 32 # fast_sprint_number (length s) @ 32 # wcs_copied s"

definition GetSafePath :: "server_path \<Rightarrow> wstring" where
  "GetSafePath p =
     (case m_data p of
        None \<Rightarrow> []
      | Some d \<Rightarrow>
          fast_sprint_number (type_num (m_type p)) @ [32] @
          fast_sprint_number (length (prefix_str d)) @
          (case m_prefix d of Some s \<Rightarrow> 32 # wcs_copied s | None \<Rightarrow> []) @
          concat (map safe_segment (m_segments d)))"

text \<open>The size of the buffer that \<^verbatim>\<open>GetSafePath\<close> allocates.\<close>

definition safe_path_buffer :: "path_data \<Rightarrow> nat" where
  "safe_path_buffer d = 5 + 20 + length (prefix_str d) + sum_list (map (\<lambda>s. length s + 2 + 20) (m_segments d))"

text \<open>
  The loops of \<^verbatim>\<open>DoSetSafePath\<close> that read a number: at least one digit, the value at most
  \<open>lim\<close>, up to a space (or, where \<open>stop0\<close>, up to a zero). The rest starts at that character.
\<close>

fun scan_num :: "nat \<Rightarrow> bool \<Rightarrow> nat \<Rightarrow> wstring \<Rightarrow> (nat \<times> wstring) option" where
  "scan_num lim stop0 acc [] = None"
| "scan_num lim stop0 acc (c # cs) =
     (if c < 48 \<or> c > 57 then None
      else let n = acc * 10 + (c - 48)
           in if n > lim then None
              else if at cs 0 = 32 \<or> (stop0 \<and> at cs 0 = 0) then Some (n, cs)
              else scan_num lim stop0 n cs)"

lemma scan_num_length: "scan_num lim stop0 acc cs = Some (n, rest) \<Longrightarrow> length rest < length cs"
  by (induction lim stop0 acc cs rule: scan_num.induct) (auto simp: Let_def split: if_splits)

function scan_segments :: "wstring \<Rightarrow> wstring list \<Rightarrow> wstring list option" where
  "scan_segments rest segs =
     (if rest = [] then Some segs
      else case scan_num 32767 False 0 rest of
        None \<Rightarrow> None
      | Some (n, cs) \<Rightarrow>
          if n = 0 then None
          else if n > length (drop 1 cs) then None
          else scan_segments (drop (Suc n) (drop 1 cs)) (segs @ [take n (drop 1 cs)]))"
  by pat_completeness auto
termination
  by (relation "measure (\<lambda>(rest, segs). length rest)") (auto dest: scan_num_length)

declare scan_segments.simps [simp del]

definition DoSetSafePath :: "server_path \<Rightarrow> wstring \<Rightarrow> bool \<times> server_path" where
  "DoSetSafePath p path =
     (case scan_num 10 False 0 path of
        None \<Rightarrow> (False, p\<lparr>m_data := Some empty_data\<rparr>)
      | Some (type, cs) \<Rightarrow>
          (let p1 = p\<lparr>m_data := Some empty_data, m_type := type_of_num type\<rparr>
           in case scan_num 32767 True 0 (drop 1 cs) of
                None \<Rightarrow> (False, p1)
              | Some (prefix_len, cs2) \<Rightarrow>
                  if at cs2 0 = 0 then (if prefix_len \<noteq> 0 then (False, p1) else (True, p1))
                  else let r = drop 1 cs2
                       in if prefix_len > length r then (False, p1)
                          else let (pre, r2) = (if prefix_len \<noteq> 0 then (Some (take prefix_len r), drop (Suc prefix_len) r)
                                                else (None, r))
                               in case scan_segments r2 [] of
                                    None \<Rightarrow> (False, p1)
                                  | Some segs \<Rightarrow> (True, p1\<lparr>m_data := Some \<lparr>m_segments = segs, m_prefix = pre\<rparr>\<rparr>)))"

definition SetSafePath :: "server_path \<Rightarrow> wstring \<Rightarrow> bool \<times> server_path" where
  "SetSafePath p path =
     (case DoSetSafePath p path of (ok, p1) \<Rightarrow> (ok, if ok then p1 else clear_path p1))"

subsection \<open>Parents and segments\<close>

definition HasParent :: "server_path \<Rightarrow> bool" where
  "HasParent p =
     (case m_data p of
        None \<Rightarrow> False
      | Some d \<Rightarrow> if \<not> has_root (traits (m_type p)) then length (m_segments d) > 1 else m_segments d \<noteq> [])"

definition MakeParent :: "server_path \<Rightarrow> server_path" where
  "MakeParent p =
     (case m_data p of
        None \<Rightarrow> clear_path p
      | Some d \<Rightarrow>
          if \<not> HasParent p then clear_path p
          else p\<lparr>m_data := Some (d\<lparr>m_segments := butlast (m_segments d),
                 m_prefix := (if m_type p = MVS then Some [46] else m_prefix d)\<rparr>)\<rparr>)"

definition GetParent :: "server_path \<Rightarrow> server_path" where
  "GetParent p = MakeParent p"

definition segments_of :: "server_path \<Rightarrow> wstring list" where
  "segments_of p = (case m_data p of None \<Rightarrow> [] | Some d \<Rightarrow> m_segments d)"

definition GetFirstSegment :: "server_path \<Rightarrow> wstring" where
  "GetFirstSegment p = (if path_empty p \<or> \<not> HasParent p \<or> segments_of p = [] then [] else hd (segments_of p))"

definition GetLastSegment :: "server_path \<Rightarrow> wstring" where
  "GetLastSegment p = (if path_empty p \<or> \<not> HasParent p \<or> segments_of p = [] then [] else last (segments_of p))"

definition SegmentCount :: "server_path \<Rightarrow> nat" where
  "SegmentCount p = length (segments_of p)"

definition AddSegment :: "server_path \<Rightarrow> wstring \<Rightarrow> bool \<times> server_path" where
  "AddSegment p segment =
     (case m_data p of
        None \<Rightarrow> (False, p)
      | Some d \<Rightarrow> (True, p\<lparr>m_data := Some (d\<lparr>m_segments := m_segments d @ [segment]\<rparr>)\<rparr>))"

definition SetType :: "server_path \<Rightarrow> server_type \<Rightarrow> bool \<times> server_path" where
  "SetType p t =
     (if \<not> path_empty p \<and> m_type p \<noteq> DEFAULT \<and> m_type p \<noteq> t then (False, p)
      else (True, p\<lparr>m_type := t\<rparr>))"

subsection \<open>Comparing paths\<close>

fun subdir_loop :: "'a fzlib_scheme \<Rightarrow> bool \<Rightarrow> bool \<Rightarrow> wstring list \<Rightarrow> wstring list \<Rightarrow> bool" where
  "subdir_loop lib cmpNoCase allowEqual [] ys = (allowEqual \<and> ys = [])"
| "subdir_loop lib cmpNoCase allowEqual (x # xs) [] = True"
| "subdir_loop lib cmpNoCase allowEqual (x # xs) (y # ys) =
     (if cmpNoCase then (if stricmp lib x y \<noteq> 0 then False else subdir_loop lib cmpNoCase allowEqual xs ys)
      else if x \<noteq> y then False else subdir_loop lib cmpNoCase allowEqual xs ys)"

fun prefix_matches :: "'a fzlib_scheme \<Rightarrow> bool \<Rightarrow> wstring option \<Rightarrow> wstring option \<Rightarrow> bool" where
  "prefix_matches lib True (Some a) (Some b) = (stricmp lib a b = 0)"
| "prefix_matches lib _ a b = (a = b)"

definition IsSubdirOf :: "'a fzlib_scheme \<Rightarrow> server_path \<Rightarrow> server_path \<Rightarrow> bool \<Rightarrow> bool \<Rightarrow> bool" where
  "IsSubdirOf lib p path cmpNoCase allowEqual =
     (case (m_data p, m_data path) of
        (Some ld, Some rd) \<Rightarrow>
          m_type p = m_type path \<and> HasParent p \<and>
          (prefixmode (traits (m_type p)) \<noteq> 1 \<longrightarrow> prefix_matches lib cmpNoCase (m_prefix ld) (m_prefix rd)) \<and>
          \<not> (prefixmode (traits (m_type p)) = 1 \<and> m_prefix rd = None) \<and>
          subdir_loop lib cmpNoCase allowEqual (m_segments ld) (m_segments rd)
      | _ \<Rightarrow> False)"

definition IsParentOf :: "'a fzlib_scheme \<Rightarrow> server_path \<Rightarrow> server_path \<Rightarrow> bool \<Rightarrow> bool \<Rightarrow> bool" where
  "IsParentOf lib p path cmpNoCase allowEqual = IsSubdirOf lib path p cmpNoCase allowEqual"

definition path_eq :: "server_path \<Rightarrow> server_path \<Rightarrow> bool" where
  "path_eq p q =
     (if path_empty p \<noteq> path_empty q then False
      else if m_type p \<noteq> m_type q then False
      else m_data p = m_data q)"

fun segments_less :: "wstring list \<Rightarrow> wstring list \<Rightarrow> bool" where
  "segments_less [] ys = (ys \<noteq> [])"
| "segments_less (x # xs) [] = False"
| "segments_less (x # xs) (y # ys) =
     (if cstr x < cstr y then True else if cstr x > cstr y then False else segments_less xs ys)"

definition path_less :: "'a fzlib_scheme \<Rightarrow> server_path \<Rightarrow> server_path \<Rightarrow> bool" where
  "path_less lib p q =
     (case (m_data p, m_data q) of
        (None, _) \<Rightarrow> \<not> path_empty q
      | (Some _, None) \<Rightarrow> False
      | (Some ld, Some rd) \<Rightarrow>
          if (m_prefix ld \<noteq> None \<or> m_prefix rd \<noteq> None) \<and> opt_less lib (m_prefix ld) (m_prefix rd) then True
          else if (m_prefix ld \<noteq> None \<or> m_prefix rd \<noteq> None) \<and> opt_less lib (m_prefix rd) (m_prefix ld) then False
          else if m_type p > m_type q then False
          else if m_type p < m_type q then True
          else segments_less (m_segments ld) (m_segments rd))"

fun cmp_loop :: "'a fzlib_scheme \<Rightarrow> wstring list \<Rightarrow> wstring list \<Rightarrow> int" where
  "cmp_loop lib (x # xs) (y # ys) =
     (if stricmp lib x y \<noteq> 0 then stricmp lib x y else cmp_loop lib xs ys)"
| "cmp_loop lib _ _ = 0"

definition CmpNoCase :: "'a fzlib_scheme \<Rightarrow> server_path \<Rightarrow> server_path \<Rightarrow> int" where
  "CmpNoCase lib p q =
     (case (m_data p, m_data q) of
        (None, None) \<Rightarrow> 0
      | (Some ld, Some rd) \<Rightarrow>
          if m_prefix ld \<noteq> m_prefix rd then 1
          else if m_type p \<noteq> m_type q then 1
          else if length (m_segments ld) > length (m_segments rd) then 1
          else if length (m_segments ld) < length (m_segments rd) then -1
          else cmp_loop lib (m_segments ld) (m_segments rd)
      | _ \<Rightarrow> 1)"

text \<open>The loop of \<^verbatim>\<open>GetCommonParent\<close>: the segments pushed so far, and whether a mismatch ended it.\<close>

fun common_loop :: "wstring list \<Rightarrow> wstring list \<Rightarrow> wstring list \<Rightarrow> wstring list \<times> bool" where
  "common_loop (x # xs) (y # ys) acc = (if x \<noteq> y then (acc, True) else common_loop xs ys (acc @ [x]))"
| "common_loop _ _ acc = (acc, False)"

definition GetCommonParent :: "'a fzlib_scheme \<Rightarrow> server_path \<Rightarrow> server_path \<Rightarrow> server_path" where
  "GetCommonParent lib p path =
     (if path_eq p path then p
      else case (m_data p, m_data path) of
        (Some ld, Some rd) \<Rightarrow>
          (let t = m_type p in
           if t \<noteq> m_type path \<or> (prefixmode (traits t) = 0 \<and> m_prefix ld \<noteq> m_prefix rd) then empty_path
           else if \<not> HasParent p then (if IsSubdirOf lib path p False False then p else empty_path)
           else if \<not> HasParent path then (if IsSubdirOf lib p path False False then path else empty_path)
           else
             let mvs = (prefixmode (traits t) = 1);
                 xs = (if mvs \<and> m_prefix ld = None then butlast (m_segments ld) else m_segments ld);
                 ys = (if mvs \<and> m_prefix rd = None then butlast (m_segments rd) else m_segments rd);
                 pre = (if mvs then m_prefix (get_data (GetParent p)) else m_prefix ld);
                 r = common_loop xs ys []
             in if snd r \<and> \<not> has_root (traits t) \<and> fst r = [] then empty_path
                else \<lparr>m_data = Some \<lparr>m_segments = fst r, m_prefix = pre\<rparr>, m_type = t\<rparr>)
      | _ \<Rightarrow> empty_path)"

end
