(* ===== verification/Segments.thy ===== *)
theory Segments
  imports Server_Path
begin

text \<open>
  Splitting into segments (\<^verbatim>\<open>CServerPath::Segmentize\<close>) against a reference definition: the
  non-empty pieces between separators, folded with \<^verbatim>\<open>SegmentizeAddSegment\<close>. The results are
  that every segment it yields is well-formed for its server type, and that the printed
  segments are read back.
\<close>

subsection \<open>The pieces between separators\<close>

fun splits :: "('a \<Rightarrow> bool) \<Rightarrow> 'a list \<Rightarrow> 'a list list" where
  "splits P [] = [[]]"
| "splits P (c # cs) =
     (if P c then [] # splits P cs
      else case splits P cs of x # xs \<Rightarrow> (c # x) # xs | [] \<Rightarrow> [[c]])"

definition pieces :: "('a \<Rightarrow> bool) \<Rightarrow> 'a list \<Rightarrow> 'a list list" where
  "pieces P s = filter (\<lambda>x. x \<noteq> []) (splits P s)"

lemma splits_nonempty [simp]: "splits P s \<noteq> []"
  by (induction s) (auto split: list.splits)

lemma splits_no_sep: "\<forall>c\<in>set s. \<not> P c \<Longrightarrow> splits P s = [s]"
  by (induction s) auto

lemma splits_append: "P c \<Longrightarrow> splits P (xs @ c # ys) = splits P xs @ splits P ys"
  by (induction xs) (auto split: list.splits)

lemma splits_sep_free: "x \<in> set (splits P s) \<Longrightarrow> \<forall>c\<in>set x. \<not> P c"
proof (induction s arbitrary: x)
  case (Cons c s)
  then show ?case by (cases "splits P s") (force split: if_splits)+
qed simp

lemma pieces_Nil [simp]: "pieces P [] = []"
  by (simp add: pieces_def)

lemma pieces_sep [simp]: "P c \<Longrightarrow> pieces P (c # ys) = pieces P ys"
  by (simp add: pieces_def)

lemma pieces_no_sep: "\<forall>c\<in>set s. \<not> P c \<Longrightarrow> pieces P s = (if s = [] then [] else [s])"
  by (simp add: pieces_def splits_no_sep)

lemma pieces_append: "P c \<Longrightarrow> pieces P (xs @ c # ys) = pieces P xs @ pieces P ys"
  by (simp add: pieces_def splits_append)

lemma pieces_snoc_sep: "P c \<Longrightarrow> pieces P (xs @ [c]) = pieces P xs"
  using pieces_append [of P c xs "[]"] by simp

lemma pieces_mem: "x \<in> set (pieces P s) \<Longrightarrow> x \<noteq> [] \<and> (\<forall>c\<in>set x. \<not> P c)"
  using splits_sep_free by (fastforce simp: pieces_def)

lemma pieces_find:
  assumes "find_idx P s = Some i" "i \<noteq> 0"
  shows "pieces P s = take i s # pieces P (drop (Suc i) s)"
proof -
  have P: "P (s ! i)" and no: "\<forall>c\<in>set (take i s). \<not> P c" and len: "i < length s"
    using find_idx_SomeD [OF assms(1)] by auto
  have "pieces P s = pieces P (take i s @ s ! i # drop (Suc i) s)"
    using find_idx_split [OF assms(1)] by simp
  also have "\<dots> = pieces P (take i s) @ pieces P (drop (Suc i) s)"
    using P by (rule pieces_append)
  also have "pieces P (take i s) = [take i s]"
    using assms(2) len pieces_no_sep [OF no] by (auto simp: take_eq_Nil)
  finally show ?thesis by simp
qed

lemma pieces_find0:
  assumes "find_idx P s = Some 0"
  shows "pieces P s = pieces P (drop 1 s)"
  using find_idx_SomeD [OF assms] by (cases s) auto

subsection \<open>The loop is a fold over the pieces\<close>

definition add_piece :: "server_type \<Rightarrow> wstring list \<times> bool \<Rightarrow> wstring \<Rightarrow> wstring list \<times> bool" where
  "add_piece t st piece = SegmentizeAddSegment t piece (fst st) (snd st)"

lemma segmentize_loop_pieces:
  "segmentize_loop t str segs app = foldl (add_piece t) (segs, app) (pieces (IsSeparator t) str)"
proof (induction t str segs app rule: segmentize_loop.induct)
  case (1 t str segs app)
  show ?case
  proof (cases "find_idx (IsSeparator t) str")
    case None
    then have "\<forall>c\<in>set str. \<not> IsSeparator t c" by (simp add: find_idx_None)
    then show ?thesis
      using None by (simp add: segmentize_loop.simps [of t str] pieces_no_sep add_piece_def)
  next
    case (Some pos)
    show ?thesis
    proof (cases "pos = 0")
      case True
      then have "segmentize_loop t str segs app = segmentize_loop t (drop 1 str) segs app"
        using Some by (simp add: segmentize_loop.simps [of t str])
      then show ?thesis using 1 Some True pieces_find0 [of "IsSeparator t" str] by simp
    next
      case False
      then show ?thesis
        using 1(2) [OF Some False refl] Some pieces_find [OF Some False]
        by (simp add: segmentize_loop.simps [of t str] Let_def add_piece_def)
    qed
  qed
qed

lemma Segmentize_pieces:
  "Segmentize t str segs =
     (let r = foldl (add_piece t) (segs, False) (pieces (IsSeparator t) str)
      in if snd r then None else Some (fst r))"
  by (simp add: Segmentize_def segmentize_loop_pieces)

lemma Segmentize_Nil [simp]: "Segmentize t [] segs = Some segs"
  by (simp add: Segmentize_pieces)

subsection \<open>Well-formed segments\<close>

text \<open>
  No segment is empty. Where the type has no escape character, a segment holds no separator;
  on VMS, where separators are escaped, it ends neither in the separator nor in the escape
  character. Where dots are special, a segment is neither \<^verbatim>\<open>.\<close> nor \<^verbatim>\<open>..\<close>.
\<close>

definition seg_ok :: "server_type \<Rightarrow> wstring \<Rightarrow> bool" where
  "seg_ok t s \<longleftrightarrow>
     s \<noteq> [] \<and>
     (if separatorEscape (traits t) = 0 then \<forall>c\<in>set s. \<not> IsSeparator t c
      else last s \<noteq> separatorEscape (traits t) \<and> \<not> IsSeparator t (last s)) \<and>
     (has_dots (traits t) \<longrightarrow> s \<noteq> [46] \<and> s \<noteq> [46, 46])"

lemma escape_cases: "separatorEscape (traits t) = (if t = VMS then 94 else 0)"
  by (cases t) simp_all

text \<open>The state of the fold: all segments are well-formed, but for one that is being continued.\<close>

definition run_ok :: "server_type \<Rightarrow> wstring list \<times> bool \<Rightarrow> bool" where
  "run_ok t st \<longleftrightarrow>
     (if snd st then fst st \<noteq> [] \<and> (\<forall>s\<in>set (butlast (fst st)). seg_ok t s)
      else \<forall>s\<in>set (fst st). seg_ok t s)"

lemma add_piece_no_escape:
  assumes "separatorEscape (traits t) = 0"
  shows "add_piece t (segs, False) x =
     (if has_dots (traits t) \<and> x = [46] then (segs, False)
      else if has_dots (traits t) \<and> x = [46, 46] then (butlast segs, False)
      else (segs @ [x], False))"
  using assms by (simp add: add_piece_def SegmentizeAddSegment_def Let_def)

lemma foldl_no_escape:
  "separatorEscape (traits t) = 0 \<Longrightarrow> snd st = False \<Longrightarrow> snd (foldl (add_piece t) st xs) = False"
proof (induction xs arbitrary: st)
  case (Cons x xs)
  have "snd (add_piece t st x) = False"
    using Cons.prems add_piece_no_escape [of t "fst st" x] by (cases st) auto
  with Cons show ?case by simp
qed simp

lemma run_ok_add_piece:
  assumes ok: "run_ok t st" and x: "x \<noteq> []" "\<forall>c\<in>set x. \<not> IsSeparator t c"
    and app: "separatorEscape (traits t) = 0 \<Longrightarrow> snd st = False"
  shows "run_ok t (add_piece t st x)"
proof (cases "t = VMS")
  case True
  show ?thesis
  proof (cases "last x = 94")
    case True
    then show ?thesis
      using ok x \<open>t = VMS\<close>
      by (auto simp: run_ok_def add_piece_def SegmentizeAddSegment_def Let_def)
  next
    case False
    moreover have "last x \<noteq> 46" using x \<open>t = VMS\<close> by auto
    ultimately show ?thesis
      using ok x \<open>t = VMS\<close>
      by (auto simp: run_ok_def add_piece_def SegmentizeAddSegment_def Let_def seg_ok_def)
  qed
next
  case False
  then have esc: "separatorEscape (traits t) = 0" by (simp add: escape_cases)
  obtain segs where st: "st = (segs, False)"
    using app [OF esc] by (cases st) auto
  have "\<forall>s\<in>set segs. seg_ok t s" using ok st by (simp add: run_ok_def)
  then show ?thesis
    using x esc by (auto simp: st add_piece_no_escape run_ok_def seg_ok_def dest: in_set_butlastD)
qed

lemma run_ok_foldl:
  assumes "run_ok t st" "\<forall>x\<in>set xs. x \<noteq> [] \<and> (\<forall>c\<in>set x. \<not> IsSeparator t c)"
    "separatorEscape (traits t) = 0 \<Longrightarrow> snd st = False"
  shows "run_ok t (foldl (add_piece t) st xs)"
  using assms
proof (induction xs arbitrary: st)
  case (Cons x xs)
  have "run_ok t (add_piece t st x)"
    using Cons.prems by (intro run_ok_add_piece) auto
  moreover have "separatorEscape (traits t) = 0 \<Longrightarrow> snd (add_piece t st x) = False"
    using foldl_no_escape [of t st "[x]"] Cons.prems(3) by simp
  ultimately show ?case using Cons by simp
qed simp

lemma Segmentize_ok:
  assumes "Segmentize t str segs = Some segs'" "\<forall>s\<in>set segs. seg_ok t s"
  shows "\<forall>s\<in>set segs'. seg_ok t s"
proof -
  let ?r = "foldl (add_piece t) (segs, False) (pieces (IsSeparator t) str)"
  have "run_ok t ?r"
    using assms(2) pieces_mem [of _ "IsSeparator t" str] by (intro run_ok_foldl) (simp_all add: run_ok_def)
  moreover have "\<not> snd ?r" "segs' = fst ?r"
    using assms(1) by (auto simp: Segmentize_pieces Let_def split: if_splits)
  ultimately show ?thesis by (simp add: run_ok_def)
qed

subsection \<open>Printed segments are read back\<close>

lemma EscapeSeparators_other [simp]: "t \<noteq> VMS \<Longrightarrow> EscapeSeparators lib t s = s"
  by (simp add: EscapeSeparators_def escape_cases)

lemma EscapeSeparators_VMS:
  "replace_substrings_char lib \<Longrightarrow>
     EscapeSeparators lib VMS s = concat (map (\<lambda>x. if x = 46 then [94, 46] else [x]) s)"
  by (simp add: EscapeSeparators_def replace_substrings_char_def)

lemma vms_escaped_read:
  assumes "s \<noteq> []" "last s \<noteq> 94" "last s \<noteq> 46"
  shows "foldl (add_piece VMS) (if app then segs @ [u] else segs, app)
      (pieces (\<lambda>c. c = 46) (concat (map (\<lambda>x. if x = 46 then [94, 46] else [x]) s))) =
    (segs @ [if app then u @ s else s], False)"
  using assms
proof (induction "length s" arbitrary: s u segs app rule: less_induct)
  case less
  let ?esc = "\<lambda>s. concat (map (\<lambda>x. if x = 46 then [94, 46] else [x]) s) :: wstring"
  let ?P = "\<lambda>c :: wchar. c = 46"
  show ?case
  proof (cases "find_idx ?P s")
    case None
    then have no: "\<forall>c\<in>set s. c \<noteq> 46" by (simp add: find_idx_None)
    then have "?esc s = s" by (induction s) auto
    moreover have "pieces ?P s = [s]" using no less.prems(1) by (simp add: pieces_no_sep)
    ultimately show ?thesis
      using less.prems by (simp add: add_piece_def SegmentizeAddSegment_def Let_def)
  next
    case (Some i)
    define a b where "a = take i s" and "b = drop (Suc i) s"
    have i: "i < length s" "s ! i = 46" and a: "\<forall>c\<in>set a. c \<noteq> 46"
      using find_idx_SomeD [OF Some] by (auto simp: a_def)
    have s: "s = a @ 46 # b"
      using find_idx_split [OF Some] i by (simp add: a_def b_def)
    have b: "b \<noteq> []" "last b \<noteq> 94" "last b \<noteq> 46"
      using less.prems s by (auto split: if_splits)
    have "?esc a = a" using a by (induction a) auto
    then have "?esc s = (a @ [94]) @ 46 # ?esc b" by (simp add: s)
    then have "pieces ?P (?esc s) = pieces ?P (a @ [94]) @ pieces ?P (?esc b)"
      by (simp only: pieces_append)
    also have "pieces ?P (a @ [94]) = [a @ [94]]" using a by (simp add: pieces_no_sep)
    finally have ps: "pieces ?P (?esc s) = (a @ [94]) # pieces ?P (?esc b)" by simp
    have "foldl (add_piece VMS) (segs @ [if app then u @ a @ [46] else a @ [46]], True)
        (pieces ?P (?esc b)) = (segs @ [(if app then u @ a @ [46] else a @ [46]) @ b], False)"
      using less.hyps [of b True segs "if app then u @ a @ [46] else a @ [46]"] b s by simp
    then show ?thesis
      unfolding ps by (cases app) (simp_all add: add_piece_def SegmentizeAddSegment_def Let_def s)
  qed
qed

lemma seg_read:
  assumes "replace_substrings_char lib" "seg_ok t s"
  shows "foldl (add_piece t) (segs, False) (pieces (IsSeparator t) (EscapeSeparators lib t s)) =
    (segs @ [s], False)"
proof (cases "t = VMS")
  case True
  have "IsSeparator VMS = (\<lambda>c. c = 46)" by (rule ext) simp
  then show ?thesis
    using True assms vms_escaped_read [of s False segs] by (simp add: EscapeSeparators_VMS seg_ok_def)
next
  case False
  then show ?thesis
    using assms(2) by (auto simp: escape_cases seg_ok_def pieces_no_sep add_piece_no_escape)
qed

lemma IsSeparator_sep0 [simp]: "IsSeparator t (sep0 t)"
  by (cases t) simp_all

lemma pieces_joined:
  "pieces (IsSeparator t) (e @ concat (map (\<lambda>x. sep0 t # f x) ss)) =
     pieces (IsSeparator t) e @ concat (map (\<lambda>x. pieces (IsSeparator t) (f x)) ss)"
proof (induction ss arbitrary: e)
  case (Cons x ss)
  then show ?case using pieces_append [of "IsSeparator t" "sep0 t" e] by simp
qed simp

lemma segs_read:
  assumes "replace_substrings_char lib" "\<forall>s\<in>set ss. seg_ok t s"
  shows "foldl (add_piece t) (segs, False)
      (concat (map (\<lambda>x. pieces (IsSeparator t) (EscapeSeparators lib t x)) ss)) = (segs @ ss, False)"
  using assms(2)
proof (induction ss arbitrary: segs)
  case (Cons s ss)
  then show ?case using seg_read [OF assms(1), of t s segs] by simp
qed simp

lemma pieces_print_segments:
  "pieces (IsSeparator t) (print_segments lib t np ss) =
     concat (map (\<lambda>x. pieces (IsSeparator t) (EscapeSeparators lib t x)) ss)"
  by (cases ss) (simp_all add: print_segments_def pieces_joined)

theorem Segmentize_print_segments:
  assumes "replace_substrings_char lib" "\<forall>s\<in>set ss. seg_ok t s"
    "pieces (IsSeparator t) str = pieces (IsSeparator t) (print_segments lib t np ss)"
  shows "Segmentize t str [] = Some ss"
  using segs_read [OF assms(1,2), of "[]"]
  by (simp add: Segmentize_pieces assms(3) pieces_print_segments)

end
