(* ===== verification/Server_Path_Props.thy ===== *)
theory Server_Path_Props
  imports Segments
begin

text \<open>
  Properties of \<^verbatim>\<open>CServerPath\<close>: the invariant that parsing establishes and every operation
  keeps, and the round trips of the two printed forms.
\<close>

subsection \<open>Well-formed paths\<close>

definition prefix_ok :: "server_type \<Rightarrow> wstring option \<Rightarrow> bool" where
  "prefix_ok t pre =
     (case t of
        VMS \<Rightarrow> (case pre of None \<Rightarrow> True | Some s \<Rightarrow> s \<noteq> [] \<and> 91 \<notin> set s)
      | MVS \<Rightarrow> pre = None \<or> pre = Some [46]
      | VXWORKS \<Rightarrow> (case pre of None \<Rightarrow> False
          | Some s \<Rightarrow> length s \<ge> 3 \<and> hd s = 58 \<and> last s = 58 \<and> 58 \<notin> set (butlast (tl s)))
      | CYGWIN \<Rightarrow> pre = None \<or> pre = Some [47]
      | _ \<Rightarrow> pre = None)"

definition segs_ok :: "server_type \<Rightarrow> path_data \<Rightarrow> bool" where
  "segs_ok t d \<longleftrightarrow> (\<forall>s\<in>set (m_segments d). seg_ok t s)"

definition wf_data :: "server_type \<Rightarrow> path_data \<Rightarrow> bool" where
  "wf_data t d \<longleftrightarrow>
     segs_ok t d \<and> prefix_ok t (m_prefix d) \<and> (\<not> has_root (traits t) \<longrightarrow> m_segments d \<noteq> [])"

definition wf_path :: "server_path \<Rightarrow> bool" where
  "wf_path p = (case m_data p of None \<Rightarrow> True | Some d \<Rightarrow> wf_data (m_type p) d)"

lemma wf_path_empty [simp]: "m_data p = None \<Longrightarrow> wf_path p"
  by (simp add: wf_path_def)

lemma wf_path_clear [simp]: "wf_path (clear_path p)"
  by (simp add: clear_path_def)

text \<open>What the cases of \<^verbatim>\<open>DoChangePath\<close> may assume of the data they start from.\<close>

definition start_ok :: "server_type \<Rightarrow> bool \<Rightarrow> path_data \<Rightarrow> bool" where
  "start_ok t was_empty d \<longleftrightarrow> (if was_empty then d = empty_data else segs_ok t d \<and> prefix_ok t (m_prefix d))"

lemma start_ok_segs: "start_ok t e d \<Longrightarrow> segs_ok t d"
  by (simp add: start_ok_def segs_ok_def empty_data_def split: if_splits)

lemma segs_ok_simps [simp]:
  "segs_ok t (d\<lparr>m_segments := []\<rparr>)"
  "segs_ok t (d\<lparr>m_prefix := pre\<rparr>) = segs_ok t d"
  "segs_ok t (d\<lparr>m_segments := [], m_prefix := pre\<rparr>)"
  "segs_ok t empty_data"
  "segs_ok t \<lparr>m_segments = [], m_prefix = pre\<rparr>"
  "segs_ok t d \<Longrightarrow> m_segments d \<noteq> [] \<Longrightarrow> segs_ok t (d\<lparr>m_segments := [hd (m_segments d)]\<rparr>)"
  by (simp_all add: segs_ok_def empty_data_def)

lemma segments_into_ok:
  "segments_into t dir d = Some d1 \<Longrightarrow> segs_ok t d \<Longrightarrow> segs_ok t d1 \<and> m_prefix d1 = m_prefix d"
  using Segmentize_ok by (fastforce simp: segments_into_def segs_ok_def)

lemma segments_nonempty_ok:
  "segments_nonempty t e dir d = Some d1 \<Longrightarrow> segs_ok t d \<Longrightarrow> segs_ok t d1 \<and> m_prefix d1 = m_prefix d"
  by (auto simp: segments_nonempty_def dest: segments_into_ok split: option.splits if_splits)

lemmas change_simps = Let_def Option.bind_eq_Some_conv extract_if_def

lemma find_from_prefix:
  assumes "find_from (\<lambda>c. c = 58) 1 s = Some k" "k \<noteq> 1" "at s 0 = (58 :: nat)"
  shows "prefix_ok VXWORKS (Some (take (Suc k) s))"
proof -
  obtain i where i: "find_idx (\<lambda>c. c = 58) (drop 1 s) = Some i" "k = Suc i"
    using assms(1) by (auto simp: find_from_def)
  obtain c cs where s: "s = c # cs" "c = 58"
    using assms(3) by (cases s) (auto simp: at_def)
  have cs: "i < length cs" "cs ! i = 58" "\<forall>x\<in>set (take i cs). x \<noteq> 58"
    using find_idx_SomeD [OF i(1)] s by auto
  have "take (Suc k) s = 58 # take (Suc i) cs" using s i(2) by simp
  moreover have "last (take (Suc i) cs) = 58" using cs by (simp add: take_Suc_conv_app_nth)
  moreover have "butlast (take (Suc i) cs) = take i cs" using cs by (simp add: take_Suc_conv_app_nth)
  ultimately show ?thesis
    using cs i(2) assms(2) by (auto simp: prefix_ok_def)
qed

lemma change_by_type_ok:
  assumes "change_by_type t d was_empty dir isFile = Some (d', file)" "start_ok t was_empty d"
  shows "segs_ok t d' \<and> prefix_ok t (m_prefix d')"
proof -
  note segs = start_ok_segs [OF assms(2)]
  have pre: "prefix_ok t (m_prefix d)" if "t \<noteq> VXWORKS \<or> \<not> was_empty"
    using assms(2) that
    by (cases t) (auto simp: start_ok_def prefix_ok_def empty_data_def split: if_splits)
  consider "t = VMS" | "t = MVS" | "t = VXWORKS" | "t = CYGWIN" | "t = HPNONSTOP"
    | "t = DOS \<or> t = DOS_FWD_SLASHES" | "t = DEFAULT \<or> t = UNIX \<or> t = ZVM \<or> t = DOS_VIRTUAL"
    by (cases t) auto
  then show ?thesis
  proof cases
    case 1
    have "prefix_ok VMS (Some (take i (take j dir)))"
      if "find_idx (\<lambda>c. c = 91) dir = Some i" "i \<noteq> 0" "\<not> j \<le> Suc i" for i j
      using find_idx_SomeD [OF that(1)] that(2,3)
      by (auto simp: prefix_ok_def take_take min_def take_eq_Nil split: if_splits)
    with assms 1 segs pre show ?thesis
      by (auto simp: change_by_type_def change_VMS_def change_simps
          dest!: segments_nonempty_ok split: option.splits if_splits)
  next
    case 2
    with assms segs pre show ?thesis
      by (auto simp: change_by_type_def change_MVS_def mvs_unquote_def mvs_member_def mvs_plain_def
          change_simps prefix_ok_def dest!: segments_into_ok split: option.splits if_splits)
  next
    case 3
    with assms segs pre show ?thesis
      by (auto simp: change_by_type_def change_VXWORKS_def change_simps
          dest!: segments_into_ok dest: find_from_prefix [unfolded One_nat_def] split: option.splits if_splits)
  next
    case 4
    with assms segs pre show ?thesis
      by (auto simp: change_by_type_def change_CYGWIN_def change_simps prefix_ok_def empty_data_def
          dest!: segments_into_ok split: option.splits if_splits)
  next
    case 5
    with assms segs pre show ?thesis
      by (auto simp: change_by_type_def change_HPNONSTOP_def change_simps
          dest!: segments_nonempty_ok split: option.splits if_splits)
  next
    case 6
    with assms segs pre show ?thesis
      by (auto simp: change_by_type_def change_DOS_def change_simps
          dest!: segments_nonempty_ok split: option.splits if_splits)
  next
    case 7
    with assms segs pre show ?thesis
      by (auto simp: change_by_type_def change_default_def change_simps
          dest!: segments_into_ok split: option.splits if_splits)
  qed
qed

lemma DoChangePath_type: "DoChangePath p s f = Some (p', s') \<Longrightarrow> m_type p' = m_type p \<and> m_data p' \<noteq> None"
  by (auto simp: DoChangePath_def path_empty_def split: option.splits if_splits)

lemma DoChangePath_wf:
  assumes "DoChangePath p s f = Some (p', s')" "wf_path p"
  shows "wf_path p'"
proof (cases "s = []")
  case True
  with assms show ?thesis by (auto simp: DoChangePath_def split: if_splits)
next
  case False
  have start: "start_ok (m_type p) (path_empty p) (get_data p)"
    using assms(2) by (auto simp: start_ok_def path_empty_def get_data_def wf_path_def wf_data_def split: option.splits)
  from assms(1) False obtain d fn where
    "change_by_type (m_type p) (get_data p) (path_empty p) s f = Some (d, fn)"
    "p' = p\<lparr>m_data := Some d\<rparr>" "\<not> has_root (traits (m_type p)) \<longrightarrow> m_segments d \<noteq> []"
    by (auto simp: DoChangePath_def split: option.splits if_splits)
  with change_by_type_ok [OF _ start] show ?thesis
    by (auto simp: wf_path_def wf_data_def)
qed

lemma ChangePath_wf: "wf_path p \<Longrightarrow> wf_path (fst (snd (ChangePath p s f)))"
  using DoChangePath_wf by (auto simp: ChangePath_def split: option.splits)

lemma change_dir_wf: "wf_path p \<Longrightarrow> wf_path (snd (change_dir p s))"
  using ChangePath_wf [of p s False] by (auto simp: change_dir_def split: prod.splits)

lemma SetPath_wf: "wf_path p \<Longrightarrow> wf_path (fst (snd (SetPath p s f)))"
  using ChangePath_wf [of "\<lparr>m_data = None, m_type = t\<rparr>" s f for t]
  by (auto simp: SetPath_def Let_def split: prod.splits) (metis fst_conv snd_conv wf_path_empty server_path.select_convs(1))+

lemma path_of_wf [simp]: "wf_path (path_of s t)"
  using SetPath_wf [of "\<lparr>m_data = None, m_type = t\<rparr>" s False] by (auto simp: path_of_def split: prod.splits)

lemma path_sub_wf: "wf_path p \<Longrightarrow> wf_path (path_sub p s)"
  using change_dir_wf [of p s] by (auto simp: path_sub_def split: prod.splits)

lemma GetChanged_wf: "wf_path p \<Longrightarrow> wf_path q \<Longrightarrow> wf_path (GetChanged p q s)"
  using change_dir_wf [of p s] change_dir_wf [of q s] by (auto simp: GetChanged_def split: prod.splits)

lemma MakeParent_wf: "wf_path p \<Longrightarrow> wf_path (MakeParent p)"
  by (auto simp: MakeParent_def HasParent_def wf_path_def wf_data_def segs_ok_def clear_path_def prefix_ok_def
      dest: in_set_butlastD split: option.splits if_splits)
    (auto simp: neq_Nil_conv split: server_type.splits)

lemma AddSegment_wf: "wf_path p \<Longrightarrow> wf_path (snd (AddSegment p x)) \<longleftrightarrow> path_empty p \<or> seg_ok (m_type p) x"
  by (auto simp: AddSegment_def wf_path_def wf_data_def segs_ok_def path_empty_def split: option.splits)

lemma SetType_wf: "wf_path p \<Longrightarrow> path_empty p \<or> m_type p \<noteq> DEFAULT \<Longrightarrow> wf_path (snd (SetType p t))"
  by (auto simp: SetType_def wf_path_def path_empty_def split: option.splits)



end
