(* ===== verification/Path_Roundtrip.thy ===== *)
theory Path_Roundtrip
  imports Server_Path_Props
begin

text \<open>
  The printed form of a path: \<^verbatim>\<open>GetPath\<close> followed by the constructor that parses gives the path
  back, for each server type in turn.
\<close>

subsection \<open>The printed path is read back\<close>

lemma path_of_eq:
  assumes "t \<noteq> DEFAULT" "s \<noteq> []" "change_by_type t empty_data True s False = Some (d, fn)"
    "\<not> has_root (traits t) \<longrightarrow> m_segments d \<noteq> []"
  shows "path_of s t = \<lparr>m_data = Some d, m_type = t\<rparr>"
proof -
  have "DoChangePath \<lparr>m_data = None, m_type = t\<rparr> s False = Some (\<lparr>m_data = Some d, m_type = t\<rparr>, s)"
    using assms(2-4) by (auto simp: DoChangePath_def path_empty_def get_data_def)
  then show ?thesis using assms(1,2) by (simp add: path_of_def SetPath_def ChangePath_def)
qed

lemma print_read:
  assumes "replace_substrings_char lib" "segs_ok t d"
    "pieces (IsSeparator t) str = pieces (IsSeparator t) (print_segments lib t np (m_segments d))"
  shows "Segmentize t str [] = Some (m_segments d)"
  using Segmentize_print_segments [OF assms(1) _ assms(3)] assms(2) by (simp add: segs_ok_def)

lemma print_segments_nonempty:
  assumes "segs_ok t d" "m_segments d \<noteq> []" "replace_substrings_char lib"
  shows "print_segments lib t np (m_segments d) \<noteq> []"
proof -
  obtain s ss where ss: "m_segments d = s # ss" using assms(2) by (cases "m_segments d") auto
  then have "s \<noteq> []" using assms(1) by (simp add: segs_ok_def seg_ok_def)
  then have "EscapeSeparators lib t s \<noteq> []"
    using assms(3) by (cases "t = VMS"; cases s) (simp_all add: EscapeSeparators_VMS)
  with ss show ?thesis by (simp add: print_segments_def)
qed

text \<open>The first character of a path that is printed without a leading separator.\<close>

lemma print_segments_first:
  assumes "segs_ok t d" "m_segments d \<noteq> []" "t \<noteq> VMS"
    "\<not> (has_root (traits t) \<and> (np \<or> separator_after_prefix (traits t)))"
  shows "\<not> IsSeparator t (at (print_segments lib t np (m_segments d) @ r) 0)"
proof -
  obtain s ss where ss: "m_segments d = s # ss" using assms(2) by (cases "m_segments d") auto
  then have "s \<noteq> []" "\<forall>c\<in>set s. \<not> IsSeparator t c"
    using assms(1,3) by (simp_all add: segs_ok_def seg_ok_def escape_cases)
  with ss assms(3,4) show ?thesis by (cases s) (auto simp: print_segments_def at_def)
qed

lemma read_root:
  assumes "replace_substrings_char lib" "wf_data t d" "t = UNIX \<or> t = ZVM \<or> t = DOS_VIRTUAL"
  shows "change_by_type t empty_data True (GetPath lib \<lparr>m_data = Some d, m_type = t\<rparr>) False = Some (d, [])"
proof -
  let ?s = "print_segments lib t True (m_segments d)"
  have pre: "m_prefix d = None" using assms(2,3) by (auto simp: wf_data_def prefix_ok_def)
  then have s: "GetPath lib \<lparr>m_data = Some d, m_type = t\<rparr> = ?s"
    using assms(3) by (auto simp: GetPath_def prefix_str_def enclosure_def)
  have "at ?s 0 = sep0 t"
    using assms(3) by (cases "m_segments d") (auto simp: print_segments_def at_def)
  moreover have "Segmentize t ?s [] = Some (m_segments d)"
    using assms(1,2) by (intro print_read) (auto simp: wf_data_def)
  ultimately show ?thesis
    using assms(3) pre unfolding s
    by (auto simp: change_by_type_def change_default_def change_simps segments_into_def empty_data_def)
qed

lemma read_HPNONSTOP:
  assumes "replace_substrings_char lib" "wf_data HPNONSTOP d"
  shows "change_by_type HPNONSTOP empty_data True (GetPath lib \<lparr>m_data = Some d, m_type = HPNONSTOP\<rparr>) False = Some (d, [])"
proof -
  let ?s = "print_segments lib HPNONSTOP True (m_segments d)"
  have pre: "m_prefix d = None" and ne: "m_segments d \<noteq> []"
    using assms(2) by (auto simp: wf_data_def prefix_ok_def)
  then have s: "GetPath lib \<lparr>m_data = Some d, m_type = HPNONSTOP\<rparr> = ?s"
    by (auto simp: GetPath_def prefix_str_def enclosure_def)
  have "Segmentize HPNONSTOP ?s [] = Some (m_segments d)"
    using assms(1,2) by (intro print_read) (auto simp: wf_data_def)
  then show ?thesis
    using pre ne unfolding s
    by (auto simp: change_by_type_def change_HPNONSTOP_def change_simps segments_nonempty_def
        segments_into_def empty_data_def)
qed

lemma read_DOS:
  assumes "replace_substrings_char lib" "wf_data t d" "t = DOS \<or> t = DOS_FWD_SLASHES"
  shows "change_by_type t empty_data True (GetPath lib \<lparr>m_data = Some d, m_type = t\<rparr>) False = Some (d, [])"
proof -
  let ?r = "if length (m_segments d) = 1 then [sep0 t] else []"
  let ?s = "print_segments lib t True (m_segments d) @ ?r"
  have pre: "m_prefix d = None" and ne: "m_segments d \<noteq> []"
    using assms(2,3) by (auto simp: wf_data_def prefix_ok_def)
  then have s: "GetPath lib \<lparr>m_data = Some d, m_type = t\<rparr> = ?s"
    using assms(3) by (auto simp: GetPath_def prefix_str_def enclosure_def)
  have "pieces (IsSeparator t) ?s = pieces (IsSeparator t) (print_segments lib t True (m_segments d))"
    by (simp add: pieces_snoc_sep)
  then have "Segmentize t ?s [] = Some (m_segments d)"
    using assms(1,2) by (intro print_read) (auto simp: wf_data_def)
  moreover have "\<not> IsSeparator t (at ?s 0)"
    using assms(2,3) ne by (intro print_segments_first) (auto simp: wf_data_def)
  ultimately show ?thesis
    using assms(3) pre ne unfolding s
    by (auto simp: change_by_type_def change_DOS_def change_simps segments_nonempty_def
        segments_into_def empty_data_def Let_def split: if_splits option.splits)
qed

lemma read_CYGWIN:
  assumes "replace_substrings_char lib" "wf_data CYGWIN d"
  shows "change_by_type CYGWIN empty_data True (GetPath lib \<lparr>m_data = Some d, m_type = CYGWIN\<rparr>) False = Some (d, [])"
proof -
  let ?s = "print_segments lib CYGWIN (m_prefix d = None) (m_segments d)"
  have s: "GetPath lib \<lparr>m_data = Some d, m_type = CYGWIN\<rparr> = prefix_str d @ ?s"
    by (auto simp: GetPath_def enclosure_def)
  have read: "Segmentize CYGWIN ?s [] = Some (m_segments d)"
    using assms by (intro print_read) (auto simp: wf_data_def)
  have first: "at ?s 0 = 47" by (cases "m_segments d") (auto simp: print_segments_def at_def)
  have second: "at ?s 1 \<noteq> 47"
    using assms(2)
    by (cases "m_segments d"; cases "hd (m_segments d)")
      (auto simp: print_segments_def at_def wf_data_def segs_ok_def seg_ok_def)
  show ?thesis
  proof (cases "m_prefix d")
    case None
    then show ?thesis
      using first second read unfolding s
      by (auto simp: prefix_str_def change_by_type_def change_CYGWIN_def change_simps segments_into_def empty_data_def)
  next
    case (Some p)
    then have "prefix_str d = [47]" using assms(2) by (auto simp: prefix_str_def wf_data_def prefix_ok_def)
    moreover have "?s \<noteq> []" using first by (auto simp: at_def)
    moreover have "at (47 # ?s) 0 = 47" "at (47 # ?s) (Suc 0) = at ?s 0" by (auto simp: at_def)
    ultimately show ?thesis
      using first second read Some assms(2) unfolding s
      by (auto simp: prefix_str_def change_by_type_def change_CYGWIN_def change_simps segments_into_def empty_data_def)
  qed
qed

lemma read_VXWORKS:
  assumes "replace_substrings_char lib" "wf_data VXWORKS d"
  shows "change_by_type VXWORKS empty_data True (GetPath lib \<lparr>m_data = Some d, m_type = VXWORKS\<rparr>) False = Some (d, [])"
proof -
  let ?s = "print_segments lib VXWORKS False (m_segments d)"
  obtain p where pre: "m_prefix d = Some p" "length p \<ge> 3" "hd p = 58" "last p = 58" "58 \<notin> set (butlast (tl p))"
    using assms(2) by (auto simp: wf_data_def prefix_ok_def split: option.splits)
  define x where "x = butlast (tl p)"
  have p: "p = 58 # x @ [58]" and x: "x \<noteq> []" "58 \<notin> set x"
    using pre by (cases p; cases "tl p" rule: rev_cases; auto simp: x_def)+
  have s: "GetPath lib \<lparr>m_data = Some d, m_type = VXWORKS\<rparr> = 58 # x @ 58 # ?s"
    using pre(1) p by (auto simp: GetPath_def prefix_str_def enclosure_def)
  have read: "Segmentize VXWORKS ?s [] = Some (m_segments d)"
    using assms by (intro print_read) (auto simp: wf_data_def)
  have "find_idx (\<lambda>c. c = 58) (x @ 58 # ?s) = Some (length x)"
    using x(2) find_idx_append_None [of x "\<lambda>c. c = 58" "58 # ?s"] by auto
  then have "find_from (\<lambda>c. c = 58) (Suc 0) (58 # x @ 58 # ?s) = Some (Suc (length x))"
    by (simp add: find_from_def)
  then show ?thesis
    using pre(1) p x(1) read unfolding s
    by (simp add: change_by_type_def change_VXWORKS_def change_simps segments_into_def at_def)
qed

lemma read_VMS:
  assumes "replace_substrings_char lib" "wf_data VMS d"
  shows "change_by_type VMS empty_data True (GetPath lib \<lparr>m_data = Some d, m_type = VMS\<rparr>) False = Some (d, [])"
proof -
  define s where "s = print_segments lib VMS (m_prefix d = None) (m_segments d)"
  let ?g = "prefix_str d @ 91 # s @ [93]"
  have ok: "segs_ok VMS d" and ne: "m_segments d \<noteq> []" using assms(2) by (auto simp: wf_data_def)
  have g: "GetPath lib \<lparr>m_data = Some d, m_type = VMS\<rparr> = ?g"
    by (auto simp: GetPath_def enclosure_def s_def)
  have read: "Segmentize VMS s [] = Some (m_segments d)"
    unfolding s_def using assms by (intro print_read) (auto simp: wf_data_def)
  have s1: "s \<noteq> []" unfolding s_def using print_segments_nonempty [OF ok ne assms(1)] .
  have pre: "91 \<notin> set (prefix_str d)" "m_prefix d = (if prefix_str d = [] then None else Some (prefix_str d))"
    using assms(2) by (auto simp: wf_data_def prefix_ok_def prefix_str_def split: option.splits)
  have pos1: "find_idx (\<lambda>c. c = 91) ?g = Some (length (prefix_str d))"
    using pre(1) find_idx_append_None [of "prefix_str d" "\<lambda>c. c = 91" "91 # s @ [93]"] by auto
  have pos2: "rfind_idx (\<lambda>c. c = 93) ?g = Some (length (prefix_str d) + 1 + length s)"
    using rfind_idx_snoc [of "\<lambda>c. c = 93" 93 "prefix_str d @ 91 # s"] by simp
  have "change_VMS empty_data True ?g False =
      map_option (\<lambda>d2. (d2, [])) (segments_nonempty VMS True s
        \<lparr>m_segments = [], m_prefix = m_prefix d\<rparr>)"
    using s1 pre(2) unfolding change_VMS_def pos1 pos2
    by (simp add: Let_def empty_data_def)
  then show ?thesis
    using read ne unfolding g
    by (simp add: change_by_type_def segments_nonempty_def segments_into_def)
qed

text \<open>
  On MVS a path without prefix whose last segment ends in a closing parenthesis reads as a member of a
  dataset, which is a file.
\<close>

definition mvs_printable :: "path_data \<Rightarrow> bool" where
  "mvs_printable d \<longleftrightarrow> m_prefix d = None \<longrightarrow> last (last (m_segments d)) \<noteq> 41"

lemma last_print_segments:
  "ss \<noteq> [] \<Longrightarrow> last ss \<noteq> [] \<Longrightarrow> t \<noteq> VMS \<Longrightarrow> last (print_segments lib t np ss) = last (last ss)"
proof -
  assume ne: "ss \<noteq> []" "last ss \<noteq> []" and t: "t \<noteq> VMS"
  have "last (e @ concat (map (\<lambda>x. sep0 t # x) xs)) = last (last (e # xs))"
    if "last (e # xs) \<noteq> []" for e xs
    using that
  proof (induction xs arbitrary: e)
    case (Cons x xs)
    have "last (e @ concat (map (\<lambda>x. sep0 t # x) (x # xs))) = last (x @ concat (map (\<lambda>x. sep0 t # x) xs))"
      using Cons.prems by (cases xs) auto
    with Cons show ?case by simp
  qed simp
  from this [of "hd ss" "tl ss"] ne t show ?thesis
    by (cases ss) (auto simp: print_segments_def)
qed

lemma strip_quotes_id:
  "s \<noteq> [] \<Longrightarrow> hd s \<noteq> MVS_QUOTE \<Longrightarrow> last s \<noteq> MVS_QUOTE \<Longrightarrow> strip_quotes s = s"
  using dropWhile_eq_self_iff [of "\<lambda>c. c = MVS_QUOTE" s] dropWhile_eq_self_iff [of "\<lambda>c. c = MVS_QUOTE" "rev s"]
  by (simp add: strip_quotes_def hd_rev)

lemma read_MVS_general:
  assumes "replace_substrings_char lib" "wf_data MVS d"
  shows "change_by_type MVS empty_data True (GetPath lib \<lparr>m_data = Some d, m_type = MVS\<rparr>) False =
    (if mvs_printable d then Some (d, []) else None)"
proof -
  let ?s = "print_segments lib MVS (m_prefix d = None) (m_segments d)"
  define i where "i = ?s @ prefix_str d"
  have ok: "segs_ok MVS d" and ne: "m_segments d \<noteq> []" using assms(2) by (auto simp: wf_data_def)
  have s: "GetPath lib \<lparr>m_data = Some d, m_type = MVS\<rparr> = 39 # i @ [39]"
    by (auto simp: GetPath_def enclosure_def i_def)
  have s1: "?s \<noteq> []" using print_segments_nonempty [OF ok ne assms(1)] .
  have lastseg: "last (m_segments d) \<noteq> []" "last (last (m_segments d)) \<noteq> 46"
    using ok ne last_in_set [of "m_segments d"] last_in_set [of "last (m_segments d)"]
    by (fastforce simp: segs_ok_def seg_ok_def)+
  have pre: "m_prefix d = None \<and> prefix_str d = [] \<or> m_prefix d = Some [46] \<and> prefix_str d = [46]"
    using assms(2) by (auto simp: wf_data_def prefix_ok_def prefix_str_def)
  have last: "last i = (if m_prefix d = None then last (last (m_segments d)) else 46)"
    unfolding i_def using pre last_print_segments [OF ne lastseg(1), of MVS lib] s1 by auto
  have "pieces (IsSeparator MVS) i = pieces (IsSeparator MVS) ?s"
    unfolding i_def using pre by (auto simp: pieces_snoc_sep)
  then have read: "Segmentize MVS i [] = Some (m_segments d)"
    using assms by (intro print_read) (auto simp: wf_data_def)
  have strip: "strip_quotes (39 # i @ [39]) = 39 # i @ [39]"
    by (rule strip_quotes_id) (simp_all add: MVS_QUOTE_def)
  have unquote: "mvs_unquote empty_data True (39 # i @ [39]) = Some (empty_data, i)"
    by (simp add: mvs_unquote_def at_def substr_def empty_data_def)
  have i: "i \<noteq> []" "last i = 41 \<longleftrightarrow> \<not> mvs_printable d" using s1 last by (auto simp: mvs_printable_def i_def)
  have plain: "mvs_plain empty_data True i False = Some (empty_data\<lparr>m_prefix := m_prefix d\<rparr>, i, [])"
    using pre last lastseg(2) i(1) by (auto simp: mvs_plain_def)
  show ?thesis
    using read i plain unfolding s
    by (simp add: change_by_type_def change_MVS_def strip unquote segments_into_def mvs_member_def)
      (simp add: empty_data_def)
qed

lemma read_MVS:
  assumes "replace_substrings_char lib" "wf_data MVS d" "mvs_printable d"
  shows "change_by_type MVS empty_data True (GetPath lib \<lparr>m_data = Some d, m_type = MVS\<rparr>) False = Some (d, [])"
  using read_MVS_general [OF assms(1,2)] assms(3) by simp

lemma path_of_fails:
  assumes "t \<noteq> DEFAULT" "change_by_type t empty_data True s False = None"
  shows "path_empty (path_of s t)"
  using assms by (auto simp: path_of_def SetPath_def ChangePath_def DoChangePath_def path_empty_def get_data_def clear_path_def Let_def)

lemma GetPath_nonempty:
  assumes "replace_substrings_char lib" "wf_path p" "\<not> path_empty p"
  shows "GetPath lib p \<noteq> []"
proof -
  obtain d where p: "p = \<lparr>m_data = Some d, m_type = m_type p\<rparr>" using assms(3) by (cases p) (auto simp: path_empty_def)
  then have "m_data p = Some d" by (metis server_path.select_convs(1))
  then have w: "wf_data (m_type p) d" using assms(2) by (simp add: wf_path_def)
  have "GetPath lib \<lparr>m_data = Some d, m_type = m_type p\<rparr> \<noteq> []"
    using w print_segments_nonempty [OF _ _ assms(1), of "m_type p" d "m_prefix d = None"]
    by (cases "m_segments d = []")
      (cases "m_type p"; auto simp: wf_data_def prefix_ok_def GetPath_def prefix_str_def print_segments_def enclosure_def split: option.splits)+
  then show ?thesis using p by metis
qed

lemma path_roundtrip_aux:
  assumes lib: "replace_substrings_char lib" and wf: "wf_path p" and nd: "m_type p \<noteq> DEFAULT"
    and d: "m_data p = Some d" and mvs: "m_type p = MVS \<longrightarrow> mvs_printable d"
  shows "path_of (GetPath lib p) (m_type p) = p"
proof -
  have p: "p = \<lparr>m_data = Some d, m_type = m_type p\<rparr>" using d by (cases p) auto
  have w: "wf_data (m_type p) d" using wf d by (simp add: wf_path_def)
  have read: "change_by_type (m_type p) empty_data True (GetPath lib \<lparr>m_data = Some d, m_type = m_type p\<rparr>) False = Some (d, [])"
    using w nd mvs read_root [OF lib, of "m_type p" d] read_HPNONSTOP [OF lib, of d] read_DOS [OF lib, of "m_type p" d]
      read_CYGWIN [OF lib, of d] read_VXWORKS [OF lib, of d] read_VMS [OF lib, of d] read_MVS [OF lib, of d]
    by (cases "m_type p") auto
  have "GetPath lib \<lparr>m_data = Some d, m_type = m_type p\<rparr> \<noteq> []"
    using GetPath_nonempty [OF lib wf] p d by (metis path_empty_def option.distinct(1))
  from path_of_eq [OF nd this read] w have
    "path_of (GetPath lib \<lparr>m_data = Some d, m_type = m_type p\<rparr>) (m_type p) = \<lparr>m_data = Some d, m_type = m_type p\<rparr>"
    by (simp add: wf_data_def)
  then show ?thesis using p by metis
qed

lemma path_roundtrip_iff:
  assumes lib: "replace_substrings_char lib" and wf: "wf_path p" and nd: "m_type p \<noteq> DEFAULT" and ne: "\<not> path_empty p"
  shows "path_of (GetPath lib p) (m_type p) = p \<longleftrightarrow> \<not> (m_type p = MVS \<and> \<not> mvs_printable (get_data p))"
proof -
  obtain d where d: "m_data p = Some d" using ne by (auto simp: path_empty_def)
  have "path_of (GetPath lib p) (m_type p) \<noteq> p" if "m_type p = MVS" "\<not> mvs_printable d"
  proof -
    have "p = \<lparr>m_data = Some d, m_type = MVS\<rparr>" using d that(1) by (cases p) auto
    moreover have "wf_data MVS d" using wf d that(1) by (simp add: wf_path_def)
    ultimately have "change_by_type MVS empty_data True (GetPath lib p) False = None"
      using read_MVS_general [OF lib, of d] that(2) by simp
    then have "path_empty (path_of (GetPath lib p) MVS)" by (intro path_of_fails) simp_all
    then show ?thesis using ne that(1) by auto
  qed
  then show ?thesis using path_roundtrip_aux [OF lib wf nd d] d by (cases "mvs_printable d") (auto simp: get_data_def)
qed

text \<open>
  C2: what \<^verbatim>\<open>GetPath\<close> prints for a well-formed path that has segments or a root, of every server type but the
  placeholder \<^verbatim>\<open>DEFAULT\<close>, is read back by \<^verbatim>\<open>CServerPath(path, type)\<close> as the same path: escaping of separators, drive
  letters, device prefixes and MVS or VMS enclosures included. There is one exception, and the theorem says exactly when it occurs:
  on MVS a path without prefix whose last segment ends in a closing parenthesis is not read back.
\<close>

theorem path_roundtrip:
  assumes "replace_substrings_char lib" "wf_path p" "m_type p \<noteq> DEFAULT" "\<not> path_empty p"
  shows "path_of (GetPath lib p) (m_type p) = p \<longleftrightarrow>
    \<not> (m_type p = MVS \<and> m_prefix (get_data p) = None \<and> last (last (segments_of p)) = 41)"
  using path_roundtrip_iff [OF assms] assms(4) by (auto simp: mvs_printable_def segments_of_def get_data_def path_empty_def split: option.splits)

definition vms_example :: server_path where
  "vms_example = \<lparr>m_data = Some \<lparr>m_segments = [L ''a.b'', L ''c''], m_prefix = Some (L ''DISK:'')\<rparr>, m_type = VMS\<rparr>"

definition member_example :: server_path where
  "member_example = \<lparr>m_data = Some \<lparr>m_segments = [L ''A'', L ''B)''], m_prefix = None\<rparr>, m_type = MVS\<rparr>"

theorem path_roundtrip_witness:
  "path_of (GetPath ascii_lib vms_example) (m_type vms_example) = vms_example \<and>
   path_of (GetPath ascii_lib member_example) (m_type member_example) \<noteq> member_example"
  using path_roundtrip [of ascii_lib vms_example] path_roundtrip [of ascii_lib member_example]
  by (simp add: vms_example_def member_example_def wf_path_def wf_data_def segs_ok_def seg_ok_def prefix_ok_def path_empty_def
      get_data_def segments_of_def)

end
