(* ===== verification/Safe_Path.thy ===== *)
theory Safe_Path
  imports Path_Roundtrip
begin

text \<open>
  The storage format of paths: \<^verbatim>\<open>SetSafePath\<close> reads what \<^verbatim>\<open>GetSafePath\<close> wrote, and the buffer
  that \<^verbatim>\<open>GetSafePath\<close> allocates is large enough.
\<close>

subsection \<open>The storage format is read back\<close>

definition digits_val :: "nat \<Rightarrow> wstring \<Rightarrow> nat" where
  "digits_val acc ds = foldl (\<lambda>a c. a * 10 + (c - 48)) acc ds"

lemma rev_digits_digit: "\<forall>c\<in>set (rev_digits n). 48 \<le> c \<and> c \<le> 57"
proof (induction n rule: rev_digits.induct)
  case (1 n)
  have "n mod 10 \<le> 9" by (rule less_Suc_eq_le [THEN iffD1]) simp
  with 1 show ?case by (auto simp: rev_digits.simps [of n])
qed

lemma rev_digits_nonempty [simp]: "rev_digits n \<noteq> []"
  by (simp add: rev_digits.simps)

lemma digits_val_rev_digits: "digits_val 0 (rev (rev_digits n)) = n"
proof (induction n rule: rev_digits.induct)
  case (1 n)
  show ?case
  proof (cases "n div 10 > 0")
    case True
    with 1 show ?thesis by (simp add: rev_digits.simps [of n] digits_val_def)
  next
    case False
    then show ?thesis by (simp add: rev_digits.simps [of n] digits_val_def)
  qed
qed

lemma digits_val_mono: "acc \<le> digits_val acc ds"
proof (induction ds arbitrary: acc)
  case (Cons d ds)
  have "acc \<le> acc * 10 + (d - 48)" by simp
  also have "\<dots> \<le> digits_val (acc * 10 + (d - 48)) ds" by (rule Cons.IH)
  finally show ?case by (simp add: digits_val_def)
qed (simp add: digits_val_def)

lemma scan_num_digits:
  assumes "ds \<noteq> []" "\<forall>c\<in>set ds. 48 \<le> c \<and> c \<le> 57" "digits_val acc ds \<le> lim"
    "at rest 0 = 32 \<or> (stop0 \<and> at rest 0 = 0)"
  shows "scan_num lim stop0 acc (ds @ rest) = Some (digits_val acc ds, rest)"
  using assms(1-3)
proof (induction ds arbitrary: acc)
  case (Cons d ds)
  let ?n = "acc * 10 + (d - 48)"
  have val: "digits_val acc (d # ds) = digits_val ?n ds" by (simp add: digits_val_def)
  then have n: "?n \<le> lim" using Cons.prems(3) digits_val_mono [of ?n ds] by simp
  show ?case
  proof (cases ds)
    case Nil
    with Cons.prems(2) n assms(4) show ?thesis by (auto simp: digits_val_def Let_def)
  next
    case (Cons e es)
    then have "at (ds @ rest) 0 = e" "48 \<le> e" using Cons.prems(2) by (auto simp: at_def)
    then have "scan_num lim stop0 acc ((d # ds) @ rest) = scan_num lim stop0 ?n (ds @ rest)"
      using Cons.prems(2) n by (auto simp: Let_def)
    with Cons Cons.IH [of ?n] Cons.prems val show ?thesis by simp
  qed
qed simp

lemma scan_num_sprint:
  assumes "n \<le> lim" "at rest 0 = 32 \<or> (stop0 \<and> at rest 0 = 0)"
  shows "scan_num lim stop0 0 (fast_sprint_number n @ rest) = Some (n, rest)"
  using scan_num_digits [of "rev (rev_digits n)" 0 lim rest stop0] assms rev_digits_digit [of n]
  by (simp add: fast_sprint_number_def digits_val_rev_digits)

lemma wcs_copied_id [simp]: "0 \<notin> set s \<Longrightarrow> wcs_copied s = s"
  by (simp add: wcs_copied_def)

lemma length_wcs_copied [simp]: "length (wcs_copied s) = length s"
  by (simp add: wcs_copied_def cstr_def length_takeWhile_le)

text \<open>A string that the storage format can hold: not empty, not too long, and without zeros.\<close>

definition storable :: "wstring \<Rightarrow> bool" where
  "storable s \<longleftrightarrow> s \<noteq> [] \<and> length s \<le> 32767 \<and> 0 \<notin> set s"

definition storable_path :: "server_path \<Rightarrow> bool" where
  "storable_path p =
     (case m_data p of
        None \<Rightarrow> False
      | Some d \<Rightarrow> (\<forall>s\<in>set (m_segments d). storable s) \<and> (case m_prefix d of None \<Rightarrow> True | Some s \<Rightarrow> storable s))"

lemma scan_segments_read:
  assumes "\<forall>s\<in>set ss. storable s"
  shows "scan_segments (drop 1 (concat (map safe_segment ss))) acc = Some (acc @ ss)"
  using assms
proof (induction ss arbitrary: acc)
  case Nil
  then show ?case by (simp add: scan_segments.simps)
next
  case (Cons s ss)
  let ?rest = "concat (map safe_segment ss)"
  have s: "s \<noteq> []" "length s \<le> 32767" "0 \<notin> set s" using Cons.prems by (auto simp: storable_def)
  have whole: "drop 1 (concat (map safe_segment (s # ss))) = fast_sprint_number (length s) @ 32 # s @ ?rest"
    using s(3) by (simp add: safe_segment_def)
  have scan: "scan_num 32767 False 0 (fast_sprint_number (length s) @ 32 # s @ ?rest) = Some (length s, 32 # s @ ?rest)"
    using s(2) by (intro scan_num_sprint) (auto simp: at_def)
  have ne: "fast_sprint_number (length s) @ 32 # s @ ?rest \<noteq> []" by simp
  have "scan_segments (drop 1 (concat (map safe_segment (s # ss)))) acc = scan_segments (drop 1 ?rest) (acc @ [s])"
    unfolding whole scan_segments.simps [of "fast_sprint_number (length s) @ 32 # s @ ?rest"] scan
    using s(1) by simp
  with Cons show ?case by simp
qed

lemma safe_path_read:
  assumes d: "m_data p = Some d" and st: "storable_path p"
  shows "SetSafePath q (GetSafePath p) = (True, p)"
proof -
  let ?segs = "concat (map safe_segment (m_segments d))"
  let ?pre = "case m_prefix d of Some s \<Rightarrow> 32 # wcs_copied s | None \<Rightarrow> []"
  let ?tail = "fast_sprint_number (length (prefix_str d)) @ ?pre @ ?segs"
  have ok: "\<forall>s\<in>set (m_segments d). storable s" and pok: "\<And>s. m_prefix d = Some s \<Longrightarrow> storable s"
    using st d by (auto simp: storable_path_def)
  have type: "scan_num 10 False 0 (GetSafePath p) = Some (type_num (m_type p), 32 # ?tail)"
    using d type_num_less [of "m_type p"] scan_num_sprint [of "type_num (m_type p)" 10 "32 # ?tail" False]
    by (simp add: GetSafePath_def SERVERTYPE_MAX_def at_def)
  have first: "m_segments d \<noteq> [] \<Longrightarrow> at ?segs 0 = 32 \<and> ?segs \<noteq> []"
    by (cases "m_segments d") (auto simp: safe_segment_def at_def)
  have len: "length (prefix_str d) \<le> 32767"
    using pok by (auto simp: prefix_str_def storable_def split: option.splits)
  have pre_scan: "scan_num 32767 True 0 ?tail = Some (length (prefix_str d), ?pre @ ?segs)"
  proof (rule scan_num_sprint [OF len])
    show "at (?pre @ ?segs) 0 = 32 \<or> True \<and> at (?pre @ ?segs) 0 = 0"
      using first by (cases "m_prefix d"; cases "m_segments d") (auto simp: at_def)
  qed
  have "m_segments d = [] \<Longrightarrow> ?segs = []" by simp
  have read: "scan_segments (drop 1 ?segs) [] = Some (m_segments d)"
    using scan_segments_read [OF ok, of "[]"] by simp
  show ?thesis
  proof (cases "m_prefix d")
    case None
    then have p0: "prefix_str d = []" by (simp add: prefix_str_def)
    show ?thesis
    proof (cases "m_segments d = []")
      case True
      then have "p = \<lparr>m_data = Some empty_data, m_type = m_type p\<rparr>"
        using None d by (cases p) (auto simp: empty_data_def)
      with None True pre_scan type p0 show ?thesis
        by (cases q) (simp add: SetSafePath_def DoSetSafePath_def Let_def at_def)
    next
      case False
      have "p = \<lparr>m_data = Some \<lparr>m_segments = m_segments d, m_prefix = None\<rparr>, m_type = m_type p\<rparr>"
        using None d by (cases p) auto
      with None False first pre_scan type p0 read show ?thesis
        by (cases q) (simp add: SetSafePath_def DoSetSafePath_def Let_def)
    qed
  next
    case (Some s)
    then have p0: "prefix_str d = s" and s: "s \<noteq> []" "0 \<notin> set s"
      using pok by (auto simp: prefix_str_def storable_def)
    have "p = \<lparr>m_data = Some \<lparr>m_segments = m_segments d, m_prefix = Some s\<rparr>, m_type = m_type p\<rparr>"
      using Some d by (cases p) auto
    moreover have "scan_segments (drop (Suc (length s)) (s @ ?segs)) [] = Some (m_segments d)"
      using read by simp
    ultimately show ?thesis
      using Some pre_scan type p0 s
      by (cases q) (simp add: SetSafePath_def DoSetSafePath_def Let_def at_def)
  qed
qed

subsection \<open>The buffers of the storage format\<close>

lemma length_rev_digits: "n < 10 ^ k \<Longrightarrow> 0 < k \<Longrightarrow> length (rev_digits n) \<le> k"
proof (induction n arbitrary: k rule: rev_digits.induct)
  case (1 n)
  obtain j where k: "k = Suc j" using 1(3) by (cases k) auto
  show ?case
  proof (cases "n div 10 > 0")
    case True
    have "n div 10 < 10 ^ j" using 1(2) k by (simp add: less_mult_imp_div_less mult.commute)
    moreover have "0 < j" using True calculation by (cases j) auto
    ultimately show ?thesis using 1(1) [OF True, of j] True k by (simp add: rev_digits.simps [of n])
  next
    case False
    with k show ?thesis by (simp add: rev_digits.simps [of n])
  qed
qed

lemma length_sprint: "n < 2 ^ 64 \<Longrightarrow> length (fast_sprint_number n) \<le> 20"
  using length_rev_digits [of n 20] by (simp add: fast_sprint_number_def)

lemma length_sprint_type: "length (fast_sprint_number (type_num t)) \<le> 2"
  using length_rev_digits [of "type_num t" 2] type_num_less [of t]
  by (simp add: fast_sprint_number_def SERVERTYPE_MAX_def)

lemma length_safe_segment: "length s < 2 ^ 64 \<Longrightarrow> length (safe_segment s) \<le> length s + 2 + 20"
  using length_sprint [of "length s"] by (simp add: safe_segment_def)

lemma length_safe_segments:
  "\<forall>s\<in>set ss. length s < 2 ^ 64 \<Longrightarrow>
     length (concat (map safe_segment ss)) \<le> sum_list (map (\<lambda>s. length s + 2 + 20) ss)"
proof (induction ss)
  case (Cons s ss)
  then show ?case using length_safe_segment [of s] by simp
qed simp

lemma safe_path_fits:
  assumes "m_data p = Some d" "\<forall>s\<in>set (m_segments d). length s < 2 ^ 64" "length (prefix_str d) < 2 ^ 64"
  shows "length (GetSafePath p) + 1 \<le> safe_path_buffer d"
proof -
  have "length (case m_prefix d of Some s \<Rightarrow> 32 # wcs_copied s | None \<Rightarrow> []) \<le> 1 + length (prefix_str d)"
    by (auto simp: prefix_str_def split: option.splits)
  with length_safe_segments [OF assms(2)] length_sprint_type [of "m_type p"] length_sprint [OF assms(3)]
  show ?thesis by (simp add: GetSafePath_def safe_path_buffer_def assms(1))
qed

text \<open>
  C11: the storage format of site manager and queue: what \<^verbatim>\<open>GetSafePath\<close> writes is read back by
  \<^verbatim>\<open>SetSafePath\<close> as the same path, whatever the old value of the object, for every path whose
  prefix and segments are not empty, have no zeros and are within the length limit of the reader.
\<close>

theorem safe_path_roundtrip:
  assumes "storable_path p"
  shows "SetSafePath q (GetSafePath p) = (True, p)"
  using safe_path_read [OF _ assms, of _ q] assms by (cases "m_data p") (auto simp: storable_path_def)

theorem safe_path_roundtrip_witness:
  "SetSafePath empty_path (GetSafePath vms_example) = (True, vms_example)"
  by (rule safe_path_roundtrip) (simp add: storable_path_def storable_def vms_example_def)

text \<open>
  C21: \<^verbatim>\<open>GetSafePath\<close> writes the path with a terminating zero into a buffer it sized before: the
  text and its zero never exceed the buffer, for all sizes that fit 64 bits.
\<close>

theorem safe_path_buffer_bound:
  assumes "m_data p = Some d" "\<forall>s\<in>set (m_segments d). length s < 2 ^ 64" "length (prefix_str d) < 2 ^ 64"
  shows "length (GetSafePath p) + 1 \<le> safe_path_buffer d"
  by (rule safe_path_fits [OF assms])

theorem safe_path_buffer_bound_witness:
  "length (GetSafePath vms_example) + 1 \<le> safe_path_buffer (get_data vms_example)"
  by (rule safe_path_buffer_bound) (simp_all add: vms_example_def get_data_def prefix_str_def)

end
