(* ===== verification/Path_Order.thy ===== *)
theory Path_Order
  imports Server_Path_Props
begin

text \<open>
  Comparison of paths: equality, the order used in maps and sets, and the ancestors of a path.
\<close>

subsection \<open>Equality and order\<close>

lemma path_eq_iff: "path_eq p q \<longleftrightarrow> p = q"
  by (cases p; cases q) (auto simp: path_eq_def path_empty_def)

lemma segments_less_iff: "segments_less xs ys \<longleftrightarrow> map cstr xs < map cstr ys"
proof (induction xs ys rule: segments_less.induct)
  case (1 ys) then show ?case by (cases ys) auto
qed auto

text \<open>The order without the shortcuts of the code: by prefix, type and segments.\<close>

definition data_less :: "'a fzlib_scheme \<Rightarrow> server_type \<times> path_data \<Rightarrow> server_type \<times> path_data \<Rightarrow> bool" where
  "data_less lib x y \<longleftrightarrow>
     opt_less lib (m_prefix (snd x)) (m_prefix (snd y)) \<or>
     m_prefix (snd x) = m_prefix (snd y) \<and>
     (fst x, map cstr (m_segments (snd x))) < (fst y, map cstr (m_segments (snd y)))"

lemma path_less_iff:
  assumes "opt_less_total lib"
  shows "path_less lib p q \<longleftrightarrow>
    (case (m_data p, m_data q) of
       (None, Some _) \<Rightarrow> True
     | (Some l, Some r) \<Rightarrow> data_less lib (m_type p, l) (m_type q, r)
     | _ \<Rightarrow> False)"
proof -
  have irr: "\<not> opt_less lib a a" for a using assms by (auto simp: opt_less_total_def)
  have tot: "opt_less lib a b \<or> opt_less lib b a \<or> a = b" for a b
    using assms unfolding opt_less_total_def by blast
  have asym: "opt_less lib a b \<Longrightarrow> \<not> opt_less lib b a" for a b
    using assms unfolding opt_less_total_def by blast
  show ?thesis
  proof (cases "m_data p"; cases "m_data q")
    fix l r
    assume "m_data p = Some l" "m_data q = Some r"
    then show ?thesis
      using irr tot [of "m_prefix l" "m_prefix r"] asym [of "m_prefix l" "m_prefix r"]
      by (auto simp: path_less_def data_less_def segments_less_iff)
  qed (auto simp: path_less_def path_empty_def)
qed

lemma data_less_trans:
  assumes "opt_less_total lib" "data_less lib x y" "data_less lib y z"
  shows "data_less lib x z"
proof -
  have tr: "opt_less lib a b \<Longrightarrow> opt_less lib b c \<Longrightarrow> opt_less lib a c" for a b c
    using assms(1) unfolding opt_less_total_def by blast
  let ?k = "\<lambda>x. (fst x, map cstr (m_segments (snd x)))"
  have "?k x < ?k y \<Longrightarrow> ?k y < ?k z \<Longrightarrow> ?k x < ?k z" by (rule order.strict_trans)
  then show ?thesis
    using assms(2,3) tr [of "m_prefix (snd x)" "m_prefix (snd y)" "m_prefix (snd z)"]
    unfolding data_less_def by auto
qed

lemma data_eqv:
  assumes "opt_less_total lib" "\<not> data_less lib x y" "\<not> data_less lib y x"
  shows "fst x = fst y \<and> m_prefix (snd x) = m_prefix (snd y) \<and>
    map cstr (m_segments (snd x)) = map cstr (m_segments (snd y))"
proof -
  let ?k = "\<lambda>x. (fst x, map cstr (m_segments (snd x)))"
  have "m_prefix (snd x) = m_prefix (snd y)"
    using assms unfolding opt_less_total_def data_less_def by blast
  moreover have "?k x = ?k y"
    using assms(2,3) calculation by (intro antisym_conv3 [THEN iffD1]) (auto simp only: data_less_def)
  ultimately show ?thesis by simp
qed

definition path_key :: "server_path \<Rightarrow> (server_type \<times> wstring option \<times> wstring list) option" where
  "path_key p = map_option (\<lambda>d. (m_type p, m_prefix d, map cstr (m_segments d))) (m_data p)"

lemma path_eqv:
  assumes "opt_less_total lib"
  shows "eqv (path_less lib) p q \<longleftrightarrow> path_key p = path_key q"
proof (cases "m_data p"; cases "m_data q")
  fix l r
  assume dd: "m_data p = Some l" "m_data q = Some r"
  let ?x = "(m_type p, l)" and ?y = "(m_type q, r)"
  have irr: "\<not> opt_less lib a a" for a using assms unfolding opt_less_total_def by blast
  have "path_key p = path_key q \<longleftrightarrow> m_type p = m_type q \<and> m_prefix l = m_prefix r \<and>
      map cstr (m_segments l) = map cstr (m_segments r)"
    by (simp only: path_key_def dd option.map option.inject prod.inject)
  moreover have "eqv (path_less lib) p q \<longleftrightarrow> \<not> data_less lib ?x ?y \<and> \<not> data_less lib ?y ?x"
    by (simp add: eqv_def path_less_iff [OF assms] dd)
  moreover have "\<not> data_less lib ?x ?y \<and> \<not> data_less lib ?y ?x"
    if "m_type p = m_type q" "m_prefix l = m_prefix r" "map cstr (m_segments l) = map cstr (m_segments r)"
    unfolding data_less_def fst_conv snd_conv that using irr by blast
  ultimately show ?thesis using data_eqv [OF assms, of ?x ?y] unfolding fst_conv snd_conv by blast
qed (auto simp: eqv_def path_less_iff [OF assms] path_key_def)

lemma path_less_strict_weak: "opt_less_total lib \<Longrightarrow> strict_weak (path_less lib)"
proof (unfold_locales)
  assume lib: "opt_less_total lib"
  show "\<not> path_less lib a a" for a
    using path_eqv [OF lib, of a a] by (simp add: eqv_def)
  show "path_less lib a b \<Longrightarrow> path_less lib b c \<Longrightarrow> path_less lib a c" for a b c
    using data_less_trans [OF lib, of "(m_type a, x)" "(m_type b, y)" "(m_type c, z)" for x y z]
    by (simp add: path_less_iff [OF lib] split: option.splits)
  show "eqv (path_less lib) a b \<Longrightarrow> eqv (path_less lib) b c \<Longrightarrow> eqv (path_less lib) a c" for a b c
    by (simp add: path_eqv [OF lib])
qed

text \<open>Paths without zeros that are not empty are equivalent in the order only if they are equal.\<close>

definition no_zeros :: "server_path \<Rightarrow> bool" where
  "no_zeros p \<longleftrightarrow> (\<forall>s\<in>set (segments_of p). 0 \<notin> set s)"

lemma path_key_inj:
  assumes "no_zeros p" "no_zeros q" "\<not> path_empty p" "path_key p = path_key q"
  shows "p = q"
proof -
  obtain l where l: "m_data p = Some l" using assms(3) by (auto simp: path_empty_def)
  then obtain r where r: "m_data q = Some r" using assms(4) by (cases "m_data q") (auto simp: path_key_def)
  have "map cstr (m_segments l) = m_segments l" "map cstr (m_segments r) = m_segments r"
    using assms(1,2) l r by (auto simp: no_zeros_def segments_of_def intro!: map_idI)
  with assms(4) l r show ?thesis
    by (cases p; cases q; cases l; cases r) (auto simp: path_key_def)
qed

text \<open>The paths that the caches use as keys.\<close>

definition key_ok :: "server_path \<Rightarrow> bool" where
  "key_ok p \<longleftrightarrow> \<not> path_empty p \<and> no_zeros p"

lemma key_ok_eqv: "opt_less_total lib \<Longrightarrow> key_ok p \<Longrightarrow> key_ok q \<Longrightarrow> eqv (path_less lib) p q \<Longrightarrow> p = q"
  using path_eqv [of lib p q] path_key_inj [of p q] by (simp add: key_ok_def)

subsection \<open>Ancestors\<close>

definition seg_match :: "'a fzlib_scheme \<Rightarrow> bool \<Rightarrow> wstring \<Rightarrow> wstring \<Rightarrow> bool" where
  "seg_match lib nocase x y \<longleftrightarrow> (if nocase then stricmp lib x y = 0 else x = y)"

lemma subdir_loop_iff:
  "subdir_loop lib nc eq xs ys \<longleftrightarrow>
     length ys + (if eq then 0 else 1) \<le> length xs \<and> list_all2 (seg_match lib nc) (take (length ys) xs) ys"
  by (induction lib nc eq xs ys rule: subdir_loop.induct) (auto simp: seg_match_def)

lemma seg_match_exact: "seg_match lib False = (=)"
  by (auto simp: seg_match_def fun_eq_iff)

lemma subdir_loop_exact:
  "subdir_loop lib False False xs ys \<longleftrightarrow> strict_prefix ys xs"
proof -
  have "length ys < length xs \<and> take (length ys) xs = ys \<longleftrightarrow> strict_prefix ys xs"
    by (metis append_eq_conv_conj prefix_def prefix_length_less strict_prefix_def
        append_take_drop_id less_irrefl prefix_order.less_imp_le)
  then show ?thesis by (simp add: subdir_loop_iff seg_match_exact list.rel_eq Suc_le_eq)
qed

lemma seg_match_trans:
  "stricmp_equivalence lib \<or> \<not> nc \<Longrightarrow> seg_match lib nc x y \<Longrightarrow> seg_match lib nc y z \<Longrightarrow> seg_match lib nc x z"
  by (auto simp: seg_match_def dest: stricmp_trans split: if_splits)

lemma subdir_loop_trans:
  assumes "stricmp_equivalence lib \<or> \<not> nc" "subdir_loop lib nc e1 xs ys" "subdir_loop lib nc e2 ys zs"
  shows "subdir_loop lib nc (e1 \<and> e2) xs zs"
proof -
  let ?m = "seg_match lib nc" and ?k = "length zs"
  have len: "length zs \<le> length ys"
    and xy: "list_all2 ?m (take (length ys) xs) ys" and yz: "list_all2 ?m (take ?k ys) zs"
    using assms(2,3) by (auto simp: subdir_loop_iff split: if_splits)
  have "list_all2 ?m (take ?k (take (length ys) xs)) (take ?k ys)"
    using xy by (rule list_all2_takeI)
  moreover have "take ?k (take (length ys) xs) = take ?k xs" using len by (simp add: min_def)
  ultimately have "list_all2 ?m (take ?k xs) zs"
    using yz list_all2_trans [of ?m ?m ?m] seg_match_trans [OF assms(1)] by metis
  with assms(2,3) show ?thesis by (auto simp: subdir_loop_iff split: if_splits)
qed

lemma prefix_matches_trans:
  "stricmp_equivalence lib \<or> \<not> nc \<Longrightarrow> prefix_matches lib nc a b \<Longrightarrow> prefix_matches lib nc b c \<Longrightarrow> prefix_matches lib nc a c"
  by (cases nc; cases a; cases b; cases c) (auto dest: stricmp_trans)

lemma IsSubdirOf_trans:
  assumes "stricmp_equivalence lib \<or> \<not> nc" "IsSubdirOf lib p q nc False" "IsSubdirOf lib q r nc False"
  shows "IsSubdirOf lib p r nc False"
proof -
  obtain a b c where d: "m_data p = Some a" "m_data q = Some b" "m_data r = Some c"
    using assms(2,3) by (auto simp: IsSubdirOf_def split: option.splits)
  show ?thesis
    using assms(2,3) d subdir_loop_trans [OF assms(1), of False "m_segments a" "m_segments b" False "m_segments c"]
      prefix_matches_trans [OF assms(1), of "m_prefix a" "m_prefix b" "m_prefix c"]
    by (auto simp: IsSubdirOf_def)
qed

lemma IsSubdirOf_length:
  "IsSubdirOf lib p q nc False \<Longrightarrow> SegmentCount q < SegmentCount p"
  by (auto simp: IsSubdirOf_def subdir_loop_iff SegmentCount_def segments_of_def split: option.splits)

lemma IsSubdirOf_exact:
  "IsSubdirOf lib p q False False \<longleftrightarrow>
     (\<exists>a b. m_data p = Some a \<and> m_data q = Some b \<and> m_type p = m_type q \<and> HasParent p \<and>
        (if prefixmode (traits (m_type p)) = 1 then m_prefix b \<noteq> None else m_prefix a = m_prefix b) \<and>
        strict_prefix (m_segments b) (m_segments a))"
  by (auto simp: IsSubdirOf_def subdir_loop_exact split: option.splits)

lemma prefixmode_MVS: "prefixmode (traits t) = (if t = MVS then 1 else 0)"
  by (cases t) auto

lemma GetParent_ancestor:
  assumes "HasParent p"
  shows "IsParentOf lib (GetParent p) p False False"
proof -
  obtain d where d: "m_data p = Some d" using assms by (auto simp: HasParent_def split: option.splits)
  have "m_segments d \<noteq> []" using assms d by (auto simp: HasParent_def split: if_splits)
  then have "strict_prefix (butlast (m_segments d)) (m_segments d)"
    by (metis append_butlast_last_id not_Cons_self2 prefixI prefix_order.less_le self_append_conv)
  with assms d show ?thesis
    by (auto simp: IsParentOf_def IsSubdirOf_exact GetParent_def MakeParent_def prefixmode_MVS)
qed

lemma GetParent_count: "HasParent p \<Longrightarrow> SegmentCount (GetParent p) + 1 = SegmentCount p"
  by (auto simp: GetParent_def MakeParent_def SegmentCount_def segments_of_def HasParent_def
      split: option.splits if_splits)

lemma GetParent_none: "\<not> HasParent p \<Longrightarrow> path_empty (GetParent p)"
  by (auto simp: GetParent_def MakeParent_def clear_path_def path_empty_def split: option.splits)

subsection \<open>Changing to the parent\<close>

lemma Segmentize_dotdot:
  assumes "has_dots (traits t)"
  shows "Segmentize t [46, 46] segs = Some (butlast segs)"
proof -
  have "\<not> IsSeparator t 46" using assms by (cases t) auto
  then have "find_idx (IsSeparator t) [46, 46] = None" by simp
  then show ?thesis
    using assms by (simp add: Segmentize_def segmentize_loop.simps SegmentizeAddSegment_def)
qed

lemma change_dotdot_root:
  assumes "has_dots (traits (m_type p))" "has_root (traits (m_type p))" "\<not> path_empty p"
  shows "change_dir p [46, 46] = (True, p\<lparr>m_data := Some ((get_data p)\<lparr>m_segments := butlast (segments_of p)\<rparr>)\<rparr>)"
proof -
  obtain d where d: "m_data p = Some d" using assms(3) by (auto simp: path_empty_def)
  have "change_by_type (m_type p) d False [46, 46] False = Some (d\<lparr>m_segments := butlast (m_segments d)\<rparr>, [])"
    using assms(1,2)
    by (cases "m_type p")
      (simp_all add: change_by_type_def change_default_def change_CYGWIN_def change_VXWORKS_def at_def
        extract_if_def segments_into_def Segmentize_dotdot)
  with d assms(2,3) show ?thesis
    by (simp add: change_dir_def ChangePath_def DoChangePath_def get_data_def segments_of_def)
qed

lemma change_dotdot_drive:
  assumes "has_dots (traits (m_type p))" "\<not> path_empty p" "\<not> has_root (traits (m_type p))"
  shows "change_dir p [46, 46] =
    (if HasParent p then (True, p\<lparr>m_data := Some ((get_data p)\<lparr>m_segments := butlast (segments_of p)\<rparr>)\<rparr>)
     else (False, clear_path p))"
proof -
  obtain d where d: "m_data p = Some d" using assms(2) by (auto simp: path_empty_def)
  have "HasParent p \<longleftrightarrow> butlast (m_segments d) \<noteq> []"
    using assms(3) d by (cases "m_segments d") (auto simp: HasParent_def)
  moreover have "change_by_type (m_type p) d False [46, 46] False = Some (d\<lparr>m_segments := butlast (m_segments d)\<rparr>, [])"
    using assms(1,3)
    by (cases "m_type p")
      (simp_all add: change_by_type_def change_DOS_def at_def extract_if_def segments_nonempty_def
        segments_into_def Segmentize_dotdot Let_def)
  ultimately show ?thesis
    using d assms(2,3) by (simp add: change_dir_def ChangePath_def DoChangePath_def get_data_def segments_of_def)
qed

lemma change_dotdot:
  assumes "has_dots (traits (m_type p))" "\<not> path_empty p"
  shows "change_dir p [46, 46] =
    (if HasParent p then (True, GetParent p)
     else if has_root (traits (m_type p)) then (True, p) else (False, clear_path p))"
proof (cases "HasParent p")
  case True
  obtain d where d: "m_data p = Some d" using assms(2) by (auto simp: path_empty_def)
  have "m_type p \<noteq> MVS" using assms(1) by auto
  then have "GetParent p = p\<lparr>m_data := Some ((get_data p)\<lparr>m_segments := butlast (segments_of p)\<rparr>)\<rparr>"
    using True d by (simp add: GetParent_def MakeParent_def get_data_def segments_of_def prefixmode_MVS)
  then show ?thesis
    using True change_dotdot_root [OF assms(1)] change_dotdot_drive [OF assms] assms(2)
    by (cases "has_root (traits (m_type p))") auto
next
  case False
  obtain d where d: "m_data p = Some d" using assms(2) by (auto simp: path_empty_def)
  have "has_root (traits (m_type p)) \<Longrightarrow> m_segments d = []"
    using False d by (simp add: HasParent_def)
  then show ?thesis
    using False d change_dotdot_root [OF assms(1) _ assms(2)] change_dotdot_drive [OF assms]
    by (cases p; cases d) (auto simp: get_data_def segments_of_def)
qed

text \<open>
  C18: the order of paths that \<^verbatim>\<open>std::map\<close> and \<^verbatim>\<open>std::set\<close> rely on is a strict weak order, and two
  paths without zeros in their segments, of which one at least is not empty, are equivalent in it exactly if
  \<^verbatim>\<open>operator==\<close> holds.
\<close>

theorem path_less_order:
  assumes "opt_less_total lib"
  shows "strict_weak (path_less lib) \<and>
    (\<forall>p q. \<not> (path_empty p \<and> path_empty q) \<longrightarrow> no_zeros p \<longrightarrow> no_zeros q \<longrightarrow>
       (path_eq p q \<longleftrightarrow> \<not> path_less lib p q \<and> \<not> path_less lib q p))"
proof -
  have sw: "strict_weak (path_less lib)" by (rule path_less_strict_weak [OF assms])
  then have irr: "\<not> path_less lib p p" for p by (simp add: strict_weak_def)
  have sym: "path_eq p q \<longleftrightarrow> path_eq q p" for p q by (auto simp: path_eq_iff)
  have one: "path_eq p q" if "\<not> path_empty p" "no_zeros p" "no_zeros q" "\<not> path_less lib p q" "\<not> path_less lib q p" for p q
    using that path_eqv [OF assms] path_key_inj path_eq_iff unfolding eqv_def by blast
  have "path_eq p q \<longleftrightarrow> \<not> path_less lib p q \<and> \<not> path_less lib q p"
    if "\<not> (path_empty p \<and> path_empty q)" "no_zeros p" "no_zeros q" for p q
    using that one [of p q] one [of q p] sym [of p q] irr [of p] by (auto simp: path_eq_iff)
  then show ?thesis using sw by blast
qed

theorem path_less_order_witness:
  "path_eq (path_of (L ''DISK:[a.b]'') VMS) (path_of (L ''DISK:[a.b]'') VMS) \<and>
   \<not> path_eq (path_of (L ''DISK:[a.b]'') VMS) (path_of (L ''[a.b]'') VMS)"
proof -
  have "\<not> path_empty (path_of (L ''DISK:[a.b]'') VMS)" "no_zeros (path_of (L ''DISK:[a.b]'') VMS)" "no_zeros (path_of (L ''[a.b]'') VMS)"
    "path_less ascii_lib (path_of (L ''[a.b]'') VMS) (path_of (L ''DISK:[a.b]'') VMS)"
    "\<not> path_less ascii_lib (path_of (L ''DISK:[a.b]'') VMS) (path_of (L ''DISK:[a.b]'') VMS)"
    by code_simp+
  then show ?thesis using path_less_order [OF ascii_lib_opt_less] by blast
qed

text \<open>
  C19: \<^verbatim>\<open>IsSubdirOf\<close> (without \<^verbatim>\<open>allowEqual\<close>) is a strict partial order for both ways to compare
  names, and \<^verbatim>\<open>GetParent\<close> is the immediate parent: it is an ancestor with one segment less.
\<close>

theorem subdir_order:
  assumes "stricmp_equivalence lib"
  shows "\<not> IsSubdirOf lib p p nc False \<and>
    (IsSubdirOf lib p q nc False \<and> IsSubdirOf lib q r nc False \<longrightarrow> IsSubdirOf lib p r nc False) \<and>
    (if HasParent p then IsSubdirOf lib p (GetParent p) False False \<and> SegmentCount (GetParent p) + 1 = SegmentCount p
     else path_empty (GetParent p))"
  using IsSubdirOf_length [of lib p p nc] IsSubdirOf_trans [of lib nc p q r] assms
    GetParent_ancestor [of p lib] GetParent_count [of p] GetParent_none [of p]
  by (auto simp: IsParentOf_def)

theorem subdir_order_witness:
  "IsSubdirOf ascii_lib (path_of (L ''/a/b/c'') UNIX) (path_of (L ''/A'') UNIX) True False"
proof -
  have "IsSubdirOf ascii_lib (path_of (L ''/a/b/c'') UNIX) (path_of (L ''/A/b'') UNIX) True False"
    "IsSubdirOf ascii_lib (path_of (L ''/A/b'') UNIX) (path_of (L ''/A'') UNIX) True False"
    by code_simp+
  then show ?thesis
    using subdir_order [OF ascii_lib_stricmp, of "path_of (L ''/a/b/c'') UNIX" True "path_of (L ''/A/b'') UNIX"
        "path_of (L ''/A'') UNIX"] by blast
qed

lemma has_dots_types: "has_dots (traits t) \<longleftrightarrow> t \<notin> {VMS, MVS, HPNONSTOP}"
  by (cases t) simp_all

text \<open>
  C20: on every server type but VMS, MVS and HPNONSTOP, where the two dots mean nothing, changing a non-empty path to
  \<^verbatim>\<open>..\<close> gives the parent; at the root it gives the root again, and at a drive, which has no root above, it
  fails and clears the path.
\<close>

theorem change_to_parent:
  assumes "m_type p \<notin> {VMS, MVS, HPNONSTOP}" "\<not> path_empty p"
  shows "change_dir p (L ''..'') =
    (if HasParent p then (True, GetParent p)
     else if has_root (traits (m_type p)) then (True, p) else (False, clear_path p))"
  using change_dotdot [OF _ assms(2)] assms(1) has_dots_types by simp

theorem change_to_parent_witness:
  "change_dir \<lparr>m_data = Some \<lparr>m_segments = [L ''C:'', L ''x''], m_prefix = None\<rparr>, m_type = DOS\<rparr> (L ''..'') =
     (True, \<lparr>m_data = Some \<lparr>m_segments = [L ''C:''], m_prefix = None\<rparr>, m_type = DOS\<rparr>)"
  using change_to_parent [of "\<lparr>m_data = Some \<lparr>m_segments = [L ''C:'', L ''x''], m_prefix = None\<rparr>, m_type = DOS\<rparr>"]
  by (simp add: path_empty_def HasParent_def GetParent_def MakeParent_def)

end
