(* ===== verification/Directory_Listing.thy ===== *)
theory Directory_Listing
  imports Path_Order "HOL-Library.Word"
begin

text \<open>
  Directory listings (\<^verbatim>\<open>include/directorylisting.h\<close>, \<^verbatim>\<open>engine/directorylisting.cpp\<close>): the
  entries, the flags, and the search maps that \<^verbatim>\<open>FindFile_CmpCase\<close> and \<^verbatim>\<open>FindFile_CmpNoCase\<close>
  build while they search. The shared values and optionals of the source have value semantics, so
  they are plain fields here. A time stamp (\<^verbatim>\<open>fz::datetime\<close>) is opaque: an integer that only the
  functions given as arguments look into.
\<close>

unbundle bit_operations_syntax

type_synonym flags = "32 word"

record direntry =
  de_name :: wstring
  de_size :: int
  de_permissions :: wstring
  de_ownerGroup :: wstring
  de_target :: "wstring option"
  de_time :: int
  de_flags :: flags

definition flag_dir :: flags where "flag_dir = 1"
definition flag_link :: flags where "flag_link = 2"
definition flag_unsure :: flags where "flag_unsure = 4"

definition empty_direntry :: direntry where
  "empty_direntry =
     \<lparr>de_name = [], de_size = -1, de_permissions = [], de_ownerGroup = [], de_target = None,
      de_time = 0, de_flags = 0\<rparr>"

definition is_dir :: "direntry \<Rightarrow> bool" where
  "is_dir e \<longleftrightarrow> de_flags e AND flag_dir \<noteq> 0"

definition is_link :: "direntry \<Rightarrow> bool" where
  "is_link e \<longleftrightarrow> de_flags e AND flag_link \<noteq> 0"

definition is_unsure :: "direntry \<Rightarrow> bool" where
  "is_unsure e \<longleftrightarrow> de_flags e AND flag_unsure \<noteq> 0"

text \<open>\<^verbatim>\<open>CDirentry::operator==\<close>, given \<^verbatim>\<open>datetime::empty\<close> and \<^verbatim>\<open>datetime::operator!=\<close>.\<close>

definition direntry_eq :: "(int \<Rightarrow> bool) \<Rightarrow> (int \<Rightarrow> int \<Rightarrow> bool) \<Rightarrow> direntry \<Rightarrow> direntry \<Rightarrow> bool" where
  "direntry_eq time_empty time_ne a b =
     (if de_name a \<noteq> de_name b then False
      else if de_size a \<noteq> de_size b then False
      else if de_permissions a \<noteq> de_permissions b then False
      else if de_ownerGroup a \<noteq> de_ownerGroup b then False
      else if de_flags a \<noteq> de_flags b then False
      else if \<not> time_empty (de_time a) \<and> time_ne (de_time a) (de_time b) then False
      else True)"

subsection \<open>Listings\<close>

type_synonym searchmap = "(wstring \<times> nat) list"

record listing =
  ls_path :: server_path
  ls_firstListTime :: int
  ls_entries :: "direntry list"
  ls_searchmap_case :: "searchmap option"
  ls_searchmap_nocase :: "searchmap option"
  ls_flags :: flags

definition empty_listing :: listing where
  "empty_listing =
     \<lparr>ls_path = empty_path, ls_firstListTime = 0, ls_entries = [], ls_searchmap_case = None,
      ls_searchmap_nocase = None, ls_flags = 0\<rparr>"

definition unsure_file_added :: flags where "unsure_file_added = 0x01"
definition unsure_file_removed :: flags where "unsure_file_removed = 0x02"
definition unsure_file_changed :: flags where "unsure_file_changed = 0x04"
definition unsure_dir_added :: flags where "unsure_dir_added = 0x08"
definition unsure_dir_removed :: flags where "unsure_dir_removed = 0x10"
definition unsure_dir_changed :: flags where "unsure_dir_changed = 0x20"
definition unsure_unknown :: flags where "unsure_unknown = 0x40"
definition unsure_invalid :: flags where "unsure_invalid = 0x80"
definition unsure_mask :: flags where "unsure_mask = 0xff"
definition listing_failed :: flags where "listing_failed = 0x100"
definition listing_has_dirs :: flags where "listing_has_dirs = 0x200"
definition listing_has_perms :: flags where "listing_has_perms = 0x400"
definition listing_has_usergroup :: flags where "listing_has_usergroup = 0x800"

lemmas flag_defs =
  flag_dir_def flag_link_def flag_unsure_def
  unsure_file_added_def unsure_file_removed_def unsure_file_changed_def unsure_dir_added_def
  unsure_dir_removed_def unsure_dir_changed_def unsure_unknown_def unsure_invalid_def unsure_mask_def
  listing_failed_def listing_has_dirs_def listing_has_perms_def listing_has_usergroup_def

definition ls_size :: "listing \<Rightarrow> nat" where
  "ls_size l = length (ls_entries l)"

definition get_unsure_flags :: "listing \<Rightarrow> flags" where
  "get_unsure_flags l = ls_flags l AND unsure_mask"

definition has_dirs :: "listing \<Rightarrow> bool" where
  "has_dirs l \<longleftrightarrow> ls_flags l AND listing_has_dirs \<noteq> 0"

definition has_perms :: "listing \<Rightarrow> bool" where
  "has_perms l \<longleftrightarrow> ls_flags l AND listing_has_perms \<noteq> 0"

definition has_usergroup :: "listing \<Rightarrow> bool" where
  "has_usergroup l \<longleftrightarrow> ls_flags l AND listing_has_usergroup \<noteq> 0"

definition clear_maps :: "listing \<Rightarrow> listing" where
  "clear_maps l = l\<lparr>ls_searchmap_case := None, ls_searchmap_nocase := None\<rparr>"

fun assign_flags :: "direntry list \<Rightarrow> flags \<Rightarrow> flags" where
  "assign_flags [] f = f"
| "assign_flags (e # es) f =
     (let f1 = (if is_dir e then f OR listing_has_dirs else f);
          f2 = (if de_permissions e \<noteq> [] then f1 OR listing_has_perms else f1);
          f3 = (if de_ownerGroup e \<noteq> [] then f2 OR listing_has_usergroup else f2)
      in assign_flags es f3)"

definition Assign :: "direntry list \<Rightarrow> listing \<Rightarrow> listing" where
  "Assign entries l =
     clear_maps (l\<lparr>ls_entries := entries,
       ls_flags := assign_flags entries
         (ls_flags l AND NOT (listing_has_dirs OR listing_has_perms OR listing_has_usergroup))\<rparr>)"

definition RemoveEntry :: "nat \<Rightarrow> listing \<Rightarrow> bool \<times> listing" where
  "RemoveEntry index l =
     (if index \<ge> ls_size l then (False, l)
      else (True, (clear_maps l)
        \<lparr>ls_flags := ls_flags l OR
           (if is_dir (ls_entries l ! index) then unsure_dir_removed else unsure_file_removed),
         ls_entries := take index (ls_entries l) @ drop (Suc index) (ls_entries l)\<rparr>))"

definition Append :: "direntry \<Rightarrow> listing \<Rightarrow> listing" where
  "Append e l = l\<lparr>ls_entries := ls_entries l @ [e]\<rparr>"

definition ClearFindMap :: "listing \<Rightarrow> listing" where
  "ClearFindMap l = (if ls_searchmap_case l = None then l else clear_maps l)"

definition GetFilenames :: "listing \<Rightarrow> wstring list" where
  "GetFilenames l = map de_name (ls_entries l)"

subsection \<open>Searching\<close>

definition mm_find :: "'a fzlib_scheme \<Rightarrow> searchmap \<Rightarrow> wstring \<Rightarrow> nat option" where
  "mm_find lib m name =
     (case map snd (filter (\<lambda>p. fst p = name) m) of [] \<Rightarrow> None | is \<Rightarrow> Some (mm_pick lib is))"

text \<open>The loop that extends the map until it meets the name.\<close>

fun extend_map ::
  "(direntry \<Rightarrow> wstring) \<Rightarrow> wstring \<Rightarrow> nat \<Rightarrow> direntry list \<Rightarrow> searchmap \<Rightarrow> nat option \<times> searchmap" where
  "extend_map key name i [] m = (None, m)"
| "extend_map key name i (e # es) m =
     (if key e = name then (Some i, m @ [(key e, i)])
      else extend_map key name (Suc i) es (m @ [(key e, i)]))"

definition find_file ::
  "'a fzlib_scheme \<Rightarrow> (direntry \<Rightarrow> wstring) \<Rightarrow> wstring \<Rightarrow> direntry list \<Rightarrow> searchmap option \<Rightarrow>
   nat option \<times> searchmap option" where
  "find_file lib key name entries sm =
     (if entries = [] then (None, sm)
      else let m = (case sm of None \<Rightarrow> [] | Some m \<Rightarrow> m) in
        case mm_find lib m name of
          Some i \<Rightarrow> (Some i, Some m)
        | None \<Rightarrow>
            if length m = length entries then (None, Some m)
            else case extend_map key name (length m) (drop (length m) entries) m of
              (r, m1) \<Rightarrow> (r, Some m1))"

definition FindFile_CmpCase :: "'a fzlib_scheme \<Rightarrow> wstring \<Rightarrow> listing \<Rightarrow> nat option \<times> listing" where
  "FindFile_CmpCase lib name l =
     (case find_file lib de_name name (ls_entries l) (ls_searchmap_case l) of
        (r, m) \<Rightarrow> (r, l\<lparr>ls_searchmap_case := m\<rparr>))"

definition lower_name :: "'a fzlib_scheme \<Rightarrow> direntry \<Rightarrow> wstring" where
  "lower_name lib e = str_tolower lib (de_name e)"

definition FindFile_CmpNoCase :: "'a fzlib_scheme \<Rightarrow> wstring \<Rightarrow> listing \<Rightarrow> nat option \<times> listing" where
  "FindFile_CmpNoCase lib name l =
     (case find_file lib (lower_name lib) (str_tolower lib name) (ls_entries l) (ls_searchmap_nocase l) of
        (r, m) \<Rightarrow> (r, l\<lparr>ls_searchmap_nocase := m\<rparr>))"

subsection \<open>Inclusion\<close>

text \<open>The loop of \<^verbatim>\<open>CheckInclusion\<close>; its condition compares \<^verbatim>\<open>iter2\<close> with \<^verbatim>\<open>names2.cbegin()\<close>.\<close>

function inclusion_loop :: "wstring list \<Rightarrow> wstring list \<Rightarrow> nat \<Rightarrow> nat \<Rightarrow> bool" where
  "inclusion_loop names1 names2 i1 i2 =
     (if i2 = 0 then True
      else if i1 \<ge> length names1 then False
      else if names1 ! i1 \<noteq> names2 ! i2 then inclusion_loop names1 names2 (Suc i1) i2
      else inclusion_loop names1 names2 (Suc i1) (Suc i2))"
  by pat_completeness auto
termination
  by (relation "measure (\<lambda>(names1, names2, i1, i2). length names1 - i1)") auto

declare inclusion_loop.simps [simp del]

definition CheckInclusion :: "listing \<Rightarrow> listing \<Rightarrow> bool" where
  "CheckInclusion listing1 listing2 =
     (if ls_size listing2 > ls_size listing1 then False
      else inclusion_loop (sort (GetFilenames listing1)) (sort (GetFilenames listing2)) 0 0)"

subsection \<open>The search maps\<close>

text \<open>
  The invariant of a search map: it holds the names of the first entries, each with its
  position, in the order of the entries. Only the size of the map says how far it is built.
\<close>

definition map_ok :: "(direntry \<Rightarrow> wstring) \<Rightarrow> direntry list \<Rightarrow> searchmap option \<Rightarrow> bool" where
  "map_ok key es sm =
     (case sm of
        None \<Rightarrow> True
      | Some m \<Rightarrow> length m \<le> length es \<and> (\<forall>i<length m. m ! i = (key (es ! i), i)))"

definition ls_ok :: "'a fzlib_scheme \<Rightarrow> listing \<Rightarrow> bool" where
  "ls_ok lib l \<longleftrightarrow>
     map_ok de_name (ls_entries l) (ls_searchmap_case l) \<and>
     map_ok (lower_name lib) (ls_entries l) (ls_searchmap_nocase l)"

lemma ls_ok_clear [simp]: "ls_ok lib (clear_maps l)"
  by (simp add: ls_ok_def map_ok_def clear_maps_def)

lemma Assign_simps [simp]:
  "ls_ok lib (Assign es l)" "ls_entries (Assign es l) = es" "ls_path (Assign es l) = ls_path l"
  unfolding Assign_def by simp_all (simp_all add: clear_maps_def)

lemma map_ok_append: "map_ok key es sm \<Longrightarrow> map_ok key (es @ fs) sm"
  by (auto simp: map_ok_def nth_append split: option.splits)

lemma ls_ok_Append: "ls_ok lib l \<Longrightarrow> ls_ok lib (Append e l)"
  by (simp add: ls_ok_def Append_def map_ok_append)

lemma map_ok_key_cong:
  assumes "map_ok key es sm" "map key es = map key fs"
  shows "map_ok key fs sm"
proof -
  have "length es = length fs" "\<And>i. i < length es \<Longrightarrow> key (es ! i) = key (fs ! i)"
    using assms(2) by (metis length_map, metis length_map nth_map)
  with assms(1) show ?thesis by (auto simp: map_ok_def split: option.splits)
qed

text \<open>Entries may change as long as they keep their names.\<close>

lemma ls_ok_names:
  assumes "ls_ok lib l" "map de_name (ls_entries l) = map de_name es"
  shows "ls_ok lib (l\<lparr>ls_entries := es\<rparr>)"
proof -
  have low: "map (lower_name lib) xs = map (str_tolower lib) (map de_name xs)" for xs
    by (simp add: lower_name_def)
  have "map (lower_name lib) (ls_entries l) = map (lower_name lib) es" unfolding low assms(2) ..
  then show ?thesis
    using assms map_ok_key_cong [of de_name "ls_entries l" _ es] map_ok_key_cong [of "lower_name lib" "ls_entries l" _ es]
    by (simp add: ls_ok_def)
qed

lemma ls_ok_RemoveEntry: "ls_ok lib l \<Longrightarrow> ls_ok lib (snd (RemoveEntry i l))"
  by (cases "i \<ge> ls_size l") (simp_all add: RemoveEntry_def ls_ok_def clear_maps_def map_ok_def)

lemma ls_ok_flags [simp]: "ls_ok lib (l\<lparr>ls_flags := f\<rparr>) = ls_ok lib l"
  by (simp add: ls_ok_def)

subsubsection \<open>A search\<close>

lemma extend_map_ok:
  assumes "extend_map key name (length m) (drop (length m) es) m = (r, m1)" "map_ok key es (Some m)"
  shows "map_ok key es (Some m1) \<and>
    (case r of
       Some i \<Rightarrow> i < length es \<and> key (es ! i) = name
     | None \<Rightarrow> length m1 = length es) \<and>
    (r = None \<longrightarrow> (\<forall>i. length m \<le> i \<and> i < length es \<longrightarrow> key (es ! i) \<noteq> name))"
  using assms
proof (induction "length es - length m" arbitrary: m)
  case 0
  then show ?case by (auto simp: map_ok_def)
next
  case (Suc n)
  then have lt: "length m < length es" by simp
  let ?e = "es ! length m" and ?m = "m @ [(key (es ! length m), length m)]"
  have d: "drop (length m) es = ?e # drop (length ?m) es" using lt by (simp add: Cons_nth_drop_Suc)
  have ok: "map_ok key es (Some ?m)"
    using Suc.prems(2) lt by (auto simp: map_ok_def nth_append less_Suc_eq)
  show ?case
  proof (cases "key ?e = name")
    case True
    then show ?thesis using Suc.prems(1) d ok lt by auto
  next
    case False
    then have "extend_map key name (length ?m) (drop (length ?m) es) ?m = (r, m1)"
      using Suc.prems(1) d by simp
    moreover have "n = length es - length ?m" using Suc.hyps(2) by simp
    ultimately have "map_ok key es (Some m1)"
      "case r of Some i \<Rightarrow> i < length es \<and> key (es ! i) = name | None \<Rightarrow> length m1 = length es"
      and rest: "r = None \<Longrightarrow> length ?m \<le> i \<Longrightarrow> i < length es \<Longrightarrow> key (es ! i) \<noteq> name" for i
      using Suc.hyps(1) [OF _ _ ok] by blast+
    moreover have "key (es ! i) \<noteq> name" if "r = None" "length m \<le> i" "i < length es" for i
      using rest [OF that(1), of i] that(2,3) False by (cases "i = length m") auto
    ultimately show ?thesis by blast
  qed
qed

lemma mm_find_None: "mm_find lib m name = None \<longleftrightarrow> name \<notin> fst ` set m"
proof -
  have "mm_find lib m name = None \<longleftrightarrow> filter (\<lambda>p. fst p = name) m = []"
    by (cases "filter (\<lambda>p. fst p = name) m") (simp_all add: mm_find_def)
  then show ?thesis by (auto simp: filter_empty_conv)
qed

lemma mm_find_Some:
  assumes "mm_pick_member lib" "mm_find lib m name = Some i"
  shows "(name, i) \<in> set m"
proof -
  let ?is = "map snd (filter (\<lambda>p. fst p = name) m)"
  have ne: "?is \<noteq> []" and i: "i = mm_pick lib ?is"
    using assms(2) by (auto simp: mm_find_def split: list.splits)
  then have "i \<in> set ?is" using assms(1) unfolding mm_pick_member_def by blast
  then show ?thesis by auto
qed

text \<open>A search is a linear search for the key, and it keeps the map in order.\<close>

lemma find_file_correct:
  assumes lib: "mm_pick_member lib" and ok: "map_ok key es sm" and r: "find_file lib key name es sm = (r, sm1)"
  shows "map_ok key es sm1 \<and>
    (case r of Some i \<Rightarrow> i < length es \<and> key (es ! i) = name | None \<Rightarrow> name \<notin> key ` set es)"
proof (cases "es = []")
  case True
  then show ?thesis using r ok by (auto simp: find_file_def)
next
  case False
  define m where "m = (case sm of None \<Rightarrow> [] | Some m \<Rightarrow> m)"
  have okm: "map_ok key es (Some m)" using ok by (auto simp: m_def map_ok_def split: option.splits)
  have mem: "(k, i) \<in> set m \<Longrightarrow> i < length m \<and> k = key (es ! i)" for k i
    using okm by (auto simp: map_ok_def in_set_conv_nth)
  have old: "key (es ! i) \<noteq> name" if "mm_find lib m name = None" "i < length m" for i
    using that okm by (force simp: mm_find_None map_ok_def set_conv_nth)
  have none: "name \<notin> key ` set es" if "\<And>i. i < length es \<Longrightarrow> key (es ! i) \<noteq> name"
    using that by (metis imageE in_set_conv_nth)
  show ?thesis
  proof (cases "mm_find lib m name")
    case (Some i)
    then have "r = Some i" "sm1 = Some m" using r False by (auto simp: find_file_def m_def)
    then show ?thesis using mem [OF mm_find_Some [OF lib Some]] okm by (auto simp: map_ok_def)
  next
    case n: None
    show ?thesis
    proof (cases "length m = length es")
      case True
      then have "r = None" "sm1 = Some m" using r False n by (auto simp: find_file_def m_def)
      then show ?thesis using none old [OF n] okm True by auto
    next
      case less: False
      obtain r1 m1 where e: "extend_map key name (length m) (drop (length m) es) m = (r1, m1)" by fastforce
      then have "r = r1" "sm1 = Some m1" using r False n less by (auto simp: find_file_def m_def)
      then show ?thesis
        using extend_map_ok [OF e okm] none old [OF n] by (auto split: option.splits) (meson not_less)
    qed
  qed
qed

text \<open>
  C29: \<^verbatim>\<open>FindFile_CmpCase\<close> and \<^verbatim>\<open>FindFile_CmpNoCase\<close> agree with a linear search, whatever part of
  their search maps earlier calls have built: a position they return holds the name (up to case),
  and \<^verbatim>\<open>npos\<close> means that no entry has it. They change nothing but the maps, and keep these valid.
\<close>

theorem FindFile_correct:
  assumes "mm_pick_member lib" "ls_ok lib l"
  shows
    "(case FindFile_CmpCase lib name l of (r, l1) \<Rightarrow>
        ls_ok lib l1 \<and> ls_entries l1 = ls_entries l \<and>
        (case r of
           Some i \<Rightarrow> i < ls_size l \<and> de_name (ls_entries l ! i) = name
         | None \<Rightarrow> name \<notin> set (GetFilenames l))) \<and>
     (case FindFile_CmpNoCase lib name l of (r, l1) \<Rightarrow>
        ls_ok lib l1 \<and> ls_entries l1 = ls_entries l \<and>
        (case r of
           Some i \<Rightarrow> i < ls_size l \<and> str_tolower lib (de_name (ls_entries l ! i)) = str_tolower lib name
         | None \<Rightarrow> str_tolower lib name \<notin> str_tolower lib ` set (GetFilenames l)))"
proof -
  obtain r m where f: "find_file lib de_name name (ls_entries l) (ls_searchmap_case l) = (r, m)" by fastforce
  obtain r' m' where f': "find_file lib (lower_name lib) (str_tolower lib name) (ls_entries l)
      (ls_searchmap_nocase l) = (r', m')" by fastforce
  have low: "lower_name lib ` set (ls_entries l) = str_tolower lib ` set (GetFilenames l)"
    by (auto simp: lower_name_def GetFilenames_def)
  show ?thesis
    using find_file_correct [OF assms(1) _ f] find_file_correct [OF assms(1) _ f'] assms(2)
    by (cases r; cases r')
      (simp_all add: FindFile_CmpCase_def FindFile_CmpNoCase_def f f' ls_ok_def ls_size_def low [symmetric],
       simp_all add: GetFilenames_def lower_name_def)
qed

definition two_files :: listing where
  "two_files = Assign [empty_direntry\<lparr>de_name := L ''a''\<rparr>, empty_direntry\<lparr>de_name := L ''B''\<rparr>] empty_listing"

theorem FindFile_correct_witness:
  "ls_ok ascii_lib (snd (FindFile_CmpNoCase ascii_lib (L ''b'') two_files)) \<and>
   ls_entries (snd (FindFile_CmpNoCase ascii_lib (L ''b'') two_files)) = ls_entries two_files"
proof -
  have "ls_ok ascii_lib two_files" by (simp add: two_files_def)
  with FindFile_correct [OF ascii_lib_mm_pick, of two_files "L ''b''"] show ?thesis by (auto split: prod.splits)
qed

subsection \<open>Flags\<close>

lemma bit_flags:
  "bit listing_has_dirs n \<longleftrightarrow> n = 9" "bit listing_has_perms n \<longleftrightarrow> n = 10" "bit listing_has_usergroup n \<longleftrightarrow> n = 11"
  using bit_exp_iff [of 9 n, where ?'a = flags] bit_exp_iff [of 10 n, where ?'a = flags]
    bit_exp_iff [of 11 n, where ?'a = flags]
  by (auto simp: listing_has_dirs_def listing_has_perms_def listing_has_usergroup_def)

lemma flags_bit:
  "has_dirs l \<longleftrightarrow> bit (ls_flags l) 9" "has_perms l \<longleftrightarrow> bit (ls_flags l) 10" "has_usergroup l \<longleftrightarrow> bit (ls_flags l) 11"
  using and_exp_eq_0_iff_not_bit [of "ls_flags l" 9] and_exp_eq_0_iff_not_bit [of "ls_flags l" 10]
    and_exp_eq_0_iff_not_bit [of "ls_flags l" 11]
  by (simp_all add: has_dirs_def has_perms_def has_usergroup_def listing_has_dirs_def listing_has_perms_def
      listing_has_usergroup_def)

text \<open>The bits that the entries set.\<close>

lemma bit_assign_flags:
  "bit (assign_flags es f) n \<longleftrightarrow>
     bit f n \<or> n = 9 \<and> (\<exists>e\<in>set es. is_dir e) \<or> n = 10 \<and> (\<exists>e\<in>set es. de_permissions e \<noteq> []) \<or>
     n = 11 \<and> (\<exists>e\<in>set es. de_ownerGroup e \<noteq> [])"
proof (induction es arbitrary: f)
  case (Cons e es)
  then show ?case by (auto simp: Let_def bit_or_iff bit_flags)
qed simp

lemma unsure_mask_bit: "bit unsure_mask n \<longleftrightarrow> n < 8"
proof -
  have m: "unsure_mask = mask 8" by (simp add: unsure_mask_def mask_eq_exp_minus_1)
  show ?thesis unfolding m bit_mask_iff by auto
qed

text \<open>
  C30: \<^verbatim>\<open>Assign\<close> makes the entries those given, sets the three flags that tell what entries have to exactly what these have, and
  keeps every other flag.
\<close>

theorem Assign_flags:
  "ls_entries (Assign es l) = es \<and>
   has_dirs (Assign es l) = (\<exists>e\<in>set es. is_dir e) \<and>
   has_perms (Assign es l) = (\<exists>e\<in>set es. de_permissions e \<noteq> []) \<and>
   has_usergroup (Assign es l) = (\<exists>e\<in>set es. de_ownerGroup e \<noteq> []) \<and>
   ls_flags (Assign es l) AND NOT (listing_has_dirs OR listing_has_perms OR listing_has_usergroup) =
     ls_flags l AND NOT (listing_has_dirs OR listing_has_perms OR listing_has_usergroup)"
proof -
  let ?three = "listing_has_dirs OR listing_has_perms OR listing_has_usergroup"
  define g where "g = ls_flags l AND NOT ?three"
  have f: "ls_flags (Assign es l) = assign_flags es g" "ls_entries (Assign es l) = es" by (simp_all add: Assign_def clear_maps_def g_def)
  have three: "bit (x AND NOT ?three) n \<longleftrightarrow> bit x n \<and> n \<notin> {9, 10, 11}" if "n < 32" for n and x :: flags
    using that by (simp add: bit_and_iff bit_or_iff bit_not_iff bit_flags)
  have bits: "bit g n \<longleftrightarrow> bit (ls_flags l) n \<and> n \<notin> {9, 10, 11}" if "n < 32" for n
    unfolding g_def by (rule three [OF that])
  have "bit (ls_flags (Assign es l) AND NOT ?three) n \<longleftrightarrow> bit (ls_flags l AND NOT ?three) n" if "n < 32" for n
    unfolding three [OF that] f bit_assign_flags bits [OF that] by auto
  then have "ls_flags (Assign es l) AND NOT ?three = ls_flags l AND NOT ?three" by (intro bit_word_eqI) simp
  then show ?thesis by (simp add: flags_bit f bit_assign_flags bits)
qed

subsection \<open>Inclusion and renaming\<close>

text \<open>
  \<^verbatim>\<open>CheckInclusion\<close> compares sizes only: its loop ends before the first comparison, so every
  listing that is not larger counts as included.
\<close>

lemma CheckInclusion_size: "CheckInclusion l1 l2 \<longleftrightarrow> ls_size l2 \<le> ls_size l1"
  by (auto simp: CheckInclusion_def inclusion_loop.simps)

text \<open>
  A search map that outlives a renaming: if only the case-insensitive map has been built,
  \<^verbatim>\<open>ClearFindMap\<close> keeps it, and the old name is still found.
\<close>

lemma ClearFindMap_stale:
  defines "l \<equiv> snd (FindFile_CmpNoCase ascii_lib (L ''b'') two_files)"
  defines "l1 \<equiv> ClearFindMap (l\<lparr>ls_entries := (ls_entries l)[1 := (ls_entries l ! 1)\<lparr>de_name := L ''c''\<rparr>]\<rparr>)"
  shows "fst (FindFile_CmpNoCase ascii_lib (L ''b'') l1) = Some 1 \<and> L ''b'' \<notin> set (GetFilenames l1)"
  unfolding l_def l1_def by code_simp

end
