(* ===== verification/Directory_Cache.thy ===== *)
theory Directory_Cache
  imports Directory_Listing
begin

text \<open>
  The cache of directory listings (\<^verbatim>\<open>engine/directorycache.{h,cpp}\<close>). Iterators are identities:
  a server entry, a cache entry and a node of the least-recently-used list each get a fresh number
  when they are created, and an iterator is that number. The mutex is held during a whole call, so
  each call is one step. \<^verbatim>\<open>fz::monotonic_clock::now()\<close> is the argument \<open>now\<close>, in milliseconds.
\<close>

record cache_entry =
  ce_id :: nat
  ce_listing :: listing
  ce_modificationTime :: int
  ce_lruIt :: "nat option"

record server_entry =
  se_id :: nat
  se_server :: cserver
  se_cache :: "cache_entry list"

text \<open>A node of the list: its identity, the server entry and the cache entry it points to.\<close>

type_synonym lru_node = "nat \<times> nat \<times> nat"

record dir_cache =
  dc_servers :: "server_entry list"
  dc_lru :: "lru_node list"
  dc_total :: int
  dc_ttl :: int
  dc_next :: nat

definition empty_cache :: dir_cache where
  "empty_cache = \<lparr>dc_servers = [], dc_lru = [], dc_total = 0, dc_ttl = 600000, dc_next = 0\<rparr>"

definition ce_path :: "cache_entry \<Rightarrow> server_path" where
  "ce_path e = ls_path (ce_listing e)"

definition all_entries :: "dir_cache \<Rightarrow> cache_entry list" where
  "all_entries c = concat (map se_cache (dc_servers c))"

text \<open>Reading and writing through iterators.\<close>

definition get_entry :: "dir_cache \<Rightarrow> nat \<Rightarrow> cache_entry option" where
  "get_entry c cid = find (\<lambda>e. ce_id e = cid) (all_entries c)"

definition entries_of :: "dir_cache \<Rightarrow> nat \<Rightarrow> cache_entry list" where
  "entries_of c sid = (case find (\<lambda>s. se_id s = sid) (dc_servers c) of None \<Rightarrow> [] | Some s \<Rightarrow> se_cache s)"

definition map_entry :: "nat \<Rightarrow> (cache_entry \<Rightarrow> cache_entry) \<Rightarrow> dir_cache \<Rightarrow> dir_cache" where
  "map_entry cid f c = c\<lparr>dc_servers :=
     map (\<lambda>s. s\<lparr>se_cache := map (\<lambda>e. if ce_id e = cid then f e else e) (se_cache s)\<rparr>) (dc_servers c)\<rparr>"

definition set_entries :: "nat \<Rightarrow> cache_entry list \<Rightarrow> dir_cache \<Rightarrow> dir_cache" where
  "set_entries sid es c = c\<lparr>dc_servers :=
     map (\<lambda>s. if se_id s = sid then s\<lparr>se_cache := es\<rparr> else s) (dc_servers c)\<rparr>"

subsection \<open>Servers, order and pruning\<close>

definition GetServerEntry :: "'a fzlib_scheme \<Rightarrow> cserver \<Rightarrow> dir_cache \<Rightarrow> nat option" where
  "GetServerEntry lib server c =
     map_option se_id (find (\<lambda>s. SameContent lib (se_server s) server) (dc_servers c))"

definition CreateServerEntry :: "'a fzlib_scheme \<Rightarrow> cserver \<Rightarrow> dir_cache \<Rightarrow> nat \<times> dir_cache" where
  "CreateServerEntry lib server c =
     (case GetServerEntry lib server c of
        Some sid \<Rightarrow> (sid, c)
      | None \<Rightarrow>
          (dc_next c,
           c\<lparr>dc_servers := dc_servers c @ [\<lparr>se_id = dc_next c, se_server = server, se_cache = []\<rparr>],
             dc_next := Suc (dc_next c)\<rparr>))"

definition UpdateLru :: "nat \<Rightarrow> nat \<Rightarrow> dir_cache \<Rightarrow> dir_cache" where
  "UpdateLru sid cid c =
     (case get_entry c cid of
        None \<Rightarrow> c
      | Some e \<Rightarrow>
          (case ce_lruIt e of
             Some n \<Rightarrow> c\<lparr>dc_lru := filter (\<lambda>x. fst x \<noteq> n) (dc_lru c) @ [(n, sid, cid)]\<rparr>
           | None \<Rightarrow>
               map_entry cid (\<lambda>e. e\<lparr>ce_lruIt := Some (dc_next c)\<rparr>)
                 (c\<lparr>dc_lru := dc_lru c @ [(dc_next c, sid, cid)], dc_next := Suc (dc_next c)\<rparr>)))"

definition prune_cond :: "dir_cache \<Rightarrow> bool" where
  "prune_cond c \<longleftrightarrow>
     length (dc_lru c) > 50000 \<or>
     dc_total c > 1000000 \<and> length (dc_lru c) > 1000 \<or>
     dc_total c > 5000000 \<and> length (dc_lru c) > 100"

text \<open>
  One round of the loop in \<^verbatim>\<open>Prune\<close>. \<^const>\<open>None\<close> is a round that would use an iterator of an entry
  that is gone, or the front of an empty list.
\<close>

definition prune_step :: "dir_cache \<Rightarrow> dir_cache option" where
  "prune_step c =
     (case dc_lru c of
        [] \<Rightarrow> None
      | (n, sid, cid) # rest \<Rightarrow>
          (case get_entry c cid of
             None \<Rightarrow> None
           | Some e \<Rightarrow>
               if e \<notin> set (entries_of c sid) then None
               else let es = filter (\<lambda>e. ce_id e \<noteq> cid) (entries_of c sid);
                        c1 = set_entries sid es (c\<lparr>dc_total := dc_total c - int (ls_size (ce_listing e)), dc_lru := rest\<rparr>)
                    in Some (if es = [] then c1\<lparr>dc_servers := filter (\<lambda>s. se_id s \<noteq> sid) (dc_servers c1)\<rparr> else c1)))"

lemma prune_step_lru: "prune_step c = Some c' \<Longrightarrow> length (dc_lru c') < length (dc_lru c)"
  by (auto simp: prune_step_def set_entries_def Let_def split: list.splits option.splits if_splits)

function Prune :: "dir_cache \<Rightarrow> dir_cache option" where
  "Prune c =
     (if prune_cond c
      then (case prune_step c of None \<Rightarrow> None | Some c1 \<Rightarrow> Prune c1)
      else Some c)"
  by pat_completeness auto
termination
  by (relation "measure (\<lambda>c. length (dc_lru c))") (auto intro: prune_step_lru)

declare Prune.simps [simp del]

subsection \<open>Lookup and storage\<close>

definition lower_bound :: "'a fzlib_scheme \<Rightarrow> server_path \<Rightarrow> cache_entry list \<Rightarrow> cache_entry option" where
  "lower_bound lib path es = find (\<lambda>e. \<not> path_less lib (ce_path e) path) es"

text \<open>
  The protected \<^verbatim>\<open>Lookup\<close>: the entry that was found and whether it is outdated.
\<close>

definition lookup_entry ::
  "'a fzlib_scheme \<Rightarrow> int \<Rightarrow> nat \<Rightarrow> server_path \<Rightarrow> bool \<Rightarrow> dir_cache \<Rightarrow> (nat \<times> bool) option \<times> dir_cache" where
  "lookup_entry lib now sid path allowUnsureEntries c =
     (case lower_bound lib path (entries_of c sid) of
        None \<Rightarrow> (None, c)
      | Some e \<Rightarrow>
          if path_eq (ce_path e) path then
            let c1 = UpdateLru sid (ce_id e) c
            in if \<not> allowUnsureEntries \<and> get_unsure_flags (ce_listing e) \<noteq> 0 then (None, c1)
               else (Some (ce_id e, now - ls_firstListTime (ce_listing e) > dc_ttl c), c1)
          else (None, c))"

text \<open>\<^verbatim>\<open>std::set::emplace_hint\<close>: an equivalent element that is there already stays.\<close>

fun entry_insert :: "'a fzlib_scheme \<Rightarrow> cache_entry \<Rightarrow> cache_entry list \<Rightarrow> cache_entry list" where
  "entry_insert lib e [] = [e]"
| "entry_insert lib e (x # xs) =
     (if path_less lib (ce_path e) (ce_path x) then e # x # xs
      else if path_less lib (ce_path x) (ce_path e) then x # entry_insert lib e xs
      else x # xs)"

definition emplace :: "'a fzlib_scheme \<Rightarrow> nat \<Rightarrow> cache_entry \<Rightarrow> dir_cache \<Rightarrow> nat \<times> dir_cache" where
  "emplace lib sid e c =
     (case find (\<lambda>x. eqv (path_less lib) (ce_path x) (ce_path e)) (entries_of c sid) of
        Some x \<Rightarrow> (ce_id x, c)
      | None \<Rightarrow> (ce_id e, set_entries sid (entry_insert lib e (entries_of c sid)) c))"

definition Store :: "'a fzlib_scheme \<Rightarrow> int \<Rightarrow> listing \<Rightarrow> cserver \<Rightarrow> dir_cache \<Rightarrow> dir_cache option" where
  "Store lib now l server c =
     (let (sid, c1) = CreateServerEntry lib server c;
          c2 = c1\<lparr>dc_total := dc_total c1 + int (ls_size l)\<rparr>
      in case lookup_entry lib now sid (ls_path l) True c2 of
           (Some (cid, _), c3) \<Rightarrow>
             (case get_entry c3 cid of
                None \<Rightarrow> None
              | Some e \<Rightarrow>
                  Some (map_entry cid (\<lambda>e. e\<lparr>ce_modificationTime := now, ce_listing := l\<rparr>)
                    (c3\<lparr>dc_total := dc_total c3 - int (ls_size (ce_listing e))\<rparr>)))
         | (None, c3) \<Rightarrow>
             let e = \<lparr>ce_id = dc_next c3, ce_listing = l, ce_modificationTime = now, ce_lruIt = None\<rparr>;
                 (cid, c4) = emplace lib sid e (c3\<lparr>dc_next := Suc (dc_next c3)\<rparr>)
             in Prune (UpdateLru sid cid c4))"

definition Lookup ::
  "'a fzlib_scheme \<Rightarrow> int \<Rightarrow> cserver \<Rightarrow> server_path \<Rightarrow> bool \<Rightarrow> dir_cache \<Rightarrow> (listing \<times> bool) option \<times> dir_cache" where
  "Lookup lib now server path allowUnsureEntries c =
     (case GetServerEntry lib server c of
        None \<Rightarrow> (None, c)
      | Some sid \<Rightarrow>
          (case lookup_entry lib now sid path allowUnsureEntries c of
             (None, c1) \<Rightarrow> (None, c1)
           | (Some (cid, outdated), c1) \<Rightarrow>
               (map_option (\<lambda>e. (ce_listing e, outdated)) (get_entry c1 cid), c1)))"

definition DoesExist ::
  "'a fzlib_scheme \<Rightarrow> int \<Rightarrow> cserver \<Rightarrow> server_path \<Rightarrow> dir_cache \<Rightarrow> (flags \<times> bool) option \<times> dir_cache" where
  "DoesExist lib now server path c =
     (case Lookup lib now server path True c of
        (r, c1) \<Rightarrow> (map_option (\<lambda>(l, outdated). (get_unsure_flags l, outdated)) r, c1))"

definition GetChangeTime ::
  "'a fzlib_scheme \<Rightarrow> int \<Rightarrow> cserver \<Rightarrow> server_path \<Rightarrow> dir_cache \<Rightarrow> int option \<times> dir_cache" where
  "GetChangeTime lib now server path c =
     (case GetServerEntry lib server c of
        None \<Rightarrow> (None, c)
      | Some sid \<Rightarrow>
          (case lookup_entry lib now sid path True c of
             (None, c1) \<Rightarrow> (None, c1)
           | (Some (cid, _), c1) \<Rightarrow> (map_option ce_modificationTime (get_entry c1 cid), c1)))"

subsection \<open>Lookup of files\<close>

definition allow_outdated :: flags where "allow_outdated = 0x01"
definition force_caseinsensitive :: flags where "force_caseinsensitive = 0x02"

definition res_found :: flags where "res_found = 0x01"
definition res_outdated :: flags where "res_outdated = 0x02"
definition res_direxists :: flags where "res_direxists = 0x04"
definition res_matchedcase :: flags where "res_matchedcase = 0x08"

text \<open>The search for one name in a listing that the two overloads share.\<close>

definition lookup_name ::
  "'a fzlib_scheme \<Rightarrow> cserver \<Rightarrow> flags \<Rightarrow> flags \<Rightarrow> wstring \<Rightarrow> listing \<Rightarrow> flags \<times> direntry \<times> listing" where
  "lookup_name lib server fl results filename l =
     (case FindFile_CmpCase lib filename l of
        (Some i, l1) \<Rightarrow> (results OR (res_found OR res_matchedcase), ls_entries l1 ! i, l1)
      | (None, l1) \<Rightarrow>
          if GetCaseSensitivity server \<noteq> cs_yes \<or> fl AND force_caseinsensitive \<noteq> 0 then
            (case FindFile_CmpNoCase lib filename l1 of
               (Some i, l2) \<Rightarrow> (results OR res_found, ls_entries l2 ! i, l2)
             | (None, l2) \<Rightarrow> (results, empty_direntry, l2))
          else (results, empty_direntry, l1))"

fun lookup_names ::
  "'a fzlib_scheme \<Rightarrow> cserver \<Rightarrow> flags \<Rightarrow> flags \<Rightarrow> wstring list \<Rightarrow> listing \<Rightarrow> (flags \<times> direntry) list \<times> listing" where
  "lookup_names lib server fl results [] l = ([], l)"
| "lookup_names lib server fl results (f # fs) l =
     (case lookup_name lib server fl results f l of
        (r, e, l1) \<Rightarrow>
          (case lookup_names lib server fl results fs l1 of (res, l2) \<Rightarrow> ((r, e) # res, l2)))"

definition set_listing :: "nat \<Rightarrow> listing \<Rightarrow> dir_cache \<Rightarrow> dir_cache" where
  "set_listing cid l = map_entry cid (\<lambda>e. e\<lparr>ce_listing := l\<rparr>)"

definition LookupFile ::
  "'a fzlib_scheme \<Rightarrow> int \<Rightarrow> cserver \<Rightarrow> server_path \<Rightarrow> wstring \<Rightarrow> flags \<Rightarrow> dir_cache \<Rightarrow> (flags \<times> direntry) \<times> dir_cache" where
  "LookupFile lib now server path filename fl c =
     (case GetServerEntry lib server c of
        None \<Rightarrow> ((0, empty_direntry), c)
      | Some sid \<Rightarrow>
          (case lookup_entry lib now sid path True c of
             (None, c1) \<Rightarrow> ((0, empty_direntry), c1)
           | (Some (cid, outdated), c1) \<Rightarrow>
               let results = (if outdated then res_outdated else 0)
               in if outdated \<and> fl AND allow_outdated = 0 then ((results, empty_direntry), c1)
                  else case get_entry c1 cid of
                    None \<Rightarrow> ((0, empty_direntry), c1)
                  | Some e \<Rightarrow>
                      (case lookup_name lib server fl (results OR res_direxists) filename (ce_listing e) of
                         (r, d, l) \<Rightarrow> ((r, d), set_listing cid l c1))))"

definition LookupFiles ::
  "'a fzlib_scheme \<Rightarrow> int \<Rightarrow> cserver \<Rightarrow> server_path \<Rightarrow> wstring list \<Rightarrow> flags \<Rightarrow> dir_cache \<Rightarrow>
   (flags \<times> direntry) list \<times> dir_cache" where
  "LookupFiles lib now server path filenames fl c =
     (case GetServerEntry lib server c of
        None \<Rightarrow> ([], c)
      | Some sid \<Rightarrow>
          (case lookup_entry lib now sid path True c of
             (None, c1) \<Rightarrow> ([], c1)
           | (Some (cid, outdated), c1) \<Rightarrow>
               let results = (if outdated then res_outdated else 0)
               in if outdated \<and> fl AND allow_outdated = 0
                  then (replicate (length filenames) (results, empty_direntry), c1)
                  else case get_entry c1 cid of
                    None \<Rightarrow> ([], c1)
                  | Some e \<Rightarrow>
                      (case lookup_names lib server fl (results OR res_direxists) filenames (ce_listing e) of
                         (res, l) \<Rightarrow> (res, set_listing cid l c1))))"

text \<open>
  The overload with output arguments: the entry with \<^verbatim>\<open>matchedCase\<close>, and \<^verbatim>\<open>dirDidExist\<close>.
\<close>

definition LookupFile_dir ::
  "'a fzlib_scheme \<Rightarrow> int \<Rightarrow> cserver \<Rightarrow> server_path \<Rightarrow> wstring \<Rightarrow> dir_cache \<Rightarrow>
   ((direntry \<times> bool) option \<times> bool) \<times> dir_cache" where
  "LookupFile_dir lib now server path filename c =
     (case GetServerEntry lib server c of
        None \<Rightarrow> ((None, False), c)
      | Some sid \<Rightarrow>
          (case lookup_entry lib now sid path True c of
             (None, c1) \<Rightarrow> ((None, False), c1)
           | (Some (cid, _), c1) \<Rightarrow>
               (case get_entry c1 cid of
                  None \<Rightarrow> ((None, False), c1)
                | Some e \<Rightarrow>
                    (case FindFile_CmpCase lib filename (ce_listing e) of
                       (Some i, l1) \<Rightarrow> ((Some (ls_entries l1 ! i, True), True), set_listing cid l1 c1)
                     | (None, l1) \<Rightarrow>
                         (case FindFile_CmpNoCase lib filename l1 of
                            (Some i, l2) \<Rightarrow> ((Some (ls_entries l2 ! i, False), True), set_listing cid l2 c1)
                          | (None, l2) \<Rightarrow> ((None, True), set_listing cid l2 c1))))))"

subsection \<open>Changes\<close>

datatype filetype = ft_unknown | ft_file | ft_dir

definition add_flag :: "flags \<Rightarrow> direntry \<Rightarrow> direntry" where
  "add_flag f e = e\<lparr>de_flags := de_flags e OR f\<rparr>"

definition add_ls_flags :: "flags \<Rightarrow> listing \<Rightarrow> listing" where
  "add_ls_flags f l = l\<lparr>ls_flags := ls_flags l OR f\<rparr>"

text \<open>
  The loops over the entries of a server that update each entry that a test selects: the entry is
  moved to the end of the list and replaced, and the file count changes by \<open>delta\<close>.
\<close>

definition touch_entry ::
  "(cache_entry \<Rightarrow> bool) \<Rightarrow> (cache_entry \<Rightarrow> cache_entry) \<Rightarrow> (cache_entry \<Rightarrow> int) \<Rightarrow> nat \<Rightarrow> nat \<Rightarrow> dir_cache \<Rightarrow> dir_cache" where
  "touch_entry sel f delta sid cid c =
     (case get_entry c cid of
        None \<Rightarrow> c
      | Some e \<Rightarrow>
          if sel e
          then let c1 = map_entry cid f (UpdateLru sid cid c) in c1\<lparr>dc_total := dc_total c1 + delta e\<rparr>
          else c)"

definition touch_entries ::
  "(cache_entry \<Rightarrow> bool) \<Rightarrow> (cache_entry \<Rightarrow> cache_entry) \<Rightarrow> (cache_entry \<Rightarrow> int) \<Rightarrow> nat \<Rightarrow> dir_cache \<Rightarrow> dir_cache" where
  "touch_entries sel f delta sid c = fold (touch_entry sel f delta sid) (map ce_id (entries_of c sid)) c"

definition same_name :: "'a fzlib_scheme \<Rightarrow> bool \<Rightarrow> wstring \<Rightarrow> direntry \<Rightarrow> bool" where
  "same_name lib cmpCase filename d \<longleftrightarrow>
     (if cmpCase then filename = de_name d else stricmp lib filename (de_name d) = 0)"

definition invalidate_listing :: "'a fzlib_scheme \<Rightarrow> bool \<Rightarrow> wstring \<Rightarrow> listing \<Rightarrow> listing" where
  "invalidate_listing lib cmpCase filename l =
     add_ls_flags unsure_unknown (l\<lparr>ls_entries :=
       map (\<lambda>d. if same_name lib cmpCase filename d then add_flag flag_unsure d else d) (ls_entries l)\<rparr>)"

definition invalidates :: "'a fzlib_scheme \<Rightarrow> bool \<Rightarrow> server_path \<Rightarrow> cache_entry \<Rightarrow> bool" where
  "invalidates lib cmpCase path e \<longleftrightarrow>
     (if cmpCase then path_eq path (ce_path e) else CmpNoCase lib path (ce_path e) = 0)"

text \<open>
  In the second loop the source tests \<^verbatim>\<open>path.IsParentOf\<close>, with the directory of the file and not
  with the path \<^verbatim>\<open>child\<close> it computed.
\<close>

definition InvalidateFile ::
  "'a fzlib_scheme \<Rightarrow> int \<Rightarrow> cserver \<Rightarrow> server_path \<Rightarrow> wstring \<Rightarrow> dir_cache \<Rightarrow> bool \<times> dir_cache" where
  "InvalidateFile lib now server path filename c =
     (case GetServerEntry lib server c of
        None \<Rightarrow> (False, c)
      | Some sid \<Rightarrow>
          let cmpCase = (GetCaseSensitivity server = cs_yes);
              dir = (\<exists>e \<in> set (entries_of c sid). invalidates lib cmpCase path e \<and>
                 (\<exists>d \<in> set (ls_entries (ce_listing e)). same_name lib cmpCase filename d \<and> is_dir d));
              c1 = touch_entries (invalidates lib cmpCase path)
                     (\<lambda>e. e\<lparr>ce_listing := invalidate_listing lib cmpCase filename (ce_listing e),
                            ce_modificationTime := now\<rparr>) (\<lambda>e. 0) sid c
          in (True,
              if dir \<and> fst (change_dir path filename) then
                fold (\<lambda>e. if IsParentOf lib path (ce_path e) (\<not> cmpCase) True
                            then map_entry (ce_id e)
                              (\<lambda>e. e\<lparr>ce_listing := add_ls_flags unsure_unknown (ce_listing e), ce_modificationTime := now\<rparr>)
                            else (\<lambda>c. c)) (entries_of c1 sid) c1
              else c1))"

text \<open>The loop of \<^verbatim>\<open>UpdateFile\<close> over a listing: the entries so far and the position of an exact match.\<close>

fun mark_until :: "'a fzlib_scheme \<Rightarrow> wstring \<Rightarrow> direntry list \<Rightarrow> direntry list \<times> nat option" where
  "mark_until lib filename [] = ([], None)"
| "mark_until lib filename (d # ds) =
     (if stricmp lib filename (de_name d) = 0 then
        if de_name d = filename then (add_flag flag_unsure d # ds, Some 0)
        else (case mark_until lib filename ds of (es, i) \<Rightarrow> (add_flag flag_unsure d # es, map_option Suc i))
      else (case mark_until lib filename ds of (es, i) \<Rightarrow> (d # es, map_option Suc i)))"

definition new_direntry :: "filetype \<Rightarrow> wstring \<Rightarrow> int \<Rightarrow> wstring \<Rightarrow> direntry" where
  "new_direntry type filename fsize ownerGroup = empty_direntry
     \<lparr>de_name := filename, de_size := fsize,
      de_flags := (if type = ft_dir then flag_dir OR flag_unsure else flag_unsure),
      de_ownerGroup := ownerGroup\<rparr>"

definition update_listing ::
  "'a fzlib_scheme \<Rightarrow> wstring \<Rightarrow> bool \<Rightarrow> filetype \<Rightarrow> int \<Rightarrow> wstring \<Rightarrow> listing \<Rightarrow> listing" where
  "update_listing lib filename mayCreate type fsize ownerGroup l =
     (case mark_until lib filename (ls_entries l) of
        (es, Some i) \<Rightarrow>
          let l1 = l\<lparr>ls_entries := es\<rparr>; old_type = (if is_dir (es ! i) then ft_dir else ft_file)
          in if type \<noteq> old_type then add_ls_flags unsure_invalid l1
             else if type = ft_dir then add_ls_flags unsure_dir_changed l1
             else add_ls_flags unsure_file_changed l1
      | (es, None) \<Rightarrow>
          let l1 = l\<lparr>ls_entries := es\<rparr>
          in if type \<noteq> ft_unknown \<and> mayCreate then
               Append (new_direntry type filename fsize ownerGroup)
                 (add_ls_flags (if type = ft_dir then unsure_dir_added OR listing_has_dirs
                                else unsure_file_added) l1)
             else add_ls_flags unsure_unknown l1)"

definition UpdateFile ::
  "'a fzlib_scheme \<Rightarrow> int \<Rightarrow> cserver \<Rightarrow> server_path \<Rightarrow> wstring \<Rightarrow> bool \<Rightarrow> filetype \<Rightarrow> int \<Rightarrow> wstring \<Rightarrow>
   dir_cache \<Rightarrow> bool \<times> dir_cache" where
  "UpdateFile lib now server path filename mayCreate type fsize ownerGroup c =
     (case GetServerEntry lib server c of
        None \<Rightarrow> (False, c)
      | Some sid \<Rightarrow>
          (\<exists>e \<in> set (entries_of c sid). CmpNoCase lib path (ce_path e) = 0,
           touch_entries (\<lambda>e. CmpNoCase lib path (ce_path e) = 0)
             (\<lambda>e. e\<lparr>ce_listing := update_listing lib filename mayCreate type fsize ownerGroup (ce_listing e),
                    ce_modificationTime := now\<rparr>)
             (\<lambda>e. if snd (mark_until lib filename (ls_entries (ce_listing e))) = None \<and> type \<noteq> ft_unknown \<and> mayCreate
                  then 1 else 0) sid c))"

definition remove_from_listing :: "'a fzlib_scheme \<Rightarrow> wstring \<Rightarrow> listing \<Rightarrow> listing" where
  "remove_from_listing lib filename l =
     (case find_idx (\<lambda>d. de_name d = filename) (ls_entries l) of
        Some i \<Rightarrow> snd (RemoveEntry i l)
      | None \<Rightarrow>
          add_ls_flags unsure_invalid (l\<lparr>ls_entries :=
            map (\<lambda>d. if stricmp lib filename (de_name d) = 0 then add_flag flag_unsure d else d) (ls_entries l)\<rparr>))"

definition RemoveFile ::
  "'a fzlib_scheme \<Rightarrow> int \<Rightarrow> cserver \<Rightarrow> server_path \<Rightarrow> wstring \<Rightarrow> dir_cache \<Rightarrow> bool \<times> dir_cache" where
  "RemoveFile lib now server path filename c =
     (case GetServerEntry lib server c of
        None \<Rightarrow> (False, c)
      | Some sid \<Rightarrow>
          (True, touch_entries (\<lambda>e. CmpNoCase lib path (ce_path e) = 0)
             (\<lambda>e. e\<lparr>ce_listing := remove_from_listing lib filename (ce_listing e),
                    ce_modificationTime := now\<rparr>)
             (\<lambda>e. if find_idx (\<lambda>d. de_name d = filename) (ls_entries (ce_listing e)) \<noteq> None then -1 else 0) sid c))"

text \<open>Erasing an entry: its node, its share of the file count, and the entry itself.\<close>

definition unlink_entry :: "cache_entry \<Rightarrow> dir_cache \<Rightarrow> dir_cache" where
  "unlink_entry e c = c\<lparr>
     dc_lru := (case ce_lruIt e of None \<Rightarrow> dc_lru c | Some n \<Rightarrow> filter (\<lambda>x. fst x \<noteq> n) (dc_lru c)),
     dc_total := dc_total c - int (ls_size (ce_listing e))\<rparr>"

text \<open>The destructor takes the entries apart the same way; its assertion is that no file is left in the count.\<close>

definition destroy_cache :: "dir_cache \<Rightarrow> dir_cache" where
  "destroy_cache c = fold unlink_entry (all_entries c) c"

definition InvalidateServer :: "'a fzlib_scheme \<Rightarrow> cserver \<Rightarrow> dir_cache \<Rightarrow> dir_cache" where
  "InvalidateServer lib server c =
     (case GetServerEntry lib server c of
        None \<Rightarrow> c
      | Some sid \<Rightarrow>
          let c1 = fold unlink_entry (entries_of c sid) c
          in c1\<lparr>dc_servers := filter (\<lambda>s. se_id s \<noteq> sid) (dc_servers c1)\<rparr>)"

definition below :: "'a fzlib_scheme \<Rightarrow> server_path \<Rightarrow> cache_entry \<Rightarrow> bool" where
  "below lib absolutePath e \<longleftrightarrow>
     \<not> path_empty absolutePath \<and>
     (path_eq (ce_path e) absolutePath \<or> IsParentOf lib absolutePath (ce_path e) True False)"

definition RemoveDir ::
  "'a fzlib_scheme \<Rightarrow> int \<Rightarrow> cserver \<Rightarrow> server_path \<Rightarrow> wstring \<Rightarrow> dir_cache \<Rightarrow> dir_cache" where
  "RemoveDir lib now server path filename c =
     (case GetServerEntry lib server c of
        None \<Rightarrow> c
      | Some sid \<Rightarrow>
          let absolutePath = (case AddSegment path filename of (ok, p) \<Rightarrow> if ok then p else clear_path p);
              gone = filter (below lib absolutePath) (entries_of c sid);
              kept = filter (\<lambda>e. \<not> below lib absolutePath e) (entries_of c sid);
              c1 = set_entries sid kept (fold unlink_entry gone c)
          in snd (RemoveFile lib now server path filename c1))"

text \<open>The two cases of \<^verbatim>\<open>Rename\<close>, given the entry of \<^verbatim>\<open>pathFrom\<close>.\<close>

definition rename_same ::
  "'a fzlib_scheme \<Rightarrow> int \<Rightarrow> cserver \<Rightarrow> server_path \<Rightarrow> wstring \<Rightarrow> wstring \<Rightarrow> nat \<Rightarrow> dir_cache \<Rightarrow> dir_cache" where
  "rename_same lib now server path fileFrom fileTo cid c =
     (let c1 = snd (RemoveFile lib now server path fileTo c)
      in case get_entry c1 cid of
           None \<Rightarrow> c1
         | Some e \<Rightarrow>
             (case find_idx (\<lambda>d. de_name d = fileFrom) (ls_entries (ce_listing e)) of
                None \<Rightarrow> c1
              | Some i \<Rightarrow>
                  if is_dir (ls_entries (ce_listing e) ! i) then
                    snd (UpdateFile lib now server path fileTo True ft_dir (-1) []
                      (RemoveDir lib now server path fileTo (RemoveDir lib now server path fileFrom c1)))
                  else
                    let l = ce_listing e;
                        d = add_flag flag_unsure ((ls_entries l ! i)\<lparr>de_name := fileTo\<rparr>)
                    in set_listing cid
                         (ClearFindMap (add_ls_flags unsure_unknown (l\<lparr>ls_entries := (ls_entries l)[i := d]\<rparr>))) c1))"

definition rename_other ::
  "'a fzlib_scheme \<Rightarrow> int \<Rightarrow> cserver \<Rightarrow> server_path \<Rightarrow> wstring \<Rightarrow> server_path \<Rightarrow> wstring \<Rightarrow> nat \<Rightarrow> dir_cache \<Rightarrow> dir_cache" where
  "rename_other lib now server pathFrom fileFrom pathTo fileTo cid c =
     (case get_entry c cid of
        None \<Rightarrow> c
      | Some e \<Rightarrow>
          (case find_idx (\<lambda>d. de_name d = fileFrom) (ls_entries (ce_listing e)) of
             None \<Rightarrow> c
           | Some i \<Rightarrow>
               if is_dir (ls_entries (ce_listing e) ! i) then
                 snd (UpdateFile lib now server pathTo fileTo True ft_dir (-1) []
                   (RemoveDir lib now server pathFrom fileFrom c))
               else
                 snd (UpdateFile lib now server pathTo fileTo True ft_file (-1) []
                   (snd (RemoveFile lib now server pathFrom fileFrom c)))))"

definition Rename ::
  "'a fzlib_scheme \<Rightarrow> int \<Rightarrow> cserver \<Rightarrow> server_path \<Rightarrow> wstring \<Rightarrow> server_path \<Rightarrow> wstring \<Rightarrow> dir_cache \<Rightarrow> dir_cache" where
  "Rename lib now server pathFrom fileFrom pathTo fileTo c =
     (case GetServerEntry lib server c of
        None \<Rightarrow> c
      | Some sid \<Rightarrow>
          (case lookup_entry lib now sid pathFrom True c of
             (Some (cid, _), c1) \<Rightarrow>
               if path_eq pathFrom pathTo then rename_same lib now server pathFrom fileFrom fileTo cid c1
               else rename_other lib now server pathFrom fileFrom pathTo fileTo cid c1
           | (None, c1) \<Rightarrow> InvalidateServer lib server c1))"

definition UpdateOwnerGroup ::
  "'a fzlib_scheme \<Rightarrow> int \<Rightarrow> cserver \<Rightarrow> server_path \<Rightarrow> wstring \<Rightarrow> wstring \<Rightarrow> dir_cache \<Rightarrow> dir_cache" where
  "UpdateOwnerGroup lib now server path filename ownerGroup c =
     (case GetServerEntry lib server c of
        None \<Rightarrow> c
      | Some sid \<Rightarrow>
          (case lookup_entry lib now sid path True c of
             (Some (cid, _), c1) \<Rightarrow>
               (case get_entry c1 cid of
                  None \<Rightarrow> c1
                | Some e \<Rightarrow>
                    let l = ce_listing e
                    in case find_idx (\<lambda>d. de_name d = filename) (ls_entries l) of
                         Some i \<Rightarrow>
                           if is_dir (ls_entries l ! i) then c1
                           else set_listing cid (ClearFindMap
                             (l\<lparr>ls_entries := (ls_entries l)[i := (ls_entries l ! i)\<lparr>de_ownerGroup := ownerGroup\<rparr>]\<rparr>)) c1
                       | None \<Rightarrow> InvalidateServer lib server c1)
           | (None, c1) \<Rightarrow> InvalidateServer lib server c1))"

definition SetTtl :: "int \<Rightarrow> dir_cache \<Rightarrow> dir_cache" where
  "SetTtl ttl c =
     c\<lparr>dc_ttl := (if ttl < 30000 then 30000 else if ttl > 86400000 then 86400000 else ttl)\<rparr>"

end
