(* ===== verification/Cache_Invariant.thy ===== *)
theory Cache_Invariant
  imports Directory_Cache
begin

text \<open>
  The invariant of the directory cache: the identities are fresh and unique, each server has its
  entries in path order, the least-recently-used list has exactly one node per entry, and the file
  count is the number of files in all listings. Moving an entry to the end of the list keeps it.
\<close>

subsection \<open>The invariant\<close>

text \<open>
  The listings in the cache have valid search maps, and the map that ignores case is only there
  with the other one, as \<^verbatim>\<open>ClearFindMap\<close> expects.
\<close>

definition cl_ok :: "'a fzlib_scheme \<Rightarrow> listing \<Rightarrow> bool" where
  "cl_ok lib l \<longleftrightarrow> ls_ok lib l \<and> (ls_searchmap_case l = None \<longrightarrow> ls_searchmap_nocase l = None)"

definition entry_ok :: "'a fzlib_scheme \<Rightarrow> cache_entry \<Rightarrow> bool" where
  "entry_ok lib e \<longleftrightarrow> key_ok (ce_path e) \<and> cl_ok lib (ce_listing e)"

definition path_sorted :: "'a fzlib_scheme \<Rightarrow> cache_entry list \<Rightarrow> bool" where
  "path_sorted lib = sorted_wrt (\<lambda>a b. path_less lib (ce_path a) (ce_path b))"

text \<open>The entries with the server entry they belong to.\<close>

definition indexed :: "dir_cache \<Rightarrow> (nat \<times> cache_entry) set" where
  "indexed c = {(se_id s, e) | s e. s \<in> set (dc_servers c) \<and> e \<in> set (se_cache s)}"

definition struct_ok :: "'a fzlib_scheme \<Rightarrow> dir_cache \<Rightarrow> bool" where
  "struct_ok lib c \<longleftrightarrow>
     distinct (map se_id (dc_servers c)) \<and> (\<forall>s \<in> set (dc_servers c). se_id s < dc_next c) \<and>
     distinct (map ce_id (all_entries c)) \<and> (\<forall>e \<in> set (all_entries c). ce_id e < dc_next c \<and> entry_ok lib e) \<and>
     sorted_wrt (\<lambda>a b. \<not> SameContent lib (se_server a) (se_server b)) (dc_servers c) \<and>
     (\<forall>s \<in> set (dc_servers c). path_sorted lib (se_cache s))"

definition lru_ok :: "dir_cache \<Rightarrow> bool" where
  "lru_ok c \<longleftrightarrow>
     distinct (map fst (dc_lru c)) \<and> (\<forall>x \<in> set (dc_lru c). fst x < dc_next c) \<and>
     (\<forall>n sid cid. (n, sid, cid) \<in> set (dc_lru c) \<longleftrightarrow>
        (\<exists>e. (sid, e) \<in> indexed c \<and> ce_id e = cid \<and> ce_lruIt e = Some n))"

definition linked :: "dir_cache \<Rightarrow> bool" where
  "linked c \<longleftrightarrow> (\<forall>e \<in> set (all_entries c). ce_lruIt e \<noteq> None)"

definition file_count :: "dir_cache \<Rightarrow> int" where
  "file_count c = sum_list (map (\<lambda>e. int (ls_size (ce_listing e))) (all_entries c))"

definition cache_ok :: "'a fzlib_scheme \<Rightarrow> dir_cache \<Rightarrow> bool" where
  "cache_ok lib c \<longleftrightarrow> struct_ok lib c \<and> lru_ok c \<and> linked c \<and> dc_total c = file_count c"

lemma all_entries_indexed: "set (all_entries c) = snd ` indexed c"
  by (force simp: all_entries_def indexed_def)

lemma indexed_all: "(sid, e) \<in> indexed c \<Longrightarrow> e \<in> set (all_entries c)"
  by (force simp: all_entries_indexed)

lemma indexed_servers: "(sid, e) \<in> indexed c \<longleftrightarrow> (\<exists>s \<in> set (dc_servers c). se_id s = sid \<and> e \<in> set (se_cache s))"
  by (auto simp: indexed_def)

lemma find_distinct:
  "distinct (map k xs) \<Longrightarrow> find (\<lambda>x. k x = v) xs = Some x \<longleftrightarrow> x \<in> set xs \<and> k x = v"
  by (induction xs) auto

lemma get_entry_Some:
  "struct_ok lib c \<Longrightarrow> get_entry c cid = Some e \<longleftrightarrow> e \<in> set (all_entries c) \<and> ce_id e = cid"
  by (simp add: get_entry_def struct_ok_def find_distinct)

lemma entries_of_mem:
  assumes "struct_ok lib c"
  shows "e \<in> set (entries_of c sid) \<longleftrightarrow> (sid, e) \<in> indexed c"
proof -
  have d: "distinct (map se_id (dc_servers c))" using assms by (simp add: struct_ok_def)
  show ?thesis
  proof (cases "find (\<lambda>s. se_id s = sid) (dc_servers c)")
    case None
    then have "entries_of c sid = []" by (simp add: entries_of_def)
    moreover have "\<forall>s\<in>set (dc_servers c). se_id s \<noteq> sid" using None by (simp add: find_None_iff)
    ultimately show ?thesis by (auto simp: indexed_servers)
  next
    case (Some s)
    then have "s \<in> set (dc_servers c)" "se_id s = sid" by (simp_all add: find_distinct [OF d])
    moreover have "s' = s" if "s' \<in> set (dc_servers c)" "se_id s' = sid" for s'
      using that calculation d by (auto simp: distinct_map inj_on_def)
    ultimately have "(sid, e) \<in> indexed c \<longleftrightarrow> e \<in> set (se_cache s)" unfolding indexed_servers by blast
    then show ?thesis using Some by (simp add: entries_of_def)
  qed
qed

lemma entries_of_server:
  "struct_ok lib c \<Longrightarrow> s \<in> set (dc_servers c) \<Longrightarrow> entries_of c (se_id s) = se_cache s"
  using find_distinct [of se_id "dc_servers c" "se_id s" s] by (simp add: struct_ok_def entries_of_def)

lemma indexed_unique:
  assumes "struct_ok lib c" "(s1, e1) \<in> indexed c" "(s2, e2) \<in> indexed c" "ce_id e1 = ce_id e2"
  shows "e1 = e2"
  using assms by (force simp: struct_ok_def all_entries_indexed distinct_map inj_on_def)

subsection \<open>Updating an entry in place\<close>

lemma map_entry_simps [simp]:
  "dc_lru (map_entry cid f c) = dc_lru c" "dc_total (map_entry cid f c) = dc_total c"
  "dc_next (map_entry cid f c) = dc_next c" "dc_ttl (map_entry cid f c) = dc_ttl c"
  "map se_id (dc_servers (map_entry cid f c)) = map se_id (dc_servers c)"
  "map se_server (dc_servers (map_entry cid f c)) = map se_server (dc_servers c)"
  by (simp_all add: map_entry_def comp_def)

lemma all_entries_map_entry:
  "all_entries (map_entry cid f c) = map (\<lambda>e. if ce_id e = cid then f e else e) (all_entries c)"
  by (simp add: all_entries_def map_entry_def map_concat comp_def)

lemma indexed_map_entry:
  "(sid, e1) \<in> indexed (map_entry cid f c) \<longleftrightarrow>
     (\<exists>e. (sid, e) \<in> indexed c \<and> e1 = (if ce_id e = cid then f e else e))"
proof -
  define g where "g = (\<lambda>e. if ce_id e = cid then f e else e)"
  have "(sid, e1) \<in> indexed (map_entry cid f c) \<longleftrightarrow>
      (\<exists>s \<in> set (dc_servers c). se_id s = sid \<and> e1 \<in> g ` set (se_cache s))"
    by (simp add: indexed_servers map_entry_def g_def [symmetric])
  also have "\<dots> \<longleftrightarrow> (\<exists>e. (sid, e) \<in> indexed c \<and> e1 = g e)" by (auto simp: indexed_servers)
  finally show ?thesis by (simp add: g_def)
qed

lemma indexed_map_entry_ex:
  "(\<exists>e1. (sid, e1) \<in> indexed (map_entry cid f c) \<and> P e1) \<longleftrightarrow>
     (\<exists>e. (sid, e) \<in> indexed c \<and> P (if ce_id e = cid then f e else e))"
  unfolding indexed_map_entry by blast

lemma path_sorted_map:
  "(\<And>e. e \<in> set es \<Longrightarrow> ce_path (g e) = ce_path e) \<Longrightarrow> path_sorted lib (map g es) = path_sorted lib es"
  by (induction es) (auto simp: path_sorted_def)

text \<open>The changes to an entry that the operations make.\<close>

definition keeps_key :: "(cache_entry \<Rightarrow> cache_entry) \<Rightarrow> cache_entry \<Rightarrow> bool" where
  "keeps_key f e \<longleftrightarrow> ce_id (f e) = ce_id e \<and> ce_path (f e) = ce_path e"

lemma struct_ok_map_entry:
  assumes ok: "struct_ok lib c"
    and f: "\<And>e. e \<in> set (all_entries c) \<Longrightarrow> ce_id e = cid \<Longrightarrow> keeps_key f e \<and> (entry_ok lib e \<longrightarrow> entry_ok lib (f e))"
  shows "struct_ok lib (map_entry cid f c)"
proof -
  let ?g = "\<lambda>e. if ce_id e = cid then f e else e"
  have id: "e \<in> set (all_entries c) \<Longrightarrow> ce_id (?g e) = ce_id e" for e using f by (auto simp: keeps_key_def)
  then have ids: "map ce_id (all_entries (map_entry cid f c)) = map ce_id (all_entries c)"
    by (simp add: all_entries_map_entry)
  have "sorted_wrt (\<lambda>a b. \<not> SameContent lib (se_server a) (se_server b)) (dc_servers (map_entry cid f c))"
    using ok by (simp add: struct_ok_def map_entry_def sorted_wrt_map)
  moreover have "path_sorted lib (se_cache s)" if s: "s \<in> set (dc_servers (map_entry cid f c))" for s
  proof -
    obtain s0 where s0: "s0 \<in> set (dc_servers c)" "se_cache s = map ?g (se_cache s0)"
      using s by (auto simp: map_entry_def)
    have "ce_path (?g e) = ce_path e" if "e \<in> set (se_cache s0)" for e
      using that s0(1) f by (auto simp: keeps_key_def all_entries_def)
    with s0 ok show ?thesis by (simp add: path_sorted_map struct_ok_def)
  qed
  moreover have "\<forall>e \<in> set (all_entries (map_entry cid f c)). ce_id e < dc_next c \<and> entry_ok lib e"
  proof
    fix e1 assume "e1 \<in> set (all_entries (map_entry cid f c))"
    then obtain e where e: "e \<in> set (all_entries c)" "e1 = ?g e" by (auto simp: all_entries_map_entry)
    then have "ce_id e < dc_next c" "entry_ok lib e" using ok by (auto simp: struct_ok_def)
    with e id [OF e(1)] f [OF e(1)] show "ce_id e1 < dc_next c \<and> entry_ok lib e1" by auto
  qed
  moreover have "\<forall>s \<in> set (dc_servers (map_entry cid f c)). se_id s < dc_next c"
    using ok by (auto simp: struct_ok_def map_entry_def)
  ultimately show ?thesis using ok ids by (simp add: struct_ok_def)
qed

lemma lru_ok_map_entry:
  assumes "lru_ok c" "\<And>e. e \<in> set (all_entries c) \<Longrightarrow> ce_id e = cid \<Longrightarrow> ce_id (f e) = ce_id e \<and> ce_lruIt (f e) = ce_lruIt e"
  shows "lru_ok (map_entry cid f c)"
proof -
  define g where "g = (\<lambda>e. if ce_id e = cid then f e else e)"
  have g: "ce_id (g e) = ce_id e \<and> ce_lruIt (g e) = ce_lruIt e" if "(s, e) \<in> indexed c" for s e
    using that assms(2) [of e] unfolding g_def by (force simp: all_entries_indexed)
  have ix: "(sid, e1) \<in> indexed (map_entry cid f c) \<longleftrightarrow> (\<exists>e. (sid, e) \<in> indexed c \<and> e1 = g e)" for sid e1
    unfolding indexed_map_entry g_def ..
  have "(\<exists>e. (sid, e) \<in> indexed (map_entry cid f c) \<and> ce_id e = i \<and> ce_lruIt e = Some n) \<longleftrightarrow>
      (\<exists>e. (sid, e) \<in> indexed c \<and> ce_id e = i \<and> ce_lruIt e = Some n)" for sid i n
    unfolding ix using g [of sid] by auto
  with assms(1) show ?thesis unfolding lru_ok_def map_entry_simps by blast
qed

lemma sum_map_entry:
  fixes g :: "cache_entry \<Rightarrow> int"
  assumes "distinct (map ce_id es)" "e \<in> set es" "ce_id e = cid"
  shows "sum_list (map g (map (\<lambda>e. if ce_id e = cid then f e else e) es)) = sum_list (map g es) + g (f e) - g e"
  using assms
proof (induction es)
  case (Cons x xs)
  show ?case
  proof (cases "x = e")
    case True
    then have "ce_id y \<noteq> cid" if "y \<in> set xs" for y using that Cons.prems by (auto simp: image_iff)
    then have "map (\<lambda>e. if ce_id e = cid then f e else e) xs = xs" by (intro map_idI) auto
    with True Cons.prems show ?thesis by simp
  next
    case False
    then have "ce_id x \<noteq> cid" using Cons.prems by force
    with False Cons show ?thesis by simp
  qed
qed simp

lemma file_count_map_entry:
  assumes "struct_ok lib c" "e \<in> set (all_entries c)" "ce_id e = cid"
  shows "file_count (map_entry cid f c) = file_count c + int (ls_size (ce_listing (f e))) - int (ls_size (ce_listing e))"
  using sum_map_entry [OF _ assms(2,3), of "\<lambda>e. int (ls_size (ce_listing e))" f] assms(1)
  by (simp add: file_count_def all_entries_map_entry struct_ok_def)

lemma distinct_concat_owner:
  assumes "distinct (map k (concat (map f ss)))" "s1 \<in> set ss" "s2 \<in> set ss"
    "x \<in> set (f s1)" "y \<in> set (f s2)" "k x = k y"
  shows "s1 = s2"
  using assms
proof (induction ss)
  case (Cons a ss)
  have disj: "k u \<noteq> k v" if "u \<in> set (f a)" "v \<in> set (f s)" "s \<in> set ss" for u v s
  proof -
    have "k ` set (f a) \<inter> k ` set (concat (map f ss)) = {}" using Cons.prems(1) by simp
    moreover have "k u \<in> k ` set (f a)" "k v \<in> k ` set (concat (map f ss))" using that by auto
    ultimately show ?thesis by (metis disjoint_iff)
  qed
  show ?case
  proof (cases "s1 = a \<or> s2 = a")
    case True
    then show ?thesis using Cons.prems disj [of x y s2] disj [of y x s1] by auto
  next
    case False
    then show ?thesis using Cons by auto
  qed
qed simp

lemma indexed_owner:
  assumes "struct_ok lib c" "(s1, e1) \<in> indexed c" "(s2, e2) \<in> indexed c" "ce_id e1 = ce_id e2"
  shows "s1 = s2"
proof -
  obtain a b where ab: "a \<in> set (dc_servers c)" "b \<in> set (dc_servers c)" "se_id a = s1" "se_id b = s2"
    "e1 \<in> set (se_cache a)" "e2 \<in> set (se_cache b)"
    using assms(2,3) by (auto simp: indexed_servers)
  have "a = b"
    using distinct_concat_owner [of ce_id se_cache "dc_servers c" a b e1 e2] assms(1,4) ab
    by (simp add: struct_ok_def all_entries_def)
  with ab show ?thesis by simp
qed

subsection \<open>The list of the least recently used entries\<close>

lemma frame_simps [simp]:
  "struct_ok lib (c\<lparr>dc_lru := x\<rparr>) = struct_ok lib c" "struct_ok lib (c\<lparr>dc_total := t\<rparr>) = struct_ok lib c"
  "struct_ok lib (c\<lparr>dc_ttl := t\<rparr>) = struct_ok lib c"
  "indexed (c\<lparr>dc_lru := x\<rparr>) = indexed c" "indexed (c\<lparr>dc_total := t\<rparr>) = indexed c" "indexed (c\<lparr>dc_next := n\<rparr>) = indexed c"
  "all_entries (c\<lparr>dc_lru := x\<rparr>) = all_entries c" "all_entries (c\<lparr>dc_total := t\<rparr>) = all_entries c"
  "all_entries (c\<lparr>dc_next := n\<rparr>) = all_entries c"
  "entries_of (c\<lparr>dc_lru := x\<rparr>) = entries_of c" "entries_of (c\<lparr>dc_total := t\<rparr>) = entries_of c"
  "entries_of (c\<lparr>dc_next := n\<rparr>) = entries_of c"
  "get_entry (c\<lparr>dc_lru := x\<rparr>) = get_entry c" "get_entry (c\<lparr>dc_total := t\<rparr>) = get_entry c"
  "lru_ok (c\<lparr>dc_total := t\<rparr>) = lru_ok c" "lru_ok (c\<lparr>dc_ttl := t\<rparr>) = lru_ok c"
  "linked (c\<lparr>dc_total := t\<rparr>) = linked c" "linked (c\<lparr>dc_lru := x\<rparr>) = linked c"
  "linked (c\<lparr>dc_ttl := t\<rparr>) = linked c"
  "file_count (c\<lparr>dc_total := t\<rparr>) = file_count c" "file_count (c\<lparr>dc_lru := x\<rparr>) = file_count c"
  "file_count (c\<lparr>dc_ttl := t\<rparr>) = file_count c"
  by (simp_all add: struct_ok_def indexed_def all_entries_def entries_of_def get_entry_def lru_ok_def linked_def
      file_count_def fun_eq_iff)

lemma move_to_end:
  assumes "distinct (map fst xs)" "(n, y) \<in> set xs"
  shows "set (filter (\<lambda>x. fst x \<noteq> n) xs @ [(n, y)]) = set xs"
    and "distinct (map fst (filter (\<lambda>x. fst x \<noteq> n) xs @ [(n, y)]))"
proof -
  have uniq: "x = (n, y)" if "x \<in> set xs" "fst x = n" for x
    using assms that by (auto simp: distinct_map inj_on_def)
  show "set (filter (\<lambda>x. fst x \<noteq> n) xs @ [(n, y)]) = set xs"
  proof (intro set_eqI iffI)
    fix x assume "x \<in> set xs"
    then show "x \<in> set (filter (\<lambda>x. fst x \<noteq> n) xs @ [(n, y)])" using uniq [of x] by (cases "fst x = n") simp_all
  qed (use assms(2) in auto)
  have "distinct (map fst (filter (\<lambda>x. fst x \<noteq> n) xs))" using assms(1) by (rule distinct_map_filter)
  then show "distinct (map fst (filter (\<lambda>x. fst x \<noteq> n) xs @ [(n, y)]))" by auto
qed

lemma UpdateLru_old:
  assumes ok: "struct_ok lib c" "lru_ok c" and e: "(sid, e) \<in> indexed c" "ce_id e = cid" "ce_lruIt e = Some n"
  defines "lru \<equiv> filter (\<lambda>x. fst x \<noteq> n) (dc_lru c) @ [(n, sid, cid)]"
  shows "UpdateLru sid cid c = c\<lparr>dc_lru := lru\<rparr>" and "lru_ok (c\<lparr>dc_lru := lru\<rparr>)"
proof -
  have "get_entry c cid = Some e" using e indexed_all by (simp add: get_entry_Some [OF ok(1)])
  then show "UpdateLru sid cid c = c\<lparr>dc_lru := lru\<rparr>" using e(3) by (simp add: UpdateLru_def lru_def)
  have "(n, sid, cid) \<in> set (dc_lru c)" using ok(2) e unfolding lru_ok_def by blast
  moreover have "distinct (map fst (dc_lru c))" using ok(2) by (simp add: lru_ok_def)
  ultimately have "set lru = set (dc_lru c)" "distinct (map fst lru)"
    unfolding lru_def using move_to_end [of "dc_lru c" n "(sid, cid)"] by blast+
  with ok(2) show "lru_ok (c\<lparr>dc_lru := lru\<rparr>)" by (simp add: lru_ok_def)
qed

lemma cache_ok_UpdateLru:
  assumes ok: "cache_ok lib c" and e: "(sid, e) \<in> indexed c" "ce_id e = cid"
  obtains lru where "UpdateLru sid cid c = c\<lparr>dc_lru := lru\<rparr>" "cache_ok lib (c\<lparr>dc_lru := lru\<rparr>)"
proof -
  obtain n where "ce_lruIt e = Some n"
    using ok e(1) indexed_all by (fastforce simp: cache_ok_def linked_def)
  note upd = UpdateLru_old [OF _ _ e this]
  have "struct_ok lib c" "lru_ok c" using ok by (simp_all add: cache_ok_def)
  from upd [OF this] ok that show ?thesis by (simp add: cache_ok_def)
qed

text \<open>A new entry gets a new node.\<close>

lemma UpdateLru_new:
  assumes ok: "struct_ok lib c" "lru_ok c" and e: "(sid, e) \<in> indexed c" "ce_id e = cid" "ce_lruIt e = None"
    and others: "\<And>x. x \<in> set (all_entries c) \<Longrightarrow> ce_id x \<noteq> cid \<Longrightarrow> ce_lruIt x \<noteq> None"
  shows "struct_ok lib (UpdateLru sid cid c)" "lru_ok (UpdateLru sid cid c)" "linked (UpdateLru sid cid c)"
    "file_count (UpdateLru sid cid c) = file_count c" "dc_total (UpdateLru sid cid c) = dc_total c"
    "dc_lru (UpdateLru sid cid c) = dc_lru c @ [(dc_next c, sid, cid)]"
    "UpdateLru sid cid c = map_entry cid (\<lambda>e. e\<lparr>ce_lruIt := Some (dc_next c)\<rparr>)
       (c\<lparr>dc_lru := dc_lru c @ [(dc_next c, sid, cid)], dc_next := Suc (dc_next c)\<rparr>)"
proof -
  define c0 where "c0 = c\<lparr>dc_lru := dc_lru c @ [(dc_next c, sid, cid)], dc_next := Suc (dc_next c)\<rparr>"
  define f where "f = (\<lambda>e :: cache_entry. e\<lparr>ce_lruIt := Some (dc_next c)\<rparr>)"
  have ea: "e \<in> set (all_entries c)" using e(1) by (rule indexed_all)
  then have "get_entry c cid = Some e" using e(2) by (simp add: get_entry_Some [OF ok(1)])
  then have u: "UpdateLru sid cid c = map_entry cid f c0" using e(3) by (simp add: UpdateLru_def c0_def f_def)
  show "UpdateLru sid cid c = map_entry cid (\<lambda>e. e\<lparr>ce_lruIt := Some (dc_next c)\<rparr>)
       (c\<lparr>dc_lru := dc_lru c @ [(dc_next c, sid, cid)], dc_next := Suc (dc_next c)\<rparr>)"
    using u by (simp add: c0_def f_def)
  have c0: "struct_ok lib c0" "all_entries c0 = all_entries c" "indexed c0 = indexed c"
    using ok(1) by (auto simp: c0_def struct_ok_def less_Suc_eq all_entries_def indexed_def)
  show "struct_ok lib (UpdateLru sid cid c)"
    unfolding u by (rule struct_ok_map_entry [OF c0(1)]) (auto simp: f_def keeps_key_def entry_ok_def ce_path_def)
  show "linked (UpdateLru sid cid c)"
    unfolding u linked_def all_entries_map_entry using others by (auto simp: c0(2) f_def)
  show "file_count (UpdateLru sid cid c) = file_count c"
    using file_count_map_entry [OF c0(1), of e cid f] ea e(2) unfolding u
    by (simp add: c0(2) f_def file_count_def)
  show "dc_total (UpdateLru sid cid c) = dc_total c" "dc_lru (UpdateLru sid cid c) = dc_lru c @ [(dc_next c, sid, cid)]"
    unfolding u by (simp_all add: c0_def)
  have uniq: "(s1, x) \<in> indexed c \<Longrightarrow> ce_id x = cid \<Longrightarrow> s1 = sid \<and> x = e" for s1 x
    using indexed_owner [OF ok(1) _ e(1)] indexed_unique [OF ok(1) _ e(1)] e(2) by simp
  have "(\<exists>x. (s1, x) \<in> indexed (map_entry cid f c0) \<and> ce_id x = i \<and> ce_lruIt x = Some n) \<longleftrightarrow>
      (n, s1, i) = (dc_next c, sid, cid) \<or> (\<exists>x. (s1, x) \<in> indexed c \<and> ce_id x = i \<and> ce_lruIt x = Some n)" for s1 i n
  proof -
    have lhs: "(\<exists>x. (s1, x) \<in> indexed (map_entry cid f c0) \<and> ce_id x = i \<and> ce_lruIt x = Some n) \<longleftrightarrow>
      (\<exists>x. (s1, x) \<in> indexed c \<and> ce_id x = i \<and> (if i = cid then n = dc_next c else ce_lruIt x = Some n))"
    proof -
      define g where "g = (\<lambda>e. if ce_id e = cid then f e else e)"
      have g: "ce_id (g x) = ce_id x" "ce_lruIt (g x) = (if ce_id x = cid then Some (dc_next c) else ce_lruIt x)" for x
        by (simp_all add: g_def f_def)
      have "(s1, x1) \<in> indexed (map_entry cid f c0) \<longleftrightarrow> (\<exists>x. (s1, x) \<in> indexed c \<and> x1 = g x)" for x1
        unfolding indexed_map_entry c0(3) g_def ..
      then show ?thesis by (auto simp: g split: if_splits)
    qed
    show ?thesis
    proof (cases "i = cid")
      case True
      have "(\<exists>x. (s1, x) \<in> indexed c \<and> ce_id x = cid \<and> P x) \<longleftrightarrow> s1 = sid \<and> P e" for P
        using uniq [of s1] e(1,2) by metis
      with lhs True e(3) show ?thesis by auto
    qed (use lhs in auto)
  qed
  moreover have "\<forall>x\<in>set (dc_lru c). fst x < dc_next c" "distinct (map fst (dc_lru c))"
    using ok(2) by (auto simp: lru_ok_def)
  moreover have "dc_next c \<notin> fst ` set (dc_lru c)" using calculation(2) by auto
  ultimately show "lru_ok (UpdateLru sid cid c)"
    unfolding u using ok(2) by (auto simp: lru_ok_def c0_def less_Suc_eq)
qed

end
