(* ===== verification/Cache_Updates.thy ===== *)
theory Cache_Updates
  imports Cache_Invariant
begin

text \<open>
  Lookups in the directory cache, and the loops that update the entries of one server.
\<close>

subsection \<open>Lookup\<close>

lemma lower_bound_mem:
  assumes lib: "opt_less_total lib" and "path_sorted lib es" "e \<in> set es"
  shows "lower_bound lib (ce_path e) es = Some e"
  using assms(2,3)
proof (induction es)
  case (Cons x xs)
  have irr: "\<not> path_less lib p p" for p
    using path_less_strict_weak [OF lib] by (simp add: strict_weak_def)
  show ?case
  proof (cases "x = e")
    case True
    then show ?thesis using irr by (simp add: lower_bound_def)
  next
    case False
    then have "path_less lib (ce_path x) (ce_path e)" "e \<in> set xs" using Cons.prems by (auto simp: path_sorted_def)
    with Cons show ?thesis by (simp add: lower_bound_def path_sorted_def)
  qed
qed simp

lemma entries_of_sorted: "struct_ok lib c \<Longrightarrow> path_sorted lib (entries_of c sid)"
  by (auto simp: struct_ok_def entries_of_def path_sorted_def find_Some_iff split: option.splits)

lemma lower_bound_entry: "lower_bound lib path es = Some e \<Longrightarrow> e \<in> set es"
  by (auto simp: lower_bound_def find_Some_iff)

lemma lookup_entry_found:
  assumes "opt_less_total lib" "struct_ok lib c" "(sid, e) \<in> indexed c"
  shows "lookup_entry lib now sid (ce_path e) allow c =
    (if \<not> allow \<and> get_unsure_flags (ce_listing e) \<noteq> 0 then None
     else Some (ce_id e, now - ls_firstListTime (ce_listing e) > dc_ttl c),
     UpdateLru sid (ce_id e) c)"
proof -
  have "e \<in> set (entries_of c sid)" using assms(3) by (simp add: entries_of_mem [OF assms(2)])
  then have "lower_bound lib (ce_path e) (entries_of c sid) = Some e"
    using lower_bound_mem [OF assms(1) entries_of_sorted [OF assms(2)]] by blast
  then show ?thesis by (simp add: lookup_entry_def path_eq_iff Let_def)
qed

lemma lookup_entry_absent:
  assumes "struct_ok lib c" "\<And>e. (sid, e) \<in> indexed c \<Longrightarrow> ce_path e \<noteq> path"
  shows "lookup_entry lib now sid path allow c = (None, c)"
  using assms(2) lower_bound_entry [of lib path "entries_of c sid"]
  by (auto simp: lookup_entry_def path_eq_iff entries_of_mem [OF assms(1)] split: option.splits)

lemma lookup_entry_ok:
  assumes "cache_ok lib c" "lookup_entry lib now sid path allow c = (r, c1)"
  shows "cache_ok lib c1 \<and> (\<exists>lru. c1 = c\<lparr>dc_lru := lru\<rparr>) \<and>
    (\<forall>cid o1. r = Some (cid, o1) \<longrightarrow> (\<exists>e. (sid, e) \<in> indexed c \<and> ce_id e = cid \<and> ce_path e = path))"
proof (cases "lower_bound lib path (entries_of c sid)")
  case None
  then have "r = None" "c1 = c" using assms(2) by (auto simp: lookup_entry_def)
  moreover have "c = c\<lparr>dc_lru := dc_lru c\<rparr>" by simp
  ultimately show ?thesis using assms(1) by blast
next
  case (Some e)
  have s: "struct_ok lib c" using assms(1) by (simp add: cache_ok_def)
  have e: "(sid, e) \<in> indexed c" using lower_bound_entry [OF Some] by (simp add: entries_of_mem [OF s])
  show ?thesis
  proof (cases "ce_path e = path")
    case True
    obtain lru where "UpdateLru sid (ce_id e) c = c\<lparr>dc_lru := lru\<rparr>" "cache_ok lib (c\<lparr>dc_lru := lru\<rparr>)"
      using cache_ok_UpdateLru [OF assms(1) e refl] .
    moreover have "c1 = UpdateLru sid (ce_id e) c" "r = None \<or> (\<exists>o1. r = Some (ce_id e, o1))"
      using assms(2) Some True by (auto simp: lookup_entry_def path_eq_iff Let_def split: if_splits)
    ultimately show ?thesis using e True by auto
  next
    case False
    then have "r = None" "c1 = c" using assms(2) Some by (auto simp: lookup_entry_def path_eq_iff)
    moreover have "c = c\<lparr>dc_lru := dc_lru c\<rparr>" by simp
    ultimately show ?thesis using assms(1) by blast
  qed
qed

subsection \<open>Operations on one entry\<close>

lemma cache_ok_map_entry:
  assumes ok: "cache_ok lib c" and e: "e \<in> set (all_entries c)" "ce_id e = cid"
    and f: "keeps_key f e" "entry_ok lib (f e)" "ce_lruIt (f e) = ce_lruIt e"
    and t: "t = dc_total c + int (ls_size (ce_listing (f e))) - int (ls_size (ce_listing e))"
  shows "cache_ok lib ((map_entry cid f c)\<lparr>dc_total := t\<rparr>)"
proof -
  have s: "struct_ok lib c" "lru_ok c" "linked c" "dc_total c = file_count c" using ok by (simp_all add: cache_ok_def)
  have u: "x = e" if "x \<in> set (all_entries c)" "ce_id x = cid" for x
    using that e s(1) by (auto simp: struct_ok_def distinct_map inj_on_def)
  have "struct_ok lib (map_entry cid f c)" using u f(1,2) by (intro struct_ok_map_entry [OF s(1)]) blast
  moreover have "lru_ok (map_entry cid f c)"
    by (rule lru_ok_map_entry [OF s(2)]) (use u f in \<open>auto simp: keeps_key_def\<close>)
  moreover have "linked (map_entry cid f c)"
    unfolding linked_def all_entries_map_entry
  proof
    fix x assume "x \<in> set (map (\<lambda>e. if ce_id e = cid then f e else e) (all_entries c))"
    then obtain y where y: "y \<in> set (all_entries c)" "x = (if ce_id y = cid then f y else y)" by auto
    then show "ce_lruIt x \<noteq> None" using u [OF y(1)] f(3) s(3) e(1) by (cases "ce_id y = cid") (auto simp: linked_def)
  qed
  moreover have "t = file_count (map_entry cid f c)" using file_count_map_entry [OF s(1) e] t s(4) by simp
  ultimately show ?thesis by (simp add: cache_ok_def)
qed

lemma cache_ok_set_listing:
  assumes "cache_ok lib c" "e \<in> set (all_entries c)" "ce_id e = cid"
    "cl_ok lib l" "ls_path l = ce_path e" "ls_size l = ls_size (ce_listing e)"
  shows "cache_ok lib (set_listing cid l c)"
proof -
  have "entry_ok lib e" using assms(1,2) by (auto simp: cache_ok_def struct_ok_def)
  then have "cache_ok lib ((map_entry cid (\<lambda>e. e\<lparr>ce_listing := l\<rparr>) c)\<lparr>dc_total := dc_total c\<rparr>)"
    using assms by (intro cache_ok_map_entry [of lib c e]) (auto simp: keeps_key_def entry_ok_def ce_path_def)
  then show ?thesis by (simp add: set_listing_def map_entry_def)
qed

text \<open>The contract of the updates that the loops over a server make.\<close>

definition update_ok ::
  "'a fzlib_scheme \<Rightarrow> (cache_entry \<Rightarrow> cache_entry) \<Rightarrow> (cache_entry \<Rightarrow> int) \<Rightarrow> bool" where
  "update_ok lib f delta \<longleftrightarrow>
     (\<forall>e. entry_ok lib e \<longrightarrow>
        keeps_key f e \<and> entry_ok lib (f e) \<and> ce_lruIt (f e) = ce_lruIt e \<and>
        int (ls_size (ce_listing (f e))) = int (ls_size (ce_listing e)) + delta e)"

definition owns :: "dir_cache \<Rightarrow> nat \<Rightarrow> nat \<Rightarrow> bool" where
  "owns c sid cid \<longleftrightarrow> (\<exists>e. (sid, e) \<in> indexed c \<and> ce_id e = cid)"

lemma touch_entry_ok:
  assumes ok: "cache_ok lib c" and f: "update_ok lib f delta" and o: "owns c sid cid"
  shows "cache_ok lib (touch_entry sel f delta sid cid c)"
    and "dc_servers (touch_entry sel f delta sid cid c) =
      dc_servers (map_entry cid (\<lambda>e. if sel e then f e else e) c)"
proof -
  have s: "struct_ok lib c" using ok by (simp add: cache_ok_def)
  obtain e where e: "(sid, e) \<in> indexed c" "ce_id e = cid" using o by (auto simp: owns_def)
  note ea = indexed_all [OF e(1)]
  have get: "get_entry c cid = Some e" using ea e(2) by (simp add: get_entry_Some [OF s])
  have eo: "entry_ok lib e" using ea s by (auto simp: struct_ok_def)
  obtain lru where lru: "UpdateLru sid cid c = c\<lparr>dc_lru := lru\<rparr>" "cache_ok lib (c\<lparr>dc_lru := lru\<rparr>)"
    using cache_ok_UpdateLru [OF ok e] .
  have u: "ce_id x = cid \<Longrightarrow> x \<in> set (all_entries c) \<Longrightarrow> x = e" for x
    using ea e(2) s by (auto simp: struct_ok_def distinct_map inj_on_def)
  have fe: "keeps_key f e" "entry_ok lib (f e)" "ce_lruIt (f e) = ce_lruIt e"
    "dc_total c + delta e = dc_total c + int (ls_size (ce_listing (f e))) - int (ls_size (ce_listing e))"
    using f eo by (auto simp: update_ok_def)
  have t: "touch_entry sel f delta sid cid c =
      (if sel e then (map_entry cid f (c\<lparr>dc_lru := lru\<rparr>))\<lparr>dc_total := dc_total c + delta e\<rparr> else c)"
    by (simp add: touch_entry_def get lru(1) Let_def)
  have "cache_ok lib ((map_entry cid f (c\<lparr>dc_lru := lru\<rparr>))\<lparr>dc_total := dc_total c + delta e\<rparr>)"
    by (rule cache_ok_map_entry [OF lru(2) _ e(2) fe(1-3)]) (use ea fe(4) in simp_all)
  with t ok show "cache_ok lib (touch_entry sel f delta sid cid c)" by simp
  have sel: "sel x = sel e" if "x \<in> set (se_cache s)" "s \<in> set (dc_servers c)" "ce_id x = cid" for x s
  proof -
    have "x \<in> set (all_entries c)" using that(1,2) by (auto simp: all_entries_def)
    then show ?thesis using u [OF that(3)] by simp
  qed
  have "map (\<lambda>e. if ce_id e = cid then if sel e then f e else e else e) (se_cache s) =
      (if sel e then map (\<lambda>e. if ce_id e = cid then f e else e) (se_cache s) else se_cache s)"
    if "s \<in> set (dc_servers c)" for s
    using sel [OF _ that] by (auto intro: map_idI)
  then show "dc_servers (touch_entry sel f delta sid cid c) =
      dc_servers (map_entry cid (\<lambda>e. if sel e then f e else e) c)"
    by (auto simp: t map_entry_def intro: map_idI [symmetric])
qed

subsection \<open>Loops over the entries of a server\<close>

lemma owns_map_entry:
  assumes "struct_ok lib c" "\<And>e. e \<in> set (all_entries c) \<Longrightarrow> ce_id (f e) = ce_id e"
  shows "owns (map_entry x f c) sid cid = owns c sid cid"
proof -
  have "ce_id (if ce_id e = x then f e else e) = ce_id e" if "(sid, e) \<in> indexed c" for e
    using assms(2) [OF indexed_all [OF that]] by simp
  then show ?thesis unfolding owns_def indexed_map_entry_ex by (simp cong: conj_cong)
qed

lemma touch_fold_ok:
  assumes "cache_ok lib c" "update_ok lib f delta" "distinct cids" "\<And>cid. cid \<in> set cids \<Longrightarrow> owns c sid cid"
  shows "cache_ok lib (fold (touch_entry sel f delta sid) cids c) \<and>
    dc_servers (fold (touch_entry sel f delta sid) cids c) =
      map (\<lambda>s. s\<lparr>se_cache := map (\<lambda>e. if ce_id e \<in> set cids \<and> sel e then f e else e) (se_cache s)\<rparr>) (dc_servers c)"
  using assms(1,3,4)
proof (induction cids arbitrary: c)
  case Nil
  then show ?case by simp
next
  case (Cons x xs)
  define c1 where "c1 = touch_entry sel f delta sid x c"
  define g where "g = (\<lambda>e. if sel e then f e else e)"
  have s: "struct_ok lib c" using Cons.prems(1) by (simp add: cache_ok_def)
  have ids: "ce_id (g e) = ce_id e" if "e \<in> set (all_entries c)" for e
    using that s assms(2) by (auto simp: g_def update_ok_def keeps_key_def struct_ok_def)
  have ok1: "cache_ok lib c1" and s1: "dc_servers c1 = dc_servers (map_entry x g c)"
    using touch_entry_ok [OF Cons.prems(1) assms(2) Cons.prems(3), of x sel] unfolding c1_def g_def by simp_all
  have "owns c1 sid cid = owns (map_entry x g c) sid cid" for cid unfolding owns_def indexed_def s1 ..
  then have own1: "owns c1 sid cid" if "cid \<in> set xs" for cid
    using that owns_map_entry [OF s ids] Cons.prems(3) by simp
  have step: "map (\<lambda>e. if ce_id e \<in> set xs \<and> sel e then f e else e) (map (\<lambda>e. if ce_id e = x then g e else e) (se_cache t)) =
      map (\<lambda>e. if ce_id e \<in> set (x # xs) \<and> sel e then f e else e) (se_cache t)"
    if "t \<in> set (dc_servers c)" for t
  proof -
    have "ce_id (g e) = ce_id e" if "e \<in> set (se_cache t)" for e
      using ids [of e] that \<open>t \<in> set (dc_servers c)\<close> by (auto simp: all_entries_def)
    then show ?thesis using Cons.prems(2) by (auto simp: g_def)
  qed
  have "dc_servers (fold (touch_entry sel f delta sid) xs c1) =
      map (\<lambda>s. s\<lparr>se_cache := map (\<lambda>e. if ce_id e \<in> set xs \<and> sel e then f e else e) (se_cache s)\<rparr>) (dc_servers c1)"
    and "cache_ok lib (fold (touch_entry sel f delta sid) xs c1)"
    using Cons.IH [OF ok1 _ own1] Cons.prems(2) by simp_all
  then show ?case using step by (simp add: s1 map_entry_def c1_def [symmetric])
qed

lemma entries_ids:
  assumes "struct_ok lib c"
  shows "distinct (map ce_id (entries_of c sid))" "cid \<in> set (map ce_id (entries_of c sid)) \<longleftrightarrow> owns c sid cid"
proof -
  have "entries_of c sid = [] \<or> (\<exists>s\<in>set (dc_servers c). entries_of c sid = se_cache s)"
    by (auto simp: entries_of_def find_Some_iff split: option.splits)
  moreover have "distinct (map ce_id (se_cache s))" if "s \<in> set (dc_servers c)" for s
    using assms that by (auto simp: struct_ok_def all_entries_def map_concat distinct_concat_iff)
  ultimately show "distinct (map ce_id (entries_of c sid))" by auto
  show "cid \<in> set (map ce_id (entries_of c sid)) \<longleftrightarrow> owns c sid cid"
    by (auto simp: owns_def entries_of_mem [OF assms, symmetric])
qed

text \<open>A loop replaces the selected entries of the server and nothing else.\<close>

lemma touch_entries_ok:
  assumes "cache_ok lib c" "update_ok lib f delta"
  shows "cache_ok lib (touch_entries sel f delta sid c)"
    and "dc_servers (touch_entries sel f delta sid c) =
      map (\<lambda>s. if se_id s = sid then s\<lparr>se_cache := map (\<lambda>e. if sel e then f e else e) (se_cache s)\<rparr> else s) (dc_servers c)"
proof -
  have s: "struct_ok lib c" using assms(1) by (simp add: cache_ok_def)
  let ?ids = "map ce_id (entries_of c sid)"
  have *: "cache_ok lib (touch_entries sel f delta sid c) \<and>
    dc_servers (touch_entries sel f delta sid c) =
      map (\<lambda>s. s\<lparr>se_cache := map (\<lambda>e. if ce_id e \<in> set ?ids \<and> sel e then f e else e) (se_cache s)\<rparr>) (dc_servers c)"
    unfolding touch_entries_def
    by (rule touch_fold_ok [OF assms entries_ids(1) [OF s]]) (simp only: entries_ids(2) [OF s])
  then show "cache_ok lib (touch_entries sel f delta sid c)" ..
  have mem: "ce_id e \<in> set ?ids \<longleftrightarrow> se_id t = sid" if "t \<in> set (dc_servers c)" "e \<in> set (se_cache t)" for t e
  proof -
    have i: "(se_id t, e) \<in> indexed c" using that by (auto simp: indexed_servers)
    show ?thesis using i indexed_owner [OF s _ i] unfolding entries_ids(2) [OF s] owns_def by metis
  qed
  have "map (\<lambda>e. if ce_id e \<in> set ?ids \<and> sel e then f e else e) (se_cache t) =
      (if se_id t = sid then map (\<lambda>e. if sel e then f e else e) (se_cache t) else se_cache t)"
    if "t \<in> set (dc_servers c)" for t
    using mem [OF that] by (auto intro: map_idI)
  with * show "dc_servers (touch_entries sel f delta sid c) =
      map (\<lambda>s. if se_id s = sid then s\<lparr>se_cache := map (\<lambda>e. if sel e then f e else e) (se_cache s)\<rparr> else s) (dc_servers c)"
    by auto
qed

subsection \<open>The updates of a listing\<close>

lemma add_ls_flags_simps [simp]:
  "ls_path (add_ls_flags f l) = ls_path l" "ls_entries (add_ls_flags f l) = ls_entries l"
  "ls_ok lib (add_ls_flags f l) = ls_ok lib l" "ls_size (add_ls_flags f l) = ls_size l"
  by (simp_all add: add_ls_flags_def ls_size_def)

lemma add_flag_name [simp]: "de_name (add_flag f d) = de_name d"
  by (simp add: add_flag_def)

lemma map_name_if [simp]: "map de_name (map (\<lambda>d. if P d then add_flag f d else d) ds) = map de_name ds"
  by auto

lemma mark_until_names: "map de_name (fst (mark_until lib filename ds)) = map de_name ds"
  by (induction ds) (auto split: prod.splits)

lemma mark_until_length: "length (fst (mark_until lib filename ds)) = length ds"
  using mark_until_names [of lib filename ds] by (metis length_map)

lemma ls_path_update [simp]: "ls_path (update_listing lib filename mc t sz og l) = ls_path l"
  by (simp add: update_listing_def Let_def Append_def split: prod.splits option.splits)

lemma update_listing_size:
  "ls_size (update_listing lib filename mc t sz og l) =
     ls_size l + (if snd (mark_until lib filename (ls_entries l)) = None \<and> t \<noteq> ft_unknown \<and> mc then 1 else 0)"
  using mark_until_length [of lib filename "ls_entries l"]
  by (auto simp: update_listing_def Let_def Append_def ls_size_def split: prod.splits option.splits)

lemma cl_ok_names:
  "cl_ok lib l \<Longrightarrow> map de_name (ls_entries l) = map de_name es \<Longrightarrow> cl_ok lib (l\<lparr>ls_entries := es\<rparr>)"
  by (simp add: cl_ok_def ls_ok_names)

lemma cl_ok_simps [simp]:
  "cl_ok lib (add_ls_flags f l) = cl_ok lib l" "cl_ok lib l \<Longrightarrow> cl_ok lib (Append e l)" "cl_ok lib (clear_maps l)"
  by (simp_all add: cl_ok_def ls_ok_Append) (simp_all add: add_ls_flags_def Append_def clear_maps_def)

lemma cl_ok_ClearFindMap: "cl_ok lib l \<Longrightarrow> cl_ok lib (ClearFindMap (l\<lparr>ls_entries := es, ls_flags := f\<rparr>))"
  by (auto simp: cl_ok_def ClearFindMap_def ls_ok_def map_ok_def clear_maps_def)

lemma cl_ok_update: "cl_ok lib l \<Longrightarrow> cl_ok lib (update_listing lib filename mc t sz og l)"
  using cl_ok_names [of lib l "fst (mark_until lib filename (ls_entries l))"] mark_until_names [of lib filename "ls_entries l"]
  by (auto simp: update_listing_def Let_def split: prod.splits option.splits)

lemma cl_ok_invalidate: "cl_ok lib l \<Longrightarrow> cl_ok lib (invalidate_listing lib cc filename l)"
  by (simp add: invalidate_listing_def cl_ok_names del: map_map)

lemma cl_ok_RemoveEntry: "cl_ok lib l \<Longrightarrow> cl_ok lib (snd (RemoveEntry i l))"
  by (cases "i \<ge> ls_size l") (simp_all add: RemoveEntry_def cl_ok_def ls_ok_def clear_maps_def map_ok_def)

lemma cl_ok_remove: "cl_ok lib l \<Longrightarrow> cl_ok lib (remove_from_listing lib filename l)"
  by (simp add: remove_from_listing_def cl_ok_names cl_ok_RemoveEntry del: map_map split: option.splits)

lemma ls_path_remove [simp]:
  "ls_path (invalidate_listing lib cc filename l) = ls_path l" "ls_path (remove_from_listing lib filename l) = ls_path l"
  by (simp_all add: invalidate_listing_def remove_from_listing_def RemoveEntry_def clear_maps_def split: option.splits)

lemma remove_from_listing_size:
  "int (ls_size (remove_from_listing lib filename l)) =
     int (ls_size l) + (if find_idx (\<lambda>d. de_name d = filename) (ls_entries l) \<noteq> None then -1 else 0)"
  by (auto simp: remove_from_listing_def RemoveEntry_def ls_size_def clear_maps_def dest: find_idx_SomeD
      split: option.splits)

lemma update_ok_listing:
  assumes "\<And>l. cl_ok lib l \<Longrightarrow> cl_ok lib (g l) \<and> ls_path (g l) = ls_path l \<and> int (ls_size (g l)) = int (ls_size l) + d l"
  shows "update_ok lib (\<lambda>e. e\<lparr>ce_listing := g (ce_listing e), ce_modificationTime := now\<rparr>) (\<lambda>e. d (ce_listing e))"
  using assms by (auto simp: update_ok_def entry_ok_def keeps_key_def ce_path_def)

end
