(* ===== verification/Cache_Removal.thy ===== *)
theory Cache_Removal
  imports Cache_Updates "HOL-Library.Multiset"
begin

text \<open>
  Removal of entries from the directory cache, pruning, and the entry of a server.
\<close>

subsection \<open>Removal\<close>

lemma concat_filter_servers:
  assumes "\<And>s. s \<in> set ss \<Longrightarrow> \<not> Q (s\<lparr>se_cache := filter P (se_cache s)\<rparr>) \<Longrightarrow> filter P (se_cache s) = []"
  shows "concat (map se_cache (filter Q (map (\<lambda>s. s\<lparr>se_cache := filter P (se_cache s)\<rparr>) ss))) =
    filter P (concat (map se_cache ss))"
  using assms by (induction ss) auto

text \<open>
  What is left after the entries of a set are gone: their nodes and their share of the file count
  are gone with them, and only servers without entries may be dropped.
\<close>

lemma cache_ok_remove:
  assumes ok: "cache_ok lib c"
    and G: "G \<subseteq> set (all_entries c)"
    and servers: "dc_servers c1 = filter Q (map (\<lambda>s. s\<lparr>se_cache := filter (\<lambda>e. e \<notin> G) (se_cache s)\<rparr>) (dc_servers c))"
    and Q: "\<And>s. s \<in> set (dc_servers c) \<Longrightarrow> \<not> Q (s\<lparr>se_cache := filter (\<lambda>e. e \<notin> G) (se_cache s)\<rparr>) \<Longrightarrow>
      filter (\<lambda>e. e \<notin> G) (se_cache s) = []"
    and lru: "dc_lru c1 = filter (\<lambda>x. \<forall>e\<in>G. ce_lruIt e \<noteq> Some (fst x)) (dc_lru c)"
    and total: "dc_total c1 = dc_total c - sum_list (map (\<lambda>e. int (ls_size (ce_listing e))) (filter (\<lambda>e. e \<in> G) (all_entries c)))"
    and "next": "dc_next c1 = dc_next c"
  shows "cache_ok lib c1 \<and> (\<forall>sid e. (sid, e) \<in> indexed c1 \<longleftrightarrow> (sid, e) \<in> indexed c \<and> e \<notin> G)"
proof -
  let ?h = "\<lambda>s. s\<lparr>se_cache := filter (\<lambda>e. e \<notin> G) (se_cache s)\<rparr>"
  have s: "struct_ok lib c" "lru_ok c" "linked c" "dc_total c = file_count c" using ok by (simp_all add: cache_ok_def)
  have all: "all_entries c1 = filter (\<lambda>e. e \<notin> G) (all_entries c)"
    unfolding all_entries_def servers by (rule concat_filter_servers) (rule Q)
  have ix: "(sid, e) \<in> indexed c1 \<longleftrightarrow> (sid, e) \<in> indexed c \<and> e \<notin> G" for sid e
  proof
    assume "(sid, e) \<in> indexed c1"
    then show "(sid, e) \<in> indexed c \<and> e \<notin> G" by (auto simp: indexed_servers servers)
  next
    assume "(sid, e) \<in> indexed c \<and> e \<notin> G"
    then obtain t where t: "t \<in> set (dc_servers c)" "se_id t = sid" "e \<in> set (se_cache t)" "e \<notin> G"
      by (auto simp: indexed_servers)
    have "e \<in> set (filter (\<lambda>e. e \<notin> G) (se_cache t))" using t(3,4) by simp
    then have "filter (\<lambda>e. e \<notin> G) (se_cache t) \<noteq> []" by force
    then have "Q (?h t)" using Q [OF t(1)] by blast
    then have "?h t \<in> set (dc_servers c1)" using t(1) by (simp add: servers)
    moreover have "se_id (?h t) = sid" "e \<in> set (se_cache (?h t))" using t by simp_all
    ultimately show "(sid, e) \<in> indexed c1" unfolding indexed_servers by blast
  qed
  have sub: "\<exists>t \<in> set (dc_servers c). s1 = ?h t" if "s1 \<in> set (dc_servers c1)" for s1
    using that by (auto simp: servers)
  have "struct_ok lib c1"
    unfolding struct_ok_def
  proof (intro conjI ballI)
    show "distinct (map se_id (dc_servers c1))"
      using s(1) by (simp add: struct_ok_def servers filter_map comp_def distinct_map_filter)
    show "sorted_wrt (\<lambda>a b. \<not> SameContent lib (se_server a) (se_server b)) (dc_servers c1)"
      using s(1) by (simp add: struct_ok_def servers filter_map sorted_wrt_map comp_def sorted_wrt_filter)
    show "distinct (map ce_id (all_entries c1))" using s(1) by (simp add: all struct_ok_def distinct_map_filter)
  next
    fix e assume "e \<in> set (all_entries c1)"
    then show "ce_id e < dc_next c1" "entry_ok lib e" using s(1) by (auto simp: all "next" struct_ok_def)
  next
    fix s1 assume "s1 \<in> set (dc_servers c1)"
    then obtain t where t: "t \<in> set (dc_servers c)" "s1 = ?h t" using sub by blast
    then show "se_id s1 < dc_next c1" using s(1) by (simp add: "next" struct_ok_def)
    have "path_sorted lib (se_cache t)" using t(1) s(1) by (simp add: struct_ok_def)
    then show "path_sorted lib (se_cache s1)" using t(2) by (simp add: path_sorted_def sorted_wrt_filter)
  qed
  moreover have "lru_ok c1"
  proof -
    have "(n, sid, cid) \<in> set (dc_lru c1) \<longleftrightarrow> (\<exists>e. (sid, e) \<in> indexed c1 \<and> ce_id e = cid \<and> ce_lruIt e = Some n)" for n sid cid
    proof -
      have lru_c: "(n, sid, cid) \<in> set (dc_lru c) \<longleftrightarrow> (\<exists>e. (sid, e) \<in> indexed c \<and> ce_id e = cid \<and> ce_lruIt e = Some n)" for n sid cid
        using s(2) by (simp add: lru_ok_def)
      have "e \<in> G \<longleftrightarrow> (\<exists>g\<in>G. ce_lruIt g = Some n)" if "(sid, e) \<in> indexed c" "ce_lruIt e = Some n" for e
      proof
        assume "\<exists>g\<in>G. ce_lruIt g = Some n"
        then obtain g where g: "g \<in> G" "ce_lruIt g = Some n" by blast
        then obtain sg where "(sg, g) \<in> indexed c" using G by (auto simp: all_entries_indexed)
        then have "(n, sg, ce_id g) \<in> set (dc_lru c)" "(n, sid, ce_id e) \<in> set (dc_lru c)" using g that lru_c by blast+
        moreover have "distinct (map fst (dc_lru c))" using s(2) by (simp add: lru_ok_def)
        ultimately have "ce_id g = ce_id e" by (metis (no_types) eq_key_imp_eq_value prod.inject)
        then show "e \<in> G" using indexed_unique [OF s(1) \<open>(sg, g) \<in> indexed c\<close> that(1)] g(1) by simp
      qed (use that in blast)
      then show ?thesis unfolding lru ix by (auto simp: lru_c)
    qed
    then show ?thesis using s(2) by (auto simp: lru_ok_def lru "next" distinct_map_filter)
  qed
  moreover have "linked c1" using s(3) by (simp add: linked_def all)
  moreover have "dc_total c1 = file_count c1"
    using total s(4) sum_list_filter_split [of "\<lambda>e. int (ls_size (ce_listing e))" "all_entries c" "\<lambda>e. e \<in> G"]
    by (simp add: file_count_def all)
  ultimately show ?thesis using ix by (simp add: cache_ok_def)
qed

lemma fold_unlink:
  "dc_servers (fold unlink_entry es c) = dc_servers c \<and> dc_next (fold unlink_entry es c) = dc_next c \<and>
   dc_ttl (fold unlink_entry es c) = dc_ttl c \<and>
   dc_lru (fold unlink_entry es c) = filter (\<lambda>x. \<forall>e\<in>set es. ce_lruIt e \<noteq> Some (fst x)) (dc_lru c) \<and>
   dc_total (fold unlink_entry es c) = dc_total c - sum_list (map (\<lambda>e. int (ls_size (ce_listing e))) es)"
proof (induction es arbitrary: c)
  case (Cons e es)
  then show ?case by (cases "ce_lruIt e") (auto simp: unlink_entry_def intro!: filter_cong)
qed simp

lemma set_entries_filter:
  assumes s: "struct_ok lib c" and G: "G \<subseteq> set (entries_of c sid)"
  shows "dc_servers (set_entries sid (filter (\<lambda>e. e \<notin> G) (entries_of c sid)) c) =
    map (\<lambda>s. s\<lparr>se_cache := filter (\<lambda>e. e \<notin> G) (se_cache s)\<rparr>) (dc_servers c)"
proof -
  have "filter (\<lambda>e. e \<notin> G) (se_cache t) = se_cache t" if "t \<in> set (dc_servers c)" "se_id t \<noteq> sid" for t
  proof (rule filter_True, rule ballI, rule notI)
    fix e assume "e \<in> set (se_cache t)" "e \<in> G"
    then have "(se_id t, e) \<in> indexed c" using that(1) by (auto simp: indexed_servers)
    moreover have "(sid, e) \<in> indexed c" using \<open>e \<in> G\<close> G entries_of_mem [OF s] by blast
    ultimately show False using indexed_owner [OF s] that(2) by blast
  qed
  then show ?thesis using entries_of_server [OF s] by (auto simp: set_entries_def)
qed

text \<open>Entries of one server: the part of all entries that a set of them is.\<close>

lemma filter_all_entries:
  assumes s: "struct_ok lib c" and G: "G \<subseteq> set (entries_of c sid)"
  shows "filter (\<lambda>e. e \<in> G) (all_entries c) = filter (\<lambda>e. e \<in> G) (entries_of c sid)"
proof (cases "find (\<lambda>t. se_id t = sid) (dc_servers c)")
  case None
  then show ?thesis using G by (simp add: entries_of_def)
next
  case (Some t)
  then have t: "t \<in> set (dc_servers c)" "se_id t = sid" by (auto simp: find_Some_iff)
  obtain xs ys where xy: "dc_servers c = xs @ t # ys" using split_list [OF t(1)] by blast
  have other: "filter (\<lambda>e. e \<in> G) (concat (map se_cache zs)) = []"
    if "set zs \<subseteq> set (dc_servers c)" "t \<notin> set zs" for zs
  proof (rule filter_False, rule ballI, rule notI)
    fix e assume "e \<in> set (concat (map se_cache zs))" "e \<in> G"
    then obtain u where u: "u \<in> set zs" "e \<in> set (se_cache u)" by auto
    moreover have "e \<in> set (se_cache t)" using \<open>e \<in> G\<close> G Some by (auto simp: entries_of_def)
    ultimately show False
      using distinct_concat_owner [of ce_id se_cache "dc_servers c" u t e e] s t(1) that
      by (auto simp: struct_ok_def all_entries_def)
  qed
  have "distinct (dc_servers c)" using s by (simp add: struct_ok_def distinct_map)
  then have "t \<notin> set xs" "t \<notin> set ys" "set xs \<subseteq> set (dc_servers c)" "set ys \<subseteq> set (dc_servers c)"
    by (auto simp: xy)
  then have "filter (\<lambda>e. e \<in> G) (concat (map se_cache xs)) = []" "filter (\<lambda>e. e \<in> G) (concat (map se_cache ys)) = []"
    using other by blast+
  moreover have "entries_of c sid = se_cache t" using Some by (simp add: entries_of_def)
  ultimately show ?thesis unfolding all_entries_def xy by simp
qed

lemma filter_single: "distinct xs \<Longrightarrow> x \<in> set xs \<Longrightarrow> filter (\<lambda>y. y = x) xs = [x]"
  by (induction xs) (auto simp: filter_empty_conv)

subsection \<open>Pruning\<close>

definition server_ids :: "dir_cache \<Rightarrow> (nat \<times> cserver) set" where
  "server_ids c = (\<lambda>t. (se_id t, se_server t)) ` set (dc_servers c)"

lemma prune_step_ok:
  assumes ok: "cache_ok lib c" and ne: "dc_lru c = (n, sid, cid) # rest"
  shows "\<exists>c1. prune_step c = Some c1 \<and> cache_ok lib c1 \<and> dc_lru c1 = rest \<and> indexed c1 \<subseteq> indexed c \<and>
    server_ids c1 \<subseteq> server_ids c"
proof -
  have s: "struct_ok lib c" "lru_ok c" using ok by (simp_all add: cache_ok_def)
  obtain e where e: "(sid, e) \<in> indexed c" "ce_id e = cid" "ce_lruIt e = Some n"
    using s(2) ne unfolding lru_ok_def by (metis list.set_intros(1))
  note ea = indexed_all [OF e(1)]
  have get: "get_entry c cid = Some e" using ea e(2) by (simp add: get_entry_Some [OF s(1)])
  have mem: "e \<in> set (entries_of c sid)" using e(1) by (simp add: entries_of_mem [OF s(1)])
  have only: "filter (\<lambda>x. ce_id x \<noteq> cid) (entries_of c sid) = filter (\<lambda>x. x \<notin> {e}) (entries_of c sid)"
  proof (rule filter_cong [OF refl])
    fix x assume "x \<in> set (entries_of c sid)"
    then have "x \<in> set (all_entries c)" using indexed_all by (auto simp: entries_of_mem [OF s(1)])
    then show "(ce_id x \<noteq> cid) = (x \<notin> {e})" using ea e(2) s(1) by (auto simp: struct_ok_def distinct_map inj_on_def)
  qed
  define es where "es = filter (\<lambda>x. x \<notin> {e}) (entries_of c sid)"
  define c0 where "c0 = set_entries sid es (c\<lparr>dc_total := dc_total c - int (ls_size (ce_listing e)), dc_lru := rest\<rparr>)"
  define c1 where "c1 = (if es = [] then c0\<lparr>dc_servers := filter (\<lambda>t. se_id t \<noteq> sid) (dc_servers c0)\<rparr> else c0)"
  have "prune_step c = Some c1"
    using mem unfolding prune_step_def ne by (simp add: get Let_def only c1_def c0_def es_def)
  moreover have s0: "dc_servers c0 = map (\<lambda>t. t\<lparr>se_cache := filter (\<lambda>x. x \<notin> {e}) (se_cache t)\<rparr>) (dc_servers c)"
    using set_entries_filter [OF s(1), of "{e}" sid] mem by (simp add: c0_def es_def set_entries_def)
  moreover have "server_ids c1 \<subseteq> server_ids c" unfolding server_ids_def c1_def by (auto simp: s0)
  moreover have "cache_ok lib c1 \<and> (\<forall>sid e'. (sid, e') \<in> indexed c1 \<longleftrightarrow> (sid, e') \<in> indexed c \<and> e' \<notin> {e})"
  proof (rule cache_ok_remove [OF ok, where Q = "\<lambda>t. es = [] \<longrightarrow> se_id t \<noteq> sid"])
    show "dc_servers c1 = filter (\<lambda>t. es = [] \<longrightarrow> se_id t \<noteq> sid)
        (map (\<lambda>t. t\<lparr>se_cache := filter (\<lambda>x. x \<notin> {e}) (se_cache t)\<rparr>) (dc_servers c))"
      unfolding c1_def s0 [symmetric] by simp
    show "filter (\<lambda>x. x \<notin> {e}) (se_cache t) = []"
      if "t \<in> set (dc_servers c)" "\<not> (es = [] \<longrightarrow> se_id (t\<lparr>se_cache := filter (\<lambda>x. x \<notin> {e}) (se_cache t)\<rparr>) \<noteq> sid)" for t
      using that entries_of_server [OF s(1) that(1)] by (simp add: es_def)
    have "distinct (map fst (dc_lru c))" using s(2) by (simp add: lru_ok_def)
    then have "filter (\<lambda>x. fst x \<noteq> n) rest = rest" using ne by (auto intro!: filter_True)
    then show "dc_lru c1 = filter (\<lambda>x. \<forall>e\<in>{e}. ce_lruIt e \<noteq> Some (fst x)) (dc_lru c)"
      using e(3) by (simp add: c1_def c0_def set_entries_def ne eq_commute)
    have "distinct (entries_of c sid)" using entries_ids(1) [OF s(1), of sid] by (simp add: distinct_map)
    then have "filter (\<lambda>x. x = e) (entries_of c sid) = [e]" using mem by (rule filter_single)
    then show "dc_total c1 = dc_total c - sum_list (map (\<lambda>e. int (ls_size (ce_listing e))) (filter (\<lambda>x. x \<in> {e}) (all_entries c)))"
      using filter_all_entries [OF s(1), of "{e}" sid] mem by (simp add: c1_def c0_def set_entries_def)
  qed (use ea in \<open>auto simp: c1_def c0_def set_entries_def\<close>)
  moreover have "dc_lru c1 = rest" by (simp add: c1_def c0_def set_entries_def)
  ultimately show ?thesis by auto
qed

text \<open>
  The loop ends, never follows a dangling iterator, and leaves a suffix of the list: the entries
  used last stay.
\<close>

lemma Prune_ok:
  assumes "cache_ok lib c"
  shows "\<exists>c1. Prune c = Some c1 \<and> cache_ok lib c1 \<and> \<not> prune_cond c1 \<and> indexed c1 \<subseteq> indexed c \<and>
    server_ids c1 \<subseteq> server_ids c \<and> suffix (dc_lru c1) (dc_lru c) \<and> (dc_lru c \<noteq> [] \<longrightarrow> dc_lru c1 \<noteq> [])"
  using assms
proof (induction c rule: Prune.induct)
  case (1 c)
  show ?case
  proof (cases "prune_cond c")
    case False
    then show ?thesis using "1.prems" by (auto simp: Prune.simps [of c])
  next
    case True
    then have len: "length (dc_lru c) > 100" by (auto simp: prune_cond_def)
    then obtain n sid cid rest where lru: "dc_lru c = (n, sid, cid) # rest" "rest \<noteq> []"
      by (cases "dc_lru c") force+
    obtain c1 where c1: "prune_step c = Some c1" "cache_ok lib c1" "dc_lru c1 = rest" "indexed c1 \<subseteq> indexed c"
      "server_ids c1 \<subseteq> server_ids c"
      using prune_step_ok [OF "1.prems" lru(1)] by blast
    obtain c2 where c2: "Prune c1 = Some c2" "cache_ok lib c2" "\<not> prune_cond c2" "indexed c2 \<subseteq> indexed c1"
      "server_ids c2 \<subseteq> server_ids c1" "suffix (dc_lru c2) (dc_lru c1)" "dc_lru c2 \<noteq> []"
      using "1.IH" [OF True c1(1,2)] c1(3) lru(2) by auto
    have "Prune c = Some c2" using True c1(1) c2(1) by (simp add: Prune.simps [of c])
    moreover have "suffix (dc_lru c2) (dc_lru c)" using c2(6) c1(3) lru(1) by (simp add: suffix_Cons)
    ultimately show ?thesis using c1 c2 by blast
  qed
qed

subsection \<open>Servers\<close>

lemma GetServerEntry_Some:
  "GetServerEntry lib server c = Some sid \<Longrightarrow> \<exists>s. (sid, s) \<in> server_ids c \<and> SameContent lib s server"
  by (force simp: GetServerEntry_def server_ids_def find_Some_iff)

lemma server_unique:
  assumes "struct_ok lib c" "s1 \<in> set (dc_servers c)" "s2 \<in> set (dc_servers c)"
    "SameContent lib (se_server s1) server" "SameContent lib (se_server s2) server"
  shows "s1 = s2"
proof (rule ccontr)
  assume ne: "s1 \<noteq> s2"
  obtain i j where ij: "i < length (dc_servers c)" "j < length (dc_servers c)"
    "s1 = dc_servers c ! i" "s2 = dc_servers c ! j"
    using assms(2,3) by (auto simp: in_set_conv_nth)
  then have "i < j \<or> j < i" using ne by (cases "i = j") auto
  moreover have "SameContent lib (se_server s1) (se_server s2)" "SameContent lib (se_server s2) (se_server s1)"
    using assms(4,5) SameContent_sym SameContent_trans by blast+
  ultimately show False using assms(1) ij by (auto simp: struct_ok_def sorted_wrt_iff_nth_less)
qed

lemma GetServerEntry_iff:
  assumes "struct_ok lib c"
  shows "GetServerEntry lib server c = Some sid \<longleftrightarrow> (\<exists>s. (sid, s) \<in> server_ids c \<and> SameContent lib s server)"
proof
  assume "\<exists>s. (sid, s) \<in> server_ids c \<and> SameContent lib s server"
  then obtain t where t: "t \<in> set (dc_servers c)" "se_id t = sid" "SameContent lib (se_server t) server"
    by (auto simp: server_ids_def)
  then obtain u where u: "find (\<lambda>s. SameContent lib (se_server s) server) (dc_servers c) = Some u"
    using find_None_iff [of "\<lambda>s. SameContent lib (se_server s) server" "dc_servers c"]
    by (cases "find (\<lambda>s. SameContent lib (se_server s) server) (dc_servers c)") auto
  then have "u \<in> set (dc_servers c)" "SameContent lib (se_server u) server" by (auto simp: find_Some_iff)
  then have "u = t" using server_unique [OF assms _ t(1) _ t(3)] by blast
  with u t show "GetServerEntry lib server c = Some sid" by (simp add: GetServerEntry_def)
qed (rule GetServerEntry_Some)

lemma CreateServerEntry_ok:
  assumes "cache_ok lib c" "CreateServerEntry lib server c = (sid, c1)"
  shows "cache_ok lib c1 \<and> indexed c1 = indexed c \<and> all_entries c1 = all_entries c \<and> dc_total c1 = dc_total c \<and>
    server_ids c \<subseteq> server_ids c1 \<and> (\<exists>s. (sid, s) \<in> server_ids c1 \<and> SameContent lib s server) \<and> dc_ttl c1 = dc_ttl c"
proof (cases "GetServerEntry lib server c")
  case (Some sid1)
  then show ?thesis using assms GetServerEntry_Some [OF Some] by (auto simp: CreateServerEntry_def)
next
  case None
  then have new: "\<forall>s\<in>set (dc_servers c). \<not> SameContent lib (se_server s) server"
    by (auto simp: GetServerEntry_def find_None_iff)
  have c1: "c1 = c\<lparr>dc_servers := dc_servers c @ [\<lparr>se_id = dc_next c, se_server = server, se_cache = []\<rparr>],
             dc_next := Suc (dc_next c)\<rparr>" and sid: "sid = dc_next c"
    using assms(2) None by (auto simp: CreateServerEntry_def)
  have all: "all_entries c1 = all_entries c" "indexed c1 = indexed c"
    by (auto simp: c1 all_entries_def indexed_def)
  have "struct_ok lib c1"
    using assms(1) new unfolding cache_ok_def struct_ok_def all
    by (auto simp: c1 sorted_wrt_append path_sorted_def less_Suc_eq)
  moreover have "lru_ok c1"
    using assms(1) unfolding cache_ok_def lru_ok_def all by (auto simp: c1 less_Suc_eq)
  ultimately have "cache_ok lib c1" using assms(1) by (simp add: cache_ok_def linked_def file_count_def all) (simp add: c1)
  then show ?thesis using all by (auto simp: c1 sid server_ids_def)
qed

subsection \<open>Insertion\<close>

lemma entry_insert_mset:
  "\<forall>x\<in>set es. \<not> eqv (path_less lib) (ce_path x) (ce_path e) \<Longrightarrow> mset (entry_insert lib e es) = add_mset e (mset es)"
  by (induction es) (auto simp: eqv_def)

lemma entry_insert_set:
  "\<forall>x\<in>set es. \<not> eqv (path_less lib) (ce_path x) (ce_path e) \<Longrightarrow> set (entry_insert lib e es) = insert e (set es)"
  using entry_insert_mset [of es lib e] by (metis set_mset_add_mset_insert set_mset_mset)

lemma entry_insert_sorted:
  assumes lib: "opt_less_total lib" and "path_sorted lib es"
    "\<forall>x\<in>set es. \<not> eqv (path_less lib) (ce_path x) (ce_path e)"
  shows "path_sorted lib (entry_insert lib e es)"
  using assms(2,3)
proof (induction es)
  case (Cons x xs)
  have tr: "path_less lib a b \<Longrightarrow> path_less lib b d \<Longrightarrow> path_less lib a d" for a b d
    using path_less_strict_weak [OF lib] unfolding strict_weak_def by blast
  have xs: "\<forall>y\<in>set xs. path_less lib (ce_path x) (ce_path y)" "path_sorted lib xs"
    using Cons.prems(1) by (auto simp: path_sorted_def)
  show ?case
  proof (cases "path_less lib (ce_path e) (ce_path x)")
    case True
    then have "\<forall>y\<in>set xs. path_less lib (ce_path e) (ce_path y)" using xs(1) tr by blast
    then show ?thesis using True xs Cons.prems(1) by (simp add: path_sorted_def)
  next
    case False
    then have less: "path_less lib (ce_path x) (ce_path e)" using Cons.prems(2) by (auto simp: eqv_def)
    have "set (entry_insert lib e xs) = insert e (set xs)" using Cons.prems(2) by (intro entry_insert_set) simp
    then show ?thesis using False less xs Cons.IH Cons.prems(2) by (simp add: path_sorted_def)
  qed
qed (simp add: path_sorted_def)

end
