(* ===== verification/Cache_Store.thy ===== *)
theory Cache_Store
  imports Cache_Removal
begin

text \<open>
  \<^verbatim>\<open>CDirectoryCache::Store\<close>: the listing that was stored is the one that is found, the other entries
  are old ones, and the invariant holds again.
\<close>

lemma set_entries_simps [simp]:
  "dc_lru (set_entries sid es c) = dc_lru c" "dc_total (set_entries sid es c) = dc_total c"
  "dc_next (set_entries sid es c) = dc_next c" "dc_ttl (set_entries sid es c) = dc_ttl c"
  by (simp_all add: set_entries_def)

lemma server_ids_set_entries [simp]: "server_ids (set_entries sid es c) = server_ids c"
proof -
  have "(\<lambda>t. (se_id t, se_server t)) ` (\<lambda>t. if se_id t = sid then t\<lparr>se_cache := es\<rparr> else t) ` A =
      (\<lambda>t. (se_id t, se_server t)) ` A" for A
    unfolding image_image by (rule image_cong) simp_all
  then show ?thesis by (simp add: server_ids_def set_entries_def)
qed

lemma server_ids_simps [simp]:
  "server_ids (map_entry cid f c) = server_ids c" "server_ids (c\<lparr>dc_total := t\<rparr>) = server_ids c"
  "server_ids (c\<lparr>dc_lru := x\<rparr>) = server_ids c" "server_ids (c\<lparr>dc_next := n\<rparr>) = server_ids c"
  by (simp_all add: server_ids_def map_entry_def image_image)

lemma server_split:
  assumes "struct_ok lib c" "(sid, s) \<in> server_ids c"
  obtains xs t ys where "dc_servers c = xs @ t # ys" "se_id t = sid" "se_server t = s"
    "sid \<notin> se_id ` set xs" "sid \<notin> se_id ` set ys"
proof -
  obtain t where t: "t \<in> set (dc_servers c)" "se_id t = sid" "se_server t = s" using assms(2) by (auto simp: server_ids_def)
  obtain xs ys where "dc_servers c = xs @ t # ys" using split_list [OF t(1)] by blast
  moreover have "sid \<notin> se_id ` set xs" "sid \<notin> se_id ` set ys"
    using assms(1) t(2) calculation by (auto simp: struct_ok_def)
  ultimately show ?thesis using t that by blast
qed

text \<open>A new entry in the set of a server, not yet in the list.\<close>

lemma insert_entry_ok:
  assumes lib: "opt_less_total lib" and s: "struct_ok lib c" and l: "lru_ok c" and srv: "(sid, s) \<in> server_ids c"
    and e: "ce_id e = dc_next c" "entry_ok lib e" "ce_lruIt e = None"
    and new: "\<forall>x\<in>set (entries_of c sid). \<not> eqv (path_less lib) (ce_path x) (ce_path e)"
  defines "c1 \<equiv> set_entries sid (entry_insert lib e (entries_of c sid)) (c\<lparr>dc_next := Suc (dc_next c)\<rparr>)"
  shows "struct_ok lib c1" "lru_ok c1" "indexed c1 = insert (sid, e) (indexed c)"
    "set (all_entries c1) = insert e (set (all_entries c))"
    "file_count c1 = file_count c + int (ls_size (ce_listing e))" "server_ids c1 = server_ids c"
proof -
  obtain xs t ys where t: "dc_servers c = xs @ t # ys" "se_id t = sid" "se_server t = s"
    "sid \<notin> se_id ` set xs" "sid \<notin> se_id ` set ys"
    using server_split [OF s srv] .
  define t1 where "t1 = t\<lparr>se_cache := entry_insert lib e (se_cache t)\<rparr>"
  have es: "entries_of c sid = se_cache t" using entries_of_server [OF s, of t] t by simp
  have keep: "map (\<lambda>u. if se_id u = sid then f u else u) zs = zs" if "sid \<notin> se_id ` set zs"
    for f :: "server_entry \<Rightarrow> server_entry" and zs
    using that by (intro map_idI) auto
  have servers: "dc_servers c1 = xs @ t1 # ys"
    using t(1,2) keep [OF t(4)] keep [OF t(5)] by (simp add: c1_def set_entries_def es t1_def)
  have t1: "set (se_cache t1) = insert e (set (se_cache t))" "mset (se_cache t1) = add_mset e (mset (se_cache t))"
    "path_sorted lib (se_cache t1)"
    using entry_insert_set [OF new] entry_insert_mset [OF new] entry_insert_sorted [OF lib entries_of_sorted [OF s] new]
    by (simp_all add: es t1_def)
  have m: "mset (all_entries c1) = add_mset e (mset (all_entries c))"
    by (simp add: all_entries_def servers t(1) t1(2))
  have "mset (map g (all_entries c1)) = mset (map g (e # all_entries c))" for g :: "cache_entry \<Rightarrow> 'b" by (simp add: m)
  note m1 = this
  have "set_mset (mset (all_entries c1)) = set_mset (add_mset e (mset (all_entries c)))" by (simp only: m)
  then show all: "set (all_entries c1) = insert e (set (all_entries c))" by simp
  show ix: "indexed c1 = insert (sid, e) (indexed c)"
  proof -
    have "se_id t1 = sid" using t(2) by (simp add: t1_def)
    then have "(i, x) \<in> indexed c1 \<longleftrightarrow> (i, x) = (sid, e) \<or> (i, x) \<in> indexed c" for i x
      unfolding indexed_servers servers t(1) using t1(1) t(2) by auto
    then show ?thesis by auto
  qed
  show ids: "server_ids c1 = server_ids c" by (simp add: c1_def)
  have "sum_mset (mset (map (\<lambda>e. int (ls_size (ce_listing e))) (all_entries c1))) =
      sum_mset (mset (map (\<lambda>e. int (ls_size (ce_listing e))) (e # all_entries c)))"
    by (simp only: m1)
  then show "file_count c1 = file_count c + int (ls_size (ce_listing e))"
    unfolding file_count_def sum_mset_sum_list by simp
  have nx: "dc_next c1 = Suc (dc_next c)" by (simp add: c1_def)
  have "distinct (map ce_id (e # all_entries c))" using s e(1) by (auto simp: struct_ok_def)
  then have d: "distinct (map ce_id (all_entries c1))" using mset_eq_imp_distinct_iff [OF m1] by blast
  show "struct_ok lib c1"
    unfolding struct_ok_def all
    using s d t1(3) e(1,2) by (auto simp: servers t(1) t1_def nx struct_ok_def sorted_wrt_append less_Suc_eq)
  have "(\<exists>x. (i, x) \<in> indexed c1 \<and> ce_id x = cid \<and> ce_lruIt x = Some n) \<longleftrightarrow>
      (\<exists>x. (i, x) \<in> indexed c \<and> ce_id x = cid \<and> ce_lruIt x = Some n)" for i cid n
    unfolding ix using e(3) by auto
  then show "lru_ok c1"
    using l unfolding lru_ok_def nx by (auto simp: c1_def less_Suc_eq)
qed

lemma UpdateLru_total: "UpdateLru sid cid (c\<lparr>dc_total := t\<rparr>) = (UpdateLru sid cid c)\<lparr>dc_total := t\<rparr>"
  by (simp add: UpdateLru_def map_entry_def split: option.splits)

lemma lookup_entry_total:
  "lookup_entry lib now sid p a (c\<lparr>dc_total := t\<rparr>) =
     (case lookup_entry lib now sid p a c of (r, c1) \<Rightarrow> (r, c1\<lparr>dc_total := t\<rparr>))"
  by (simp add: lookup_entry_def UpdateLru_total Let_def split: option.splits)

subsection \<open>Storing\<close>

text \<open>The entry for a path on a server.\<close>

definition stored :: "'a fzlib_scheme \<Rightarrow> dir_cache \<Rightarrow> cserver \<Rightarrow> cache_entry \<Rightarrow> bool" where
  "stored lib c server e \<longleftrightarrow>
     (\<exists>sid s. (sid, s) \<in> server_ids c \<and> SameContent lib s server \<and> (sid, e) \<in> indexed c)"

lemma indexed_server: "(sid, e) \<in> indexed c \<Longrightarrow> \<exists>s. (sid, s) \<in> server_ids c"
  by (auto simp: indexed_servers server_ids_def)

lemma server_ids_inj: "struct_ok lib c \<Longrightarrow> (sid, s1) \<in> server_ids c \<Longrightarrow> (sid, s2) \<in> server_ids c \<Longrightarrow> s1 = s2"
  by (auto simp: struct_ok_def server_ids_def distinct_map inj_on_def)

lemma Prune_keeps_last:
  assumes ok: "cache_ok lib c" and last: "dc_lru c = xs @ [(n, sid, ce_id e)]" "(sid, e) \<in> indexed c"
    and s: "(sid, s) \<in> server_ids c"
  shows "\<exists>c1. Prune c = Some c1 \<and> cache_ok lib c1 \<and> \<not> prune_cond c1 \<and> (sid, e) \<in> indexed c1 \<and> (sid, s) \<in> server_ids c1"
proof -
  obtain c1 where c1: "Prune c = Some c1" "cache_ok lib c1" "\<not> prune_cond c1" "indexed c1 \<subseteq> indexed c"
    "server_ids c1 \<subseteq> server_ids c" "suffix (dc_lru c1) (dc_lru c)" "dc_lru c1 \<noteq> []"
    using Prune_ok [OF ok] last(1) by auto
  have st: "struct_ok lib c" using ok by (simp add: cache_ok_def)
  have "last (dc_lru c1) = last (dc_lru c)" using c1(6,7) by (auto simp: suffix_def)
  then have "(n, sid, ce_id e) \<in> set (dc_lru c1)" using last_in_set [OF c1(7)] last(1) by simp
  then obtain x where x: "(sid, x) \<in> indexed c1" "ce_id x = ce_id e" using c1(2) unfolding cache_ok_def lru_ok_def by blast
  then have "x = e" using indexed_unique [OF st _ last(2)] c1(4) by blast
  moreover obtain s1 where "(sid, s1) \<in> server_ids c1" using indexed_server [OF x(1)] by blast
  then have "(sid, s) \<in> server_ids c1" using server_ids_inj [OF st _ s] c1(5) by blast
  ultimately show ?thesis using c1 x(1) by blast
qed

lemma map_entry_new: "(sid, e) \<in> indexed c \<Longrightarrow> (sid, f e) \<in> indexed (map_entry (ce_id e) f c)"
  unfolding indexed_map_entry by (rule exI [of _ e]) simp

lemma map_entry_old:
  assumes "struct_ok lib c" "(sid, e) \<in> indexed c" "(i, x) \<in> indexed (map_entry (ce_id e) f c)"
  shows "x = f e \<or> (i, x) \<in> indexed c \<and> ce_id x \<noteq> ce_id e"
proof -
  obtain y where y: "(i, y) \<in> indexed c" "x = (if ce_id y = ce_id e then f y else y)"
    using assms(3) unfolding indexed_map_entry by (elim exE conjE)
  then show ?thesis using indexed_unique [OF assms(1) y(1) assms(2)] by (cases "ce_id y = ce_id e") auto
qed

text \<open>
  The two ways through \<^verbatim>\<open>Store\<close>, from the state after the server entry was found or created. In
  both, the entry for the path holds the listing, and the other entries are old ones.
\<close>

lemma store_found:
  fixes now :: int
  assumes ok: "cache_ok lib c" and e: "(sid, e) \<in> indexed c" "ce_path e = ls_path l" and s: "(sid, s) \<in> server_ids c"
    and l: "key_ok (ls_path l)" "cl_ok lib l"
  defines "f \<equiv> \<lambda>e. e\<lparr>ce_modificationTime := now, ce_listing := l\<rparr>"
  defines "c1 \<equiv> (map_entry (ce_id e) f c)\<lparr>dc_total := dc_total c + int (ls_size l) - int (ls_size (ce_listing e))\<rparr>"
  shows "cache_ok lib c1" "(sid, f e) \<in> indexed c1" "(sid, s) \<in> server_ids c1" "server_ids c1 = server_ids c"
    "(i, x) \<in> indexed c1 \<Longrightarrow> x = f e \<or> (i, x) \<in> indexed c"
proof -
  have st: "struct_ok lib c" using ok by (simp add: cache_ok_def)
  show "cache_ok lib c1"
    unfolding c1_def using l e(2)
    by (intro cache_ok_map_entry [OF ok indexed_all [OF e(1)] refl]) (auto simp: keeps_key_def entry_ok_def ce_path_def f_def)
  show "(sid, f e) \<in> indexed c1" using map_entry_new [OF e(1)] by (simp add: c1_def)
  show "server_ids c1 = server_ids c" "(sid, s) \<in> server_ids c1" using s by (simp_all add: c1_def)
  show "x = f e \<or> (i, x) \<in> indexed c" if "(i, x) \<in> indexed c1"
    using that map_entry_old [OF st e(1)] by (auto simp: c1_def)
qed

lemma store_new:
  fixes now :: int
  assumes lib: "opt_less_total lib" and ok: "cache_ok lib c" and s: "(sid, s) \<in> server_ids c"
    and new: "\<And>x. (sid, x) \<in> indexed c \<Longrightarrow> ce_path x \<noteq> ls_path l" and l: "key_ok (ls_path l)" "cl_ok lib l"
  defines "e \<equiv> \<lparr>ce_id = dc_next c, ce_listing = l, ce_modificationTime = now, ce_lruIt = None\<rparr>"
  obtains c4 where
    "emplace lib sid e (c\<lparr>dc_total := t, dc_next := Suc (dc_next c)\<rparr>) = (ce_id e, c4\<lparr>dc_total := t\<rparr>)"
    "struct_ok lib c4" "lru_ok c4" "indexed c4 = insert (sid, e) (indexed c)" "server_ids c4 = server_ids c"
    "\<forall>x\<in>set (all_entries c4). ce_id x \<noteq> ce_id e \<longrightarrow> ce_lruIt x \<noteq> None"
    "file_count c4 = dc_total c + int (ls_size l)"
proof -
  have st: "struct_ok lib c" and c: "lru_ok c" "linked c" "dc_total c = file_count c" using ok by (simp_all add: cache_ok_def)
  have e: "ce_id e = dc_next c" "entry_ok lib e" "ce_lruIt e = None" "ce_path e = ls_path l"
    using l by (simp_all add: e_def entry_ok_def ce_path_def)
  have neq: "\<not> eqv (path_less lib) (ce_path x) (ce_path e)" if "x \<in> set (entries_of c sid)" for x
  proof
    assume q: "eqv (path_less lib) (ce_path x) (ce_path e)"
    have x: "(sid, x) \<in> indexed c" using that by (simp add: entries_of_mem [OF st])
    then have "key_ok (ce_path x)" using st indexed_all [OF x] by (auto simp: struct_ok_def entry_ok_def)
    then show False using key_ok_eqv [OF lib _ _ q] l(1) e(4) new [OF x] by simp
  qed
  define c4 where "c4 = set_entries sid (entry_insert lib e (entries_of c sid)) (c\<lparr>dc_next := Suc (dc_next c)\<rparr>)"
  have i: "struct_ok lib c4" "lru_ok c4" "indexed c4 = insert (sid, e) (indexed c)"
    "set (all_entries c4) = insert e (set (all_entries c))"
    "file_count c4 = file_count c + int (ls_size l)" "server_ids c4 = server_ids c"
    using insert_entry_ok [OF lib st c(1) s e(1,2,3)] neq unfolding c4_def by (simp_all add: e_def)
  have "find (\<lambda>x. eqv (path_less lib) (ce_path x) (ce_path e)) (entries_of c sid) = None"
    using neq by (simp add: find_None_iff)
  then have em: "emplace lib sid e (c\<lparr>dc_total := t, dc_next := Suc (dc_next c)\<rparr>) = (ce_id e, c4\<lparr>dc_total := t\<rparr>)"
    by (simp add: emplace_def c4_def set_entries_def)
  have lk: "ce_lruIt x \<noteq> None" if "x \<in> set (all_entries c4)" "ce_id x \<noteq> ce_id e" for x
    using that i(4) c(2) by (auto simp: linked_def)
  show ?thesis using i(5) c(3) lk by (intro that [OF em i(1-3) i(6)]) simp_all
qed

text \<open>The new entry is linked into the list and survives the pruning.\<close>

lemma store_link:
  assumes c4: "struct_ok lib c4" "lru_ok c4" "(sid, e) \<in> indexed c4" "(sid, s) \<in> server_ids c4" "ce_lruIt e = None"
    and others: "\<forall>x\<in>set (all_entries c4). ce_id x \<noteq> ce_id e \<longrightarrow> ce_lruIt x \<noteq> None" and t: "t = file_count c4"
  defines "e5 \<equiv> e\<lparr>ce_lruIt := Some (dc_next c4)\<rparr>"
  obtains c6 where "Prune ((UpdateLru sid (ce_id e) c4)\<lparr>dc_total := t\<rparr>) = Some c6" "cache_ok lib c6" "\<not> prune_cond c6"
    "(sid, e5) \<in> indexed c6" "(sid, s) \<in> server_ids c6" "server_ids c6 \<subseteq> server_ids c4"
    "\<forall>i x. (i, x) \<in> indexed c6 \<longrightarrow> x = e5 \<or> (i, x) \<in> indexed c4 \<and> ce_id x \<noteq> ce_id e"
proof -
  define c5 where "c5 = UpdateLru sid (ce_id e) c4"
  note u = UpdateLru_new [OF c4(1-3) refl c4(5) bspec [OF others, THEN mp], folded c5_def]
  let ?c0 = "c4\<lparr>dc_lru := dc_lru c4 @ [(dc_next c4, sid, ce_id e)], dc_next := Suc (dc_next c4)\<rparr>"
  let ?g = "\<lambda>e. e\<lparr>ce_lruIt := Some (dc_next c4)\<rparr>" and ?c5 = "c5\<lparr>dc_total := t\<rparr>"
  have c0: "indexed ?c0 = indexed c4" by (simp add: indexed_def)
  have ok: "cache_ok lib ?c5" using u(1-4) t by (simp add: cache_ok_def)
  have lru: "dc_lru ?c5 = dc_lru c4 @ [(dc_next c4, sid, ce_id e5)]" using u(6) by (simp add: e5_def)
  have e5: "(sid, e5) \<in> indexed ?c5" using map_entry_new [of sid e ?c0 ?g] c4(3) c0 u(7) by (simp add: e5_def)
  have ids: "server_ids ?c5 = server_ids c4" using u(7) by simp
  have "struct_ok lib ?c0" using c4(1) by (auto simp: struct_ok_def less_Suc_eq)
  then have old: "x = e5 \<or> (i, x) \<in> indexed c4 \<and> ce_id x \<noteq> ce_id e" if "(i, x) \<in> indexed ?c5" for i x
    using that map_entry_old [of lib ?c0 sid e i x ?g] c4(3) c0 u(7) by (simp add: e5_def)
  obtain c6 where c6: "Prune ?c5 = Some c6" "cache_ok lib c6" "\<not> prune_cond c6" "(sid, e5) \<in> indexed c6" "(sid, s) \<in> server_ids c6"
    using Prune_keeps_last [OF ok lru e5] c4(4) ids by auto
  moreover have "indexed c6 \<subseteq> indexed ?c5" "server_ids c6 \<subseteq> server_ids ?c5" using Prune_ok [OF ok] c6(1) by auto
  ultimately show ?thesis using that old ids unfolding c5_def by blast
qed

lemma stored_old:
  assumes c1: "struct_ok lib c1" "server_ids c \<subseteq> server_ids c1" "indexed c1 = indexed c"
    and c6: "server_ids c6 \<subseteq> server_ids c1" "\<forall>i x. (i, x) \<in> indexed c6 \<longrightarrow> x = e \<or> (i, x) \<in> indexed c1"
    and x: "stored lib c6 server x"
  shows "x = e \<or> stored lib c server x"
proof -
  obtain i s where i: "(i, s) \<in> server_ids c1" "SameContent lib s server" "x = e \<or> (i, x) \<in> indexed c"
    using x c6 c1(3) unfolding stored_def by blast
  show ?thesis
  proof (cases "x = e")
    case False
    then obtain s0 where "(i, s0) \<in> server_ids c" using i(3) indexed_server by blast
    then show ?thesis using i False c1(2) server_ids_inj [OF c1(1) i(1)] unfolding stored_def by blast
  qed simp
qed

lemma Store_ok:
  assumes lib: "opt_less_total lib" and ok: "cache_ok lib c" and l: "key_ok (ls_path l)" "cl_ok lib l"
  shows "\<exists>c6 e. Store lib now l server c = Some c6 \<and> cache_ok lib c6 \<and> stored lib c6 server e \<and>
    ce_listing e = l \<and> ce_modificationTime e = now \<and>
    (\<forall>server' x. stored lib c6 server' x \<longrightarrow> x = e \<or> stored lib c server' x)"
proof -
  obtain sid c1 where cs: "CreateServerEntry lib server c = (sid, c1)" by fastforce
  obtain s where c1: "cache_ok lib c1" "(sid, s) \<in> server_ids c1" "SameContent lib s server"
    "indexed c1 = indexed c" "server_ids c \<subseteq> server_ids c1"
    using CreateServerEntry_ok [OF ok cs] by blast
  have st1: "struct_ok lib c1" using c1(1) by (simp add: cache_ok_def)
  let ?t = "dc_total c1 + int (ls_size l)"
  obtain r c3 where look: "lookup_entry lib now sid (ls_path l) True c1 = (r, c3)" by fastforce
  obtain lru where c3: "cache_ok lib c3" "c3 = c1\<lparr>dc_lru := lru\<rparr>" using lookup_entry_ok [OF c1(1) look] by blast
  have look2: "lookup_entry lib now sid (ls_path l) True (c1\<lparr>dc_total := ?t\<rparr>) = (r, c3\<lparr>dc_total := ?t\<rparr>)"
    by (simp add: lookup_entry_total look)
  show ?thesis
  proof (cases "\<exists>e. (sid, e) \<in> indexed c1 \<and> ce_path e = ls_path l")
    case True
    then obtain e where e: "(sid, e) \<in> indexed c3" "ce_path e = ls_path l" using c3(2) by auto
    then have r: "\<exists>o1. r = Some (ce_id e, o1)"
      using lookup_entry_found [OF lib st1, of sid e now True] look c3(2) by auto
    have ge: "get_entry c3 (ce_id e) = Some e"
      using c3(1) indexed_all [OF e(1)] get_entry_Some [of lib c3] by (simp add: cache_ok_def)
    define f where "f = (\<lambda>e::cache_entry. e\<lparr>ce_modificationTime := now, ce_listing := l\<rparr>)"
    define c6 where "c6 = (map_entry (ce_id e) f c3)\<lparr>dc_total := dc_total c3 + int (ls_size l) - int (ls_size (ce_listing e))\<rparr>"
    have s3: "(sid, s) \<in> server_ids c3" using c1(2) c3(2) by simp
    note c6 = store_found [OF c3(1) e s3 l, where now = now, folded f_def, folded c6_def]
    have "Store lib now l server c = Some c6"
      using r ge c3(2) by (auto simp: Store_def cs look2 f_def c6_def map_entry_def get_entry_def all_entries_def)
    moreover have "x = f e \<or> stored lib c server' x" if st6: "stored lib c6 server' x" for server' x
      using stored_old [OF st1 c1(5,4) _ _ st6, of "f e"] c6(4,5) c3(2) unfolding f_def by auto
    moreover have "ce_listing (f e) = l" "ce_modificationTime (f e) = now" by (simp_all add: f_def)
    moreover have "stored lib c6 server (f e)" using c6(2,3) c1(3) unfolding stored_def f_def by blast
    ultimately show ?thesis using c6(1) by blast
  next
    case False
    then have r: "r = None" "c3 = c1" using lookup_entry_absent [OF st1, of sid "ls_path l"] look by auto
    define e where "e = \<lparr>ce_id = dc_next c1, ce_listing = l, ce_modificationTime = now, ce_lruIt = None\<rparr>"
    have new: "ce_path x \<noteq> ls_path l" if "(sid, x) \<in> indexed c1" for x using that False by blast
    obtain c4 where c4: "emplace lib sid e (c1\<lparr>dc_total := ?t, dc_next := Suc (dc_next c1)\<rparr>) = (ce_id e, c4\<lparr>dc_total := ?t\<rparr>)"
      "struct_ok lib c4" "lru_ok c4" "indexed c4 = insert (sid, e) (indexed c1)" "server_ids c4 = server_ids c1"
      "\<forall>x\<in>set (all_entries c4). ce_id x \<noteq> ce_id e \<longrightarrow> ce_lruIt x \<noteq> None"
      "file_count c4 = ?t"
      using store_new [OF lib c1(1,2) new l, where now = now and t = ?t, folded e_def] by blast
    have e: "(sid, e) \<in> indexed c4" "(sid, s) \<in> server_ids c4" "ce_lruIt e = None" "ce_listing e = l" "ce_modificationTime e = now"
      using c4(4,5) c1(2) by (simp_all add: e_def)
    let ?e5 = "e\<lparr>ce_lruIt := Some (dc_next c4)\<rparr>"
    obtain c6 where c6: "Prune ((UpdateLru sid (ce_id e) c4)\<lparr>dc_total := ?t\<rparr>) = Some c6" "cache_ok lib c6"
      "\<not> prune_cond c6" "(sid, ?e5) \<in> indexed c6" "(sid, s) \<in> server_ids c6" "server_ids c6 \<subseteq> server_ids c4"
      "\<forall>i x. (i, x) \<in> indexed c6 \<longrightarrow> x = ?e5 \<or> (i, x) \<in> indexed c4 \<and> ce_id x \<noteq> ce_id e"
      using store_link [OF c4(2,3) e(1-3) c4(6) c4(7) [symmetric]] by blast
    have "Store lib now l server c = Some c6"
      using c4(1) c6(1) look2 r
      by (simp add: Store_def cs UpdateLru_total e_def [symmetric])
    moreover have "x = ?e5 \<or> stored lib c server' x" if st6: "stored lib c6 server' x" for server' x
      using stored_old [OF st1 c1(5,4) _ _ st6, of ?e5] c6(6,7) c4(4,5) by auto
    moreover have "stored lib c6 server ?e5" using c6(4,5) c1(3) unfolding stored_def by blast
    moreover have "ce_listing ?e5 = l" "ce_modificationTime ?e5 = now" using e by simp_all
    ultimately show ?thesis using c6(2) by blast
  qed
qed

end
