(* ===== verification/Cache_Operations.thy ===== *)
theory Cache_Operations
  imports Cache_Store
begin

text \<open>
  The other operations of the directory cache keep its invariant.
\<close>

subsection \<open>Searching in a cached listing\<close>

lemma get_entry_mem: "get_entry c cid = Some e \<Longrightarrow> e \<in> set (all_entries c) \<and> ce_id e = cid"
  by (auto simp: get_entry_def find_Some_iff)

lemma cache_ok_get_set:
  assumes "cache_ok lib c" "get_entry c cid = Some e"
    and "cl_ok lib (ce_listing e) \<Longrightarrow> cl_ok lib l \<and> ls_path l = ls_path (ce_listing e) \<and> ls_size l = ls_size (ce_listing e)"
  shows "cache_ok lib (set_listing cid l c)"
proof -
  have e: "e \<in> set (all_entries c)" "ce_id e = cid" using get_entry_mem [OF assms(2)] by simp_all
  then have "cl_ok lib (ce_listing e)" using assms(1) by (auto simp: cache_ok_def struct_ok_def entry_ok_def)
  with assms(3) show ?thesis by (intro cache_ok_set_listing [OF assms(1) e]) (simp_all add: ce_path_def)
qed

lemma find_file_nonempty: "find_file lib key name es sm = (r, sm1) \<Longrightarrow> es \<noteq> [] \<Longrightarrow> sm1 \<noteq> None"
  by (auto simp: find_file_def Let_def split: option.splits if_splits prod.splits)

lemma find_file_empty: "find_file lib key name [] sm = (r, sm1) \<Longrightarrow> sm1 = sm"
  by (simp add: find_file_def)

lemma FindFile_CmpCase_ok:
  assumes lib: "mm_pick_member lib" and l: "cl_ok lib l" and f: "FindFile_CmpCase lib name l = (r, l1)"
  shows "cl_ok lib l1" "ls_path l1 = ls_path l" "ls_entries l1 = ls_entries l"
    "ls_entries l \<noteq> [] \<Longrightarrow> ls_searchmap_case l1 \<noteq> None"
proof -
  obtain sm where sm: "find_file lib de_name name (ls_entries l) (ls_searchmap_case l) = (r, sm)" "l1 = l\<lparr>ls_searchmap_case := sm\<rparr>"
    using f by (auto simp: FindFile_CmpCase_def split: prod.splits)
  have "map_ok de_name (ls_entries l) sm"
    using find_file_correct [OF lib _ sm(1)] l by (simp add: cl_ok_def ls_ok_def)
  then show "cl_ok lib l1"
    using l sm find_file_nonempty [OF sm(1)] find_file_empty [of lib de_name name "ls_searchmap_case l" r sm]
    by (cases "ls_entries l = []") (auto simp: cl_ok_def ls_ok_def)
  show "ls_path l1 = ls_path l" "ls_entries l1 = ls_entries l" using sm(2) by simp_all
  show "ls_entries l \<noteq> [] \<Longrightarrow> ls_searchmap_case l1 \<noteq> None" using find_file_nonempty [OF sm(1)] sm(2) by simp
qed

lemma FindFile_CmpNoCase_ok:
  assumes lib: "mm_pick_member lib" and l: "cl_ok lib l" "ls_entries l \<noteq> [] \<Longrightarrow> ls_searchmap_case l \<noteq> None"
    and f: "FindFile_CmpNoCase lib name l = (r, l1)"
  shows "cl_ok lib l1" "ls_path l1 = ls_path l" "ls_entries l1 = ls_entries l"
proof -
  obtain sm where sm: "find_file lib (lower_name lib) (str_tolower lib name) (ls_entries l) (ls_searchmap_nocase l) = (r, sm)"
    "l1 = l\<lparr>ls_searchmap_nocase := sm\<rparr>"
    using f by (auto simp: FindFile_CmpNoCase_def split: prod.splits)
  have "map_ok (lower_name lib) (ls_entries l) sm"
    using find_file_correct [OF lib _ sm(1)] l by (simp add: cl_ok_def ls_ok_def)
  then show "cl_ok lib l1"
    using l sm find_file_empty [of lib "lower_name lib" "str_tolower lib name" "ls_searchmap_nocase l" r sm]
    by (cases "ls_entries l = []") (auto simp: cl_ok_def ls_ok_def)
  show "ls_path l1 = ls_path l" "ls_entries l1 = ls_entries l" using sm(2) by simp_all
qed

text \<open>A search changes the maps of a listing and nothing else.\<close>

definition searched :: "'a fzlib_scheme \<Rightarrow> listing \<Rightarrow> listing \<Rightarrow> bool" where
  "searched lib l l1 \<longleftrightarrow> cl_ok lib l1 \<and> ls_path l1 = ls_path l \<and> ls_entries l1 = ls_entries l"

lemma find_both_ok:
  assumes lib: "mm_pick_member lib" and l: "cl_ok lib l"
    and f: "FindFile_CmpCase lib name l = (r, l1)" "FindFile_CmpNoCase lib name l1 = (r1, l2)"
  shows "searched lib l l1 \<and> searched lib l l2"
proof -
  note o1 = FindFile_CmpCase_ok [OF lib l f(1)]
  show ?thesis using o1 FindFile_CmpNoCase_ok [OF lib o1(1) _ f(2)] by (auto simp: searched_def)
qed

lemma lookup_name_ok:
  assumes lib: "mm_pick_member lib" and l: "cl_ok lib l" and f: "lookup_name lib server fl res name l = (r, d, l2)"
  shows "searched lib l l2"
proof -
  obtain r1 l1 where f1: "FindFile_CmpCase lib name l = (r1, l1)" by fastforce
  obtain r2 l3 where f2: "FindFile_CmpNoCase lib name l1 = (r2, l3)" by fastforce
  have "l2 = l1 \<or> l2 = l3" using f by (auto simp: lookup_name_def f1 f2 split: option.splits if_splits)
  then show ?thesis using find_both_ok [OF lib l f1 f2] by blast
qed

lemma lookup_names_ok:
  assumes lib: "mm_pick_member lib"
  shows "cl_ok lib l \<Longrightarrow> lookup_names lib server fl res names l = (rs, l2) \<Longrightarrow> searched lib l l2"
proof (induction names arbitrary: l rs l2)
  case Nil
  then show ?case by (simp add: searched_def)
next
  case (Cons f fs)
  obtain r d l1 where n: "lookup_name lib server fl res f l = (r, d, l1)" by (metis prod_cases3)
  obtain rs1 l3 where ns: "lookup_names lib server fl res fs l1 = (rs1, l3)" by fastforce
  have "searched lib l l1" by (rule lookup_name_ok [OF lib Cons.prems(1) n])
  then show ?case using Cons.IH [OF _ ns] Cons.prems(2) by (simp add: n ns searched_def)
qed

lemma searched_set:
  "cache_ok lib c \<Longrightarrow> get_entry c cid = Some e \<Longrightarrow> (cl_ok lib (ce_listing e) \<Longrightarrow> searched lib (ce_listing e) l) \<Longrightarrow>
   cache_ok lib (set_listing cid l c)"
  using cache_ok_get_set [of lib c cid e l] by (simp add: searched_def ls_size_def)

lemma lookup_cache_ok: "cache_ok lib c \<Longrightarrow> lookup_entry lib now sid path allow c = (r, c1) \<Longrightarrow> cache_ok lib c1"
  using lookup_entry_ok by blast

lemma Lookup_ok: "cache_ok lib c \<Longrightarrow> cache_ok lib (snd (Lookup lib now server path allow c))"
  using lookup_entry_ok [of lib c now _ path allow]
  by (auto simp: Lookup_def split: option.splits prod.splits)

lemma DoesExist_ok: "cache_ok lib c \<Longrightarrow> cache_ok lib (snd (DoesExist lib now server path c))"
  using Lookup_ok [of lib c now server path True] by (auto simp: DoesExist_def split: prod.splits)

lemma GetChangeTime_ok: "cache_ok lib c \<Longrightarrow> cache_ok lib (snd (GetChangeTime lib now server path c))"
  using lookup_entry_ok [of lib c now _ path True]
  by (auto simp: GetChangeTime_def split: option.splits prod.splits)

lemma LookupFile_ok:
  assumes "mm_pick_member lib" "cache_ok lib c"
  shows "cache_ok lib (snd (LookupFile lib now server path name fl c))"
proof -
  have s: "cache_ok lib (set_listing cid l c1)"
    if "cache_ok lib c1" "get_entry c1 cid = Some e" "lookup_name lib server fl res name (ce_listing e) = (r, d, l)" for c1 cid l e res r d
    using searched_set [OF that(1,2)] lookup_name_ok [OF assms(1) _ that(3)] by blast
  then show ?thesis using lookup_entry_ok [OF assms(2), of now _ path True] assms(2)
    by (auto simp: LookupFile_def Let_def split: option.splits prod.splits)
qed

lemma LookupFiles_ok:
  assumes "mm_pick_member lib" "cache_ok lib c"
  shows "cache_ok lib (snd (LookupFiles lib now server path names fl c))"
proof -
  have s: "cache_ok lib (set_listing cid l c1)"
    if "cache_ok lib c1" "get_entry c1 cid = Some e" "lookup_names lib server fl res names (ce_listing e) = (rs, l)" for c1 cid l e res rs
    using searched_set [OF that(1,2)] lookup_names_ok [OF assms(1) _ that(3)] by blast
  then show ?thesis using lookup_entry_ok [OF assms(2), of now _ path True] assms(2)
    by (auto simp: LookupFiles_def Let_def split: option.splits prod.splits)
qed

lemma LookupFile_dir_ok:
  assumes "mm_pick_member lib" "cache_ok lib c"
  shows "cache_ok lib (snd (LookupFile_dir lib now server path name c))"
proof -
  have s: "cache_ok lib (set_listing cid l c1) \<and> cache_ok lib (set_listing cid l1 c1)"
    if "cache_ok lib c1" "get_entry c1 cid = Some e" "FindFile_CmpCase lib name (ce_listing e) = (r, l)"
      "FindFile_CmpNoCase lib name l = (r1, l1)" for c1 cid l l1 e r r1
    using searched_set [OF that(1,2)] find_both_ok [OF assms(1) _ that(3,4)] by blast
  have s1: "cache_ok lib (set_listing cid l c1)"
    if "cache_ok lib c1" "get_entry c1 cid = Some e" "FindFile_CmpCase lib name (ce_listing e) = (r, l)" for c1 cid l e r
    using s [OF that] by (metis surj_pair)
  from s s1 show ?thesis using lookup_entry_ok [OF assms(2), of now _ path True] assms(2)
    by (auto simp: LookupFile_dir_def Let_def split: option.splits prod.splits)
qed

subsection \<open>Changes\<close>

lemma SetTtl_ok: "cache_ok lib c \<Longrightarrow> cache_ok lib (SetTtl ttl c)"
  by (simp add: SetTtl_def cache_ok_def)

lemma UpdateFile_update_ok:
  "update_ok lib (\<lambda>e. e\<lparr>ce_listing := update_listing lib name mc t sz og (ce_listing e), ce_modificationTime := now\<rparr>)
     (\<lambda>e. if snd (mark_until lib name (ls_entries (ce_listing e))) = None \<and> t \<noteq> ft_unknown \<and> mc then 1 else 0)"
  by (rule update_ok_listing [where d = "\<lambda>l. if snd (mark_until lib name (ls_entries l)) = None \<and> t \<noteq> ft_unknown \<and> mc then 1 else 0"])
    (simp add: cl_ok_update update_listing_size)

lemma UpdateFile_ok: "cache_ok lib c \<Longrightarrow> cache_ok lib (snd (UpdateFile lib now server path name mc t sz og c))"
  unfolding UpdateFile_def
  by (cases "GetServerEntry lib server c") (simp_all only: option.case snd_conv touch_entries_ok(1) [OF _ UpdateFile_update_ok])

lemma RemoveFile_update_ok:
  "update_ok lib (\<lambda>e. e\<lparr>ce_listing := remove_from_listing lib name (ce_listing e), ce_modificationTime := now\<rparr>)
     (\<lambda>e. if find_idx (\<lambda>d. de_name d = name) (ls_entries (ce_listing e)) \<noteq> None then -1 else 0)"
  by (rule update_ok_listing [where d = "\<lambda>l. if find_idx (\<lambda>d. de_name d = name) (ls_entries l) \<noteq> None then -1 else 0"])
    (simp add: cl_ok_remove remove_from_listing_size del: not_None_eq)

lemma RemoveFile_ok: "cache_ok lib c \<Longrightarrow> cache_ok lib (snd (RemoveFile lib now server path name c))"
  unfolding RemoveFile_def
  by (cases "GetServerEntry lib server c") (simp_all only: option.case snd_conv touch_entries_ok(1) [OF _ RemoveFile_update_ok])

text \<open>Removal of a part of the entries of a server.\<close>

lemma remove_entries_ok:
  fixes P :: "cache_entry \<Rightarrow> bool" and sid :: nat
  assumes ok: "cache_ok lib c"
  defines "c1 \<equiv> set_entries sid (filter (\<lambda>e. \<not> P e) (entries_of c sid)) (fold unlink_entry (filter P (entries_of c sid)) c)"
  shows "cache_ok lib c1" "(i, e) \<in> indexed c1 \<longleftrightarrow> (i, e) \<in> indexed c \<and> (i = sid \<longrightarrow> \<not> P e)"
proof -
  have s: "struct_ok lib c" using ok by (simp add: cache_ok_def)
  define G where "G = set (filter P (entries_of c sid))"
  have G: "G \<subseteq> set (entries_of c sid)" by (auto simp: G_def)
  have all: "G \<subseteq> set (all_entries c)" using indexed_all by (auto simp: G_def entries_of_mem [OF s])
  have es: "filter (\<lambda>e. \<not> P e) (entries_of c sid) = filter (\<lambda>e. e \<notin> G) (entries_of c sid)"
    "filter (\<lambda>e. e \<in> G) (entries_of c sid) = filter P (entries_of c sid)"
    by (auto simp: G_def intro: filter_cong)
  note u = fold_unlink [of "filter P (entries_of c sid)" c]
  have servers: "dc_servers c1 = map (\<lambda>s. s\<lparr>se_cache := filter (\<lambda>e. e \<notin> G) (se_cache s)\<rparr>) (dc_servers c)"
    using set_entries_filter [OF s G] u unfolding c1_def es(1) by (simp add: set_entries_def)
  have "cache_ok lib c1 \<and> (\<forall>i e. (i, e) \<in> indexed c1 \<longleftrightarrow> (i, e) \<in> indexed c \<and> e \<notin> G)"
    by (rule cache_ok_remove [OF ok all, where Q = "\<lambda>_. True"])
      (use servers u filter_all_entries [OF s G] es(2) in \<open>simp_all add: c1_def G_def\<close>)
  moreover have "e \<in> G \<longleftrightarrow> i = sid \<and> P e" if "(i, e) \<in> indexed c" for i e
  proof -
    have "e \<in> G \<longleftrightarrow> (sid, e) \<in> indexed c \<and> P e" by (auto simp: G_def entries_of_mem [OF s])
    then show ?thesis using that indexed_owner [OF s _ that refl] by blast
  qed
  ultimately show "cache_ok lib c1" "(i, e) \<in> indexed c1 \<longleftrightarrow> (i, e) \<in> indexed c \<and> (i = sid \<longrightarrow> \<not> P e)" by auto
qed

lemma InvalidateServer_indexed:
  assumes ok: "cache_ok lib c" and sid: "GetServerEntry lib server c = Some sid"
  shows "cache_ok lib (InvalidateServer lib server c)"
    "(i, e) \<in> indexed (InvalidateServer lib server c) \<longleftrightarrow> (i, e) \<in> indexed c \<and> i \<noteq> sid"
proof -
  have s: "struct_ok lib c" using ok by (simp add: cache_ok_def)
  define G where "G = set (entries_of c sid)"
  define c1 where "c1 = InvalidateServer lib server c"
  have all: "G \<subseteq> set (all_entries c)" using indexed_all by (auto simp: G_def entries_of_mem [OF s])
  note u = fold_unlink [of "entries_of c sid" c]
  have c1: "c1 = (fold unlink_entry (entries_of c sid) c)\<lparr>dc_servers := filter (\<lambda>s. se_id s \<noteq> sid) (dc_servers c)\<rparr>"
    using sid u by (simp add: c1_def InvalidateServer_def Let_def)
  have mem: "e \<in> G \<longleftrightarrow> i = sid" if "(i, e) \<in> indexed c" for i e
  proof -
    have "e \<in> G \<longleftrightarrow> (sid, e) \<in> indexed c" by (simp add: G_def entries_of_mem [OF s])
    then show ?thesis using that indexed_owner [OF s _ that refl] by blast
  qed
  have "filter (\<lambda>e. e \<notin> G) (se_cache t) = (if se_id t = sid then [] else se_cache t)" if "t \<in> set (dc_servers c)" for t
    using that mem by (auto simp: filter_empty_conv indexed_servers intro: filter_True)
  then have "filter (\<lambda>s. se_id s \<noteq> sid) (map (\<lambda>s. s\<lparr>se_cache := filter (\<lambda>e. e \<notin> G) (se_cache s)\<rparr>) (dc_servers c)) = dc_servers c1"
    using c1 by (simp add: filter_map comp_def cong: map_cong filter_cong) (auto intro: map_idI)
  then have "cache_ok lib c1 \<and> (\<forall>i e. (i, e) \<in> indexed c1 \<longleftrightarrow> (i, e) \<in> indexed c \<and> e \<notin> G)"
    by (intro cache_ok_remove [OF ok all, where Q = "\<lambda>s. se_id s \<noteq> sid"])
      (use c1 u filter_all_entries [OF s, of G sid] mem in \<open>auto simp: G_def filter_empty_conv indexed_servers\<close>)
  then show "cache_ok lib (InvalidateServer lib server c)"
    "(i, e) \<in> indexed (InvalidateServer lib server c) \<longleftrightarrow> (i, e) \<in> indexed c \<and> i \<noteq> sid"
    using mem unfolding c1_def by auto
qed

lemma InvalidateServer_ok: "cache_ok lib c \<Longrightarrow> cache_ok lib (InvalidateServer lib server c)"
proof (cases "GetServerEntry lib server c")
  case None
  then show "cache_ok lib c \<Longrightarrow> cache_ok lib (InvalidateServer lib server c)" by (simp add: InvalidateServer_def)
qed (rule InvalidateServer_indexed(1))

lemma map_entry_absent: "(\<And>e. e \<in> set (all_entries c) \<Longrightarrow> ce_id e \<noteq> cid) \<Longrightarrow> map_entry cid f c = c"
proof -
  assume a: "\<And>e. e \<in> set (all_entries c) \<Longrightarrow> ce_id e \<noteq> cid"
  have "map (\<lambda>e. if ce_id e = cid then f e else e) (se_cache s) = se_cache s" if "s \<in> set (dc_servers c)" for s
    using that a by (intro map_idI) (auto simp: all_entries_def)
  then have "map (\<lambda>s. s\<lparr>se_cache := map (\<lambda>e. if ce_id e = cid then f e else e) (se_cache s)\<rparr>) (dc_servers c) = dc_servers c"
    by (intro map_idI) simp
  then show ?thesis by (simp add: map_entry_def)
qed

lemma cache_ok_mark:
  assumes ok: "cache_ok lib c"
  shows "cache_ok lib (map_entry cid (\<lambda>e. e\<lparr>ce_listing := add_ls_flags fl (ce_listing e), ce_modificationTime := now\<rparr>) c)"
    (is "cache_ok lib (map_entry cid ?f c)")
proof (cases "\<exists>e\<in>set (all_entries c). ce_id e = cid")
  case True
  then obtain e where e: "e \<in> set (all_entries c)" "ce_id e = cid" by blast
  then have "entry_ok lib e" using ok by (auto simp: cache_ok_def struct_ok_def)
  then have "cache_ok lib ((map_entry cid ?f c)\<lparr>dc_total := dc_total c\<rparr>)"
    by (intro cache_ok_map_entry [OF ok e]) (auto simp: keeps_key_def entry_ok_def ce_path_def)
  then show ?thesis by (simp add: map_entry_def)
next
  case False
  then show ?thesis using ok by (simp add: map_entry_absent)
qed

lemma InvalidateFile_ok:
  assumes "cache_ok lib c"
  shows "cache_ok lib (snd (InvalidateFile lib now server path name c))"
proof -
  have u: "update_ok lib (\<lambda>e. e\<lparr>ce_listing := invalidate_listing lib cc name (ce_listing e), ce_modificationTime := now\<rparr>) (\<lambda>e. 0)" for cc
    by (rule update_ok_listing [where d = "\<lambda>_. 0"]) (simp add: cl_ok_invalidate, simp add: invalidate_listing_def ls_size_def)
  have f: "cache_ok lib c1 \<Longrightarrow> cache_ok lib (fold (\<lambda>e. if P e then map_entry (ce_id e)
      (\<lambda>e. e\<lparr>ce_listing := add_ls_flags unsure_unknown (ce_listing e), ce_modificationTime := now\<rparr>) else (\<lambda>c. c)) es c1)" for P es c1
    by (induction es arbitrary: c1) (simp_all add: cache_ok_mark)
  show ?thesis
  proof (cases "GetServerEntry lib server c")
    case (Some sid)
    show ?thesis unfolding InvalidateFile_def Some option.case Let_def snd_conv
      by (split if_split) (intro conjI impI f touch_entries_ok(1) [OF assms u])
  qed (use assms in \<open>simp add: InvalidateFile_def\<close>)
qed

lemma RemoveDir_ok: "cache_ok lib c \<Longrightarrow> cache_ok lib (RemoveDir lib now server path name c)"
  unfolding RemoveDir_def Let_def
  by (cases "GetServerEntry lib server c") (simp, simp only: option.case RemoveFile_ok [OF remove_entries_ok(1)])

lemma Rename_ok:
  assumes "cache_ok lib c"
  shows "cache_ok lib (Rename lib now server pathFrom fileFrom pathTo fileTo c)"
proof -
  have same: "cache_ok lib (rename_same lib now server pathFrom fileFrom fileTo cid c1)" if "cache_ok lib c1" for cid c1
  proof -
    define c2 where "c2 = snd (RemoveFile lib now server pathFrom fileTo c1)"
    have c2: "cache_ok lib c2" using RemoveFile_ok [OF that] by (simp add: c2_def)
    have "cache_ok lib (set_listing cid (ClearFindMap (add_ls_flags fl (l\<lparr>ls_entries := (ls_entries l)[i := d]\<rparr>))) c2)"
      if "get_entry c2 cid = Some e" "l = ce_listing e" for e l fl i d
      using cache_ok_get_set [OF c2 that(1)] cl_ok_ClearFindMap [of lib l]
      by (simp add: that(2) add_ls_flags_def ClearFindMap_def clear_maps_def ls_size_def)
    then show ?thesis using c2
      by (simp add: UpdateFile_ok RemoveDir_ok rename_same_def c2_def [symmetric] Let_def split: option.split)
  qed
  have other: "cache_ok lib (rename_other lib now server pathFrom fileFrom pathTo fileTo cid c1)" if "cache_ok lib c1" for cid c1
    using that by (simp add: UpdateFile_ok RemoveDir_ok RemoveFile_ok rename_other_def split: option.split)
  show ?thesis using assms
    by (auto simp: Rename_def split: option.splits prod.splits intro: same other InvalidateServer_ok lookup_cache_ok)
qed

lemma UpdateOwnerGroup_ok:
  assumes "cache_ok lib c"
  shows "cache_ok lib (UpdateOwnerGroup lib now server path name og c)"
proof -
  have s: "cache_ok lib (set_listing cid (ClearFindMap (l\<lparr>ls_entries := (ls_entries l)[i := d]\<rparr>)) c2)"
    if "cache_ok lib c2" "get_entry c2 cid = Some e" "l = ce_listing e" for e l i d cid c2
    using cache_ok_get_set [OF that(1,2)] cl_ok_ClearFindMap [of lib l "ls_flags l"]
    by (simp add: that(3) ClearFindMap_def clear_maps_def ls_size_def)
  show ?thesis using assms
    by (auto simp: UpdateOwnerGroup_def Let_def split: option.splits prod.splits intro: s [OF _ _ refl] InvalidateServer_ok lookup_cache_ok)
qed

end
