(* ===== verification/Cache_Reach.thy ===== *)
theory Cache_Reach
  imports Cache_Operations
begin

text \<open>
  The states of the directory cache that its operations reach, and what a lookup returns in them: the
  entries of the servers with the same content, as the removals and updates leave them.
\<close>

inductive cache_reach :: "'a fzlib_scheme \<Rightarrow> dir_cache \<Rightarrow> bool" for lib where
  start: "cache_reach lib empty_cache"
| store: "cache_reach lib c \<Longrightarrow> key_ok (ls_path l) \<Longrightarrow> cl_ok lib l \<Longrightarrow> Store lib now l server c = Some c1 \<Longrightarrow> cache_reach lib c1"
| lookup: "cache_reach lib c \<Longrightarrow> cache_reach lib (snd (Lookup lib now server path allow c))"
| exists: "cache_reach lib c \<Longrightarrow> cache_reach lib (snd (DoesExist lib now server path c))"
| change_time: "cache_reach lib c \<Longrightarrow> cache_reach lib (snd (GetChangeTime lib now server path c))"
| lookup_file: "cache_reach lib c \<Longrightarrow> cache_reach lib (snd (LookupFile lib now server path name fl c))"
| lookup_files: "cache_reach lib c \<Longrightarrow> cache_reach lib (snd (LookupFiles lib now server path names fl c))"
| lookup_dir: "cache_reach lib c \<Longrightarrow> cache_reach lib (snd (LookupFile_dir lib now server path name c))"
| invalidate: "cache_reach lib c \<Longrightarrow> cache_reach lib (snd (InvalidateFile lib now server path name c))"
| update: "cache_reach lib c \<Longrightarrow> cache_reach lib (snd (UpdateFile lib now server path name mc t sz og c))"
| remove: "cache_reach lib c \<Longrightarrow> cache_reach lib (snd (RemoveFile lib now server path name c))"
| remove_dir: "cache_reach lib c \<Longrightarrow> cache_reach lib (RemoveDir lib now server path name c)"
| rename: "cache_reach lib c \<Longrightarrow> cache_reach lib (Rename lib now server path name path' name' c)"
| owner: "cache_reach lib c \<Longrightarrow> cache_reach lib (UpdateOwnerGroup lib now server path name og c)"
| server: "cache_reach lib c \<Longrightarrow> cache_reach lib (InvalidateServer lib server c)"
| ttl: "cache_reach lib c \<Longrightarrow> cache_reach lib (SetTtl t c)"

lemmas operations_ok = Lookup_ok DoesExist_ok GetChangeTime_ok LookupFile_ok LookupFiles_ok LookupFile_dir_ok
  InvalidateFile_ok UpdateFile_ok RemoveFile_ok RemoveDir_ok Rename_ok UpdateOwnerGroup_ok InvalidateServer_ok SetTtl_ok

lemma cache_ok_empty: "cache_ok lib empty_cache"
  by (simp add: cache_ok_def struct_ok_def lru_ok_def linked_def file_count_def all_entries_def indexed_def empty_cache_def)

lemma cache_reach_ok:
  assumes lib: "opt_less_total lib" "mm_pick_member lib"
  shows "cache_reach lib c \<Longrightarrow> cache_ok lib c"
proof (induction rule: cache_reach.induct)
  case (store c l now server c1)
  then show ?case using Store_ok [OF lib(1) store.IH store.hyps(2,3), of now server] by auto
qed (simp_all add: cache_ok_empty operations_ok lib)

subsection \<open>Lookups\<close>

lemma lru_length:
  assumes "cache_ok lib c"
  shows "length (dc_lru c) = length (all_entries c)"
proof -
  have s: "struct_ok lib c" "lru_ok c" "linked c" using assms by (simp_all add: cache_ok_def)
  have d: "distinct (map (\<lambda>x. snd (snd x)) (dc_lru c))"
  proof -
    have "x = y" if mem: "x \<in> set (dc_lru c)" "y \<in> set (dc_lru c)" "snd (snd x) = snd (snd y)" for x y
    proof -
      obtain n i m j cid where xy: "x = (n, i, cid)" "y = (m, j, cid)" using mem(3) by (metis prod.collapse)
      obtain e f where "(i, e) \<in> indexed c" "ce_id e = cid" "ce_lruIt e = Some n" "(j, f) \<in> indexed c" "ce_id f = cid" "ce_lruIt f = Some m"
        using s(2) mem(1,2) unfolding xy lru_ok_def by blast
      then show ?thesis using indexed_unique [OF s(1), of i e j f] indexed_owner [OF s(1), of i e j f] xy by simp
    qed
    moreover have "distinct (dc_lru c)" using s(2) by (simp add: lru_ok_def distinct_map)
    ultimately show ?thesis by (simp add: distinct_map inj_on_def)
  qed
  have "cid \<in> snd ` snd ` set (dc_lru c) \<longleftrightarrow> cid \<in> ce_id ` set (all_entries c)" for cid
  proof
    assume "cid \<in> snd ` snd ` set (dc_lru c)"
    then obtain n i where "(n, i, cid) \<in> set (dc_lru c)" by force
    then obtain e where "(i, e) \<in> indexed c" "ce_id e = cid" using s(2) unfolding lru_ok_def by blast
    then show "cid \<in> ce_id ` set (all_entries c)" using indexed_all by blast
  next
    assume "cid \<in> ce_id ` set (all_entries c)"
    then obtain e i where e: "(i, e) \<in> indexed c" "ce_id e = cid" by (auto simp: all_entries_indexed)
    then obtain n where "ce_lruIt e = Some n" using s(3) indexed_all [OF e(1)] by (auto simp: linked_def)
    then have "(n, i, cid) \<in> set (dc_lru c)" using s(2) e unfolding lru_ok_def by blast
    then show "cid \<in> snd ` snd ` set (dc_lru c)" by force
  qed
  then have "set (map (\<lambda>x. snd (snd x)) (dc_lru c)) = set (map ce_id (all_entries c))" by (auto simp: image_image)
  moreover have "distinct (map ce_id (all_entries c))" using s(1) by (simp add: struct_ok_def)
  ultimately show ?thesis using d by (metis distinct_card length_map)
qed

lemma SameContent_common: "SameContent lib a b \<Longrightarrow> SameContent lib a c \<Longrightarrow> SameContent lib b c"
  using SameContent_trans [of lib b a c] SameContent_sym [of lib a b] by simp

lemma stored_same: "stored lib c server e \<Longrightarrow> SameContent lib server server' \<Longrightarrow> stored lib c server' e"
  unfolding stored_def using SameContent_trans by blast

lemma stored_None: "struct_ok lib c \<Longrightarrow> GetServerEntry lib server c = None \<Longrightarrow> \<not> stored lib c server e"
  unfolding stored_def using GetServerEntry_iff [of lib c server] by (metis option.distinct(1))

lemma stored_server:
  assumes "struct_ok lib c" "stored lib c server e" "stored lib c server' e"
  shows "SameContent lib server server'"
proof -
  obtain i s j t where ij: "(i, s) \<in> server_ids c" "SameContent lib s server" "(i, e) \<in> indexed c"
    "(j, t) \<in> server_ids c" "SameContent lib t server'" "(j, e) \<in> indexed c"
    using assms(2,3) unfolding stored_def by blast
  then have "s = t" using indexed_owner [OF assms(1) ij(3,6) refl] server_ids_inj [OF assms(1) ij(1)] by blast
  then show ?thesis using ij(2,5) SameContent_common [of lib s] by simp
qed

lemma image_filter: "h ` {t \<in> A. P (h t)} = {p \<in> h ` A. P p}"
  by blast

lemma InvalidateServer_stored:
  assumes ok: "cache_ok lib c"
  shows "stored lib (InvalidateServer lib server c) server' e \<longleftrightarrow> stored lib c server' e \<and> \<not> SameContent lib server server'"
proof -
  have s: "struct_ok lib c" using ok by (simp add: cache_ok_def)
  show ?thesis
  proof (cases "GetServerEntry lib server c")
    case None
    then have "\<not> stored lib c server e" by (rule stored_None [OF s])
    moreover have "InvalidateServer lib server c = c" using None by (simp add: InvalidateServer_def)
    ultimately show ?thesis using stored_same [of lib c server' e server] SameContent_sym [of lib server server'] by simp blast
  next
    case (Some sid)
    then obtain t where t: "(sid, t) \<in> server_ids c" "SameContent lib t server" using GetServerEntry_iff [OF s] by blast
    note ix = InvalidateServer_indexed(2) [OF ok Some]
    have ids: "server_ids (InvalidateServer lib server c) = {p \<in> server_ids c. fst p \<noteq> sid}"
    proof -
      have "dc_servers (InvalidateServer lib server c) = filter (\<lambda>s. se_id s \<noteq> sid) (dc_servers c)"
        using fold_unlink [of "entries_of c sid" c] by (simp add: InvalidateServer_def Some Let_def)
      then show ?thesis
        using image_filter [of "\<lambda>t. (se_id t, se_server t)" "set (dc_servers c)" "\<lambda>p. fst p \<noteq> sid"] by (simp add: server_ids_def)
    qed
    have "i = sid \<longleftrightarrow> SameContent lib server server'" if "(i, u) \<in> server_ids c" "SameContent lib u server'" for i u
    proof
      assume "i = sid"
      then have "u = t" using server_ids_inj [OF s that(1)] t(1) by blast
      then show "SameContent lib server server'" using that(2) t(2) SameContent_common [of lib t] by simp
    next
      assume "SameContent lib server server'"
      then have "SameContent lib u server"
        using SameContent_trans [OF that(2), of server] SameContent_sym [of lib server server'] by simp
      then show "i = sid" using iffD2 [OF GetServerEntry_iff [OF s, of server i]] that(1) Some by (metis option.inject)
    qed
    then show ?thesis unfolding stored_def ids ix mem_Collect_eq fst_conv by blast
  qed
qed

lemma Lookup_listing:
  assumes lib: "opt_less_total lib" and ok: "cache_ok lib c"
  shows "map_option fst (fst (Lookup lib now server path True c)) = Some l \<longleftrightarrow>
    (\<exists>e. stored lib c server e \<and> ce_path e = path \<and> ce_listing e = l)"
proof (cases "GetServerEntry lib server c")
  case None
  have "struct_ok lib c" using ok by (simp add: cache_ok_def)
  then show ?thesis using None stored_None [of lib c server] by (simp add: Lookup_def)
next
  case (Some sid)
  have s: "struct_ok lib c" using ok by (simp add: cache_ok_def)
  have st: "stored lib c server e \<longleftrightarrow> (sid, e) \<in> indexed c" for e
    using Some GetServerEntry_iff [OF s, of server] unfolding stored_def by (metis option.inject)
  show ?thesis
  proof (cases "\<exists>e. (sid, e) \<in> indexed c \<and> ce_path e = path")
    case True
    then obtain e where e: "(sid, e) \<in> indexed c" "ce_path e = path" by blast
    obtain lru where lru: "UpdateLru sid (ce_id e) c = c\<lparr>dc_lru := lru\<rparr>"
      using cache_ok_UpdateLru [OF ok e(1) refl] .
    have "get_entry (c\<lparr>dc_lru := lru\<rparr>) (ce_id e) = Some e"
      using get_entry_Some [of lib "c\<lparr>dc_lru := lru\<rparr>"] s indexed_all [OF e(1)] by simp
    then have f: "map_option fst (fst (Lookup lib now server path True c)) = Some (ce_listing e)"
      using lookup_entry_found [OF lib s e(1), of now True] e(2) by (simp add: Lookup_def Some lru)
    have u: "x = e" if "(sid, x) \<in> indexed c" "ce_path x = path" for x
    proof -
      have "x \<in> set (entries_of c sid)" "e \<in> set (entries_of c sid)" using that e by (simp_all add: entries_of_mem [OF s])
      then show ?thesis
        using lower_bound_mem [OF lib entries_of_sorted [OF s]] that(2) e(2) by (metis option.inject)
    qed
    have "(\<exists>x. stored lib c server x \<and> ce_path x = path \<and> ce_listing x = l) \<longleftrightarrow> ce_listing e = l"
      unfolding st using u e by blast
    then show ?thesis by (simp only: f option.inject)
  next
    case False
    then show ?thesis using lookup_entry_absent [OF s, of sid path now True] st by (auto simp: Lookup_def Some)
  qed
qed

lemma Lookup_InvalidateServer:
  assumes "opt_less_total lib" "cache_ok lib c"
  shows "map_option fst (fst (Lookup lib now server' path True (InvalidateServer lib server c))) =
    (if SameContent lib server server' then None else map_option fst (fst (Lookup lib now server' path True c)))"
proof -
  have "map_option fst (fst (Lookup lib now server' path True (InvalidateServer lib server c))) = Some l \<longleftrightarrow>
      (if SameContent lib server server' then None else map_option fst (fst (Lookup lib now server' path True c))) = Some l" for l
    unfolding Lookup_listing [OF assms(1) InvalidateServer_ok [OF assms(2)]] InvalidateServer_stored [OF assms(2)]
    using Lookup_listing [OF assms, of now server' path l] by simp
  then show ?thesis by (metis option.exhaust)
qed

subsection \<open>Loops over a server\<close>

lemma touch_entries_indexed:
  assumes "cache_ok lib c" "update_ok lib f delta"
  shows "(i, e1) \<in> indexed (touch_entries sel f delta sid c) \<longleftrightarrow>
      (\<exists>e. (i, e) \<in> indexed c \<and> e1 = (if i = sid \<and> sel e then f e else e))"
    and "server_ids (touch_entries sel f delta sid c) = server_ids c"
proof -
  define g where "g s e = (if se_id s = sid \<and> sel e then f e else e)" for s :: server_entry and e
  define h where "h s = s\<lparr>se_cache := map (g s) (se_cache s)\<rparr>" for s :: server_entry
  have "h s = (if se_id s = sid then s\<lparr>se_cache := map (\<lambda>e. if sel e then f e else e) (se_cache s)\<rparr> else s)" for s
    by (cases "se_id s = sid") (auto simp: h_def g_def [abs_def])
  then have servers: "dc_servers (touch_entries sel f delta sid c) = map h (dc_servers c)"
    using touch_entries_ok(2) [OF assms, of sel sid] by simp
  have h: "se_id (h s) = se_id s" "se_server (h s) = se_server s" "se_cache (h s) = map (g s) (se_cache s)" for s by (simp_all add: h_def)
  have "(i, e1) \<in> indexed (touch_entries sel f delta sid c) \<longleftrightarrow>
      (\<exists>s\<in>set (dc_servers c). se_id s = i \<and> (\<exists>e\<in>set (se_cache s). e1 = g s e))"
    unfolding indexed_servers servers set_map bex_simps(7) h by (simp add: image_iff)
  also have "\<dots> \<longleftrightarrow> (\<exists>e. (i, e) \<in> indexed c \<and> e1 = (if i = sid \<and> sel e then f e else e))"
    unfolding indexed_servers g_def by blast
  finally show "(i, e1) \<in> indexed (touch_entries sel f delta sid c) \<longleftrightarrow>
      (\<exists>e. (i, e) \<in> indexed c \<and> e1 = (if i = sid \<and> sel e then f e else e))" .
  show "server_ids (touch_entries sel f delta sid c) = server_ids c"
    by (simp add: server_ids_def servers image_image h)
qed

lemma GetServerEntry_cong:
  assumes "struct_ok lib c" "struct_ok lib c1" "server_ids c1 = server_ids c"
  shows "GetServerEntry lib server c1 = GetServerEntry lib server c"
proof -
  have "GetServerEntry lib server c1 = Some i \<longleftrightarrow> GetServerEntry lib server c = Some i" for i
    unfolding GetServerEntry_iff [OF assms(1)] GetServerEntry_iff [OF assms(2)] assms(3) ..
  then show ?thesis by (metis option.exhaust)
qed

lemma stored_sid:
  assumes s: "struct_ok lib c" and g: "GetServerEntry lib server c = Some sid"
  shows "stored lib c server e \<longleftrightarrow> (sid, e) \<in> indexed c"
  using g GetServerEntry_iff [OF s, of server] unfolding stored_def by (metis option.inject)

lemma stored_other:
  assumes s: "struct_ok lib c" "server_ids c1 = server_ids c" and g: "GetServerEntry lib server c = Some sid"
    and ix: "\<And>i e. i \<noteq> sid \<Longrightarrow> (i, e) \<in> indexed c1 \<longleftrightarrow> (i, e) \<in> indexed c" and ne: "\<not> SameContent lib server server'"
  shows "stored lib c1 server' e \<longleftrightarrow> stored lib c server' e"
proof -
  obtain t where t: "(sid, t) \<in> server_ids c" "SameContent lib t server" using g GetServerEntry_iff [OF s(1)] by blast
  have "i \<noteq> sid" if "(i, u) \<in> server_ids c" "SameContent lib u server'" for i u
  proof
    assume "i = sid"
    then have "u = t" using server_ids_inj [OF s(1) that(1)] t(1) by blast
    then show False using that(2) t(2) SameContent_common [of lib t] ne by simp
  qed
  then show ?thesis unfolding stored_def s(2) using ix by blast
qed

lemma RemoveDir_indexed:
  fixes now :: int
  assumes ok: "cache_ok lib c" and g: "GetServerEntry lib server c = Some sid" and p: "AddSegment path name = (True, p)"
  defines "c2 \<equiv> RemoveDir lib now server path name c"
  shows "server_ids c2 = server_ids c"
    "(i, e1) \<in> indexed c2 \<longleftrightarrow> (\<exists>e. (i, e) \<in> indexed c \<and> (i = sid \<longrightarrow> \<not> below lib p e) \<and>
      e1 = (if i = sid \<and> CmpNoCase lib path (ce_path e) = 0
        then e\<lparr>ce_listing := remove_from_listing lib name (ce_listing e), ce_modificationTime := now\<rparr> else e))"
proof -
  define c1 where "c1 = set_entries sid (filter (\<lambda>e. \<not> below lib p e) (entries_of c sid)) (fold unlink_entry (filter (below lib p) (entries_of c sid)) c)"
  note r = remove_entries_ok [OF ok, where sid = sid and P = "below lib p", folded c1_def]
  have ids: "server_ids c1 = server_ids c"
    unfolding c1_def server_ids_set_entries
    using fold_unlink [of "filter (below lib p) (entries_of c sid)" c] by (simp add: server_ids_def)
  have "GetServerEntry lib server c1 = Some sid"
    using GetServerEntry_cong [OF _ _ ids, of lib server] ok r(1) g by (simp add: cache_ok_def)
  then have c2: "c2 = touch_entries (\<lambda>e. CmpNoCase lib path (ce_path e) = 0)
      (\<lambda>e. e\<lparr>ce_listing := remove_from_listing lib name (ce_listing e), ce_modificationTime := now\<rparr>)
      (\<lambda>e. if find_idx (\<lambda>d. de_name d = name) (ls_entries (ce_listing e)) \<noteq> None then -1 else 0) sid c1"
    unfolding c2_def RemoveDir_def g option.case Let_def p prod.case if_True c1_def [symmetric] by (simp add: RemoveFile_def)
  show "server_ids c2 = server_ids c" unfolding c2 touch_entries_indexed(2) [OF r(1) RemoveFile_update_ok] ids ..
  show "(i, e1) \<in> indexed c2 \<longleftrightarrow> (\<exists>e. (i, e) \<in> indexed c \<and> (i = sid \<longrightarrow> \<not> below lib p e) \<and>
      e1 = (if i = sid \<and> CmpNoCase lib path (ce_path e) = 0
        then e\<lparr>ce_listing := remove_from_listing lib name (ce_listing e), ce_modificationTime := now\<rparr> else e))"
    unfolding c2 touch_entries_indexed(1) [OF r(1) RemoveFile_update_ok] r(2) by blast
qed

subsection \<open>A file that was changed is found\<close>

lemma cmp_loop_refl: "stricmp_equivalence lib \<Longrightarrow> cmp_loop lib xs xs = 0"
  by (induction xs) simp_all

lemma CmpNoCase_refl: "stricmp_equivalence lib \<Longrightarrow> CmpNoCase lib p p = 0"
  by (simp add: CmpNoCase_def cmp_loop_refl split: option.split)

lemma mark_until_found:
  "snd (mark_until lib name ds) = Some i \<Longrightarrow> i < length ds \<and> de_name (ds ! i) = name"
  by (induction ds arbitrary: i) (auto split: prod.splits if_splits)

lemma update_listing_names:
  assumes "t \<noteq> ft_unknown"
  shows "name \<in> set (GetFilenames (update_listing lib name True t sz og l))"
proof (cases "snd (mark_until lib name (ls_entries l))")
  case None
  then show ?thesis using assms
    by (cases "mark_until lib name (ls_entries l)")
      (simp add: update_listing_def GetFilenames_def Let_def Append_def new_direntry_def)
next
  case (Some i)
  obtain es where m: "mark_until lib name (ls_entries l) = (es, Some i)" using Some by (metis prod.collapse)
  have "name \<in> set (map de_name (ls_entries l))" using mark_until_found [OF Some] by (metis length_map nth_map nth_mem)
  also have "map de_name (ls_entries l) = map de_name es" using mark_until_names [of lib name "ls_entries l"] m by simp
  finally show ?thesis by (simp add: update_listing_def m GetFilenames_def Let_def)
qed

lemma LookupFile_dir_found:
  assumes lib: "opt_less_total lib" "mm_pick_member lib" and ok: "cache_ok lib c"
    and e: "stored lib c server e" "ce_path e = path" "name \<in> set (GetFilenames (ce_listing e))"
  shows "\<exists>d. fst (LookupFile_dir lib now server path name c) = (Some (d, True), True) \<and> de_name d = name"
proof -
  have s: "struct_ok lib c" using ok by (simp add: cache_ok_def)
  obtain sid where g: "GetServerEntry lib server c = Some sid"
    using stored_None [OF s, of server e] e(1) by blast
  then have ix: "(sid, e) \<in> indexed c" using e(1) by (simp add: stored_sid [OF s])
  obtain lru where lru: "UpdateLru sid (ce_id e) c = c\<lparr>dc_lru := lru\<rparr>"
    using cache_ok_UpdateLru [OF ok ix refl] .
  have ge: "get_entry c (ce_id e) = Some e" using get_entry_Some [OF s] indexed_all [OF ix] by simp
  obtain r l1 where f: "FindFile_CmpCase lib name (ce_listing e) = (r, l1)" by fastforce
  obtain sm where sm: "find_file lib de_name name (ls_entries (ce_listing e)) (ls_searchmap_case (ce_listing e)) = (r, sm)"
    "ls_entries l1 = ls_entries (ce_listing e)"
    using f by (auto simp: FindFile_CmpCase_def split: prod.splits)
  have "map_ok de_name (ls_entries (ce_listing e)) (ls_searchmap_case (ce_listing e))"
    using s indexed_all [OF ix] by (auto simp: struct_ok_def entry_ok_def cl_ok_def ls_ok_def)
  then obtain i where i: "r = Some i" "de_name (ls_entries l1 ! i) = name"
    using find_file_correct [OF lib(2) _ sm(1)] e(3) sm(2) by (cases r) (auto simp: GetFilenames_def)
  have "lookup_entry lib now sid path True c =
      (Some (ce_id e, now - ls_firstListTime (ce_listing e) > dc_ttl c), c\<lparr>dc_lru := lru\<rparr>)"
    using lookup_entry_found [OF lib(1) s ix, of now True] e(2) lru by simp
  then show ?thesis using i by (simp add: LookupFile_dir_def g ge f)
qed

end
