(* ===== verification/Common_Parent.thy ===== *)
theory Common_Parent
  imports Path_Order
begin

text \<open>
  The ancestors of a path and \<^verbatim>\<open>GetCommonParent\<close>.
\<close>

subsection \<open>The common parent\<close>

definition contains :: "'a fzlib_scheme \<Rightarrow> server_path \<Rightarrow> server_path \<Rightarrow> bool" where
  "contains lib a p \<longleftrightarrow> a = p \<or> IsParentOf lib a p False False"

lemma common_loop_lcp: "fst (common_loop xs ys acc) = acc @ longest_common_prefix xs ys"
  by (induction xs ys acc rule: common_loop.induct) auto

lemma common_loop_mismatch:
  "snd (common_loop xs ys acc) \<longleftrightarrow> \<not> prefix xs ys \<and> \<not> prefix ys xs"
  by (induction xs ys acc rule: common_loop.induct) auto

lemma prefix_lcp: "prefix zs (longest_common_prefix xs ys) \<longleftrightarrow> prefix zs xs \<and> prefix zs ys"
  by (meson longest_common_prefix_max_prefix longest_common_prefix_prefix1 longest_common_prefix_prefix2
      prefix_order.order_trans)

lemma lcp_empty_mismatch:
  "longest_common_prefix xs ys = [] \<Longrightarrow> xs \<noteq> [] \<Longrightarrow> ys \<noteq> [] \<Longrightarrow> \<not> prefix xs ys \<and> \<not> prefix ys xs"
  by (cases xs; cases ys) auto

text \<open>Containment of well-formed paths in terms of their parts.\<close>

lemma contains_plain:
  assumes "m_type a \<noteq> MVS" "wf_path a" "m_data a = Some da" "m_data p = Some dp"
  shows "contains lib a p \<longleftrightarrow>
    m_type a = m_type p \<and> m_prefix da = m_prefix dp \<and> prefix (m_segments da) (m_segments dp)"
proof -
  have "strict_prefix (m_segments da) (m_segments dp) \<Longrightarrow> m_type a = m_type p \<Longrightarrow> HasParent p"
    using assms(2-4) prefix_length_less [of "m_segments da" "m_segments dp"]
    by (cases "m_segments da") (auto simp: HasParent_def wf_path_def wf_data_def)
  moreover have "a = p \<longleftrightarrow> m_type a = m_type p \<and> da = dp"
    using assms(3,4) by (cases a; cases p) auto
  moreover have "da = dp \<longleftrightarrow> m_segments da = m_segments dp \<and> m_prefix da = m_prefix dp"
    by (cases da; cases dp) auto
  moreover have "IsParentOf lib a p False False \<longleftrightarrow> m_type a = m_type p \<and> HasParent p \<and>
      m_prefix da = m_prefix dp \<and> strict_prefix (m_segments da) (m_segments dp)"
    using assms(1,3,4) by (auto simp: IsParentOf_def IsSubdirOf_exact prefixmode_MVS)
  ultimately show ?thesis unfolding contains_def prefix_order.le_less by argo
qed

lemma contains_MVS:
  assumes "m_type a = MVS" "wf_path a" "m_data a = Some da" "m_data p = Some dp"
  shows "contains lib a p \<longleftrightarrow>
    m_type p = MVS \<and> (da = dp \<or> m_prefix da = Some [46] \<and> strict_prefix (m_segments da) (m_segments dp))"
proof -
  have "strict_prefix (m_segments da) (m_segments dp) \<Longrightarrow> m_type p = MVS \<Longrightarrow> HasParent p"
    using assms prefix_length_less [of "m_segments da" "m_segments dp"]
    by (cases "m_segments da") (auto simp: HasParent_def wf_path_def wf_data_def)
  moreover have "a = p \<longleftrightarrow> m_type a = m_type p \<and> da = dp"
    using assms(3,4) by (cases a; cases p) auto
  moreover have "m_prefix da \<noteq> None \<longleftrightarrow> m_prefix da = Some [46]"
    using assms by (auto simp: wf_path_def wf_data_def prefix_ok_def)
  ultimately show ?thesis
    using assms(1,3,4)
    by (auto simp: contains_def IsParentOf_def IsSubdirOf_exact prefixmode_MVS)
qed

lemma contains_empty: "path_empty p \<or> path_empty a \<Longrightarrow> contains lib a p \<longleftrightarrow> a = p"
  by (auto simp: contains_def IsParentOf_def IsSubdirOf_def path_empty_def split: option.splits)

text \<open>A path without a parent is contained in nothing but itself.\<close>

lemma contains_root: "\<not> HasParent p \<Longrightarrow> contains lib a p \<longleftrightarrow> a = p"
  by (auto simp: contains_def IsParentOf_def IsSubdirOf_def split: option.splits)

text \<open>The segments of a data set that can belong to a containing directory: the last
  one of an MVS member data set cannot.\<close>

definition dir_segments :: "server_type \<Rightarrow> path_data \<Rightarrow> wstring list" where
  "dir_segments t d = (if t = MVS \<and> m_prefix d = None then butlast (m_segments d) else m_segments d)"

lemma strict_prefix_butlast:
  "strict_prefix xs ys \<longleftrightarrow> ys \<noteq> [] \<and> prefix xs (butlast ys)"
  by (cases ys rule: rev_cases) (auto simp: strict_prefix_def)

lemma GetCommonParent_parts:
  assumes "p \<noteq> q" "m_data p = Some dp" "m_data q = Some dq" "HasParent p" "HasParent q" "wf_path p" "wf_path q"
  shows "GetCommonParent lib p q =
    (let t = m_type p; zs = longest_common_prefix (dir_segments t dp) (dir_segments t dq) in
     if t \<noteq> m_type q \<or> t \<noteq> MVS \<and> m_prefix dp \<noteq> m_prefix dq \<or> \<not> has_root (traits t) \<and> zs = [] then empty_path
     else \<lparr>m_data = Some \<lparr>m_segments = zs, m_prefix = (if t = MVS then Some [46] else m_prefix dp)\<rparr>, m_type = t\<rparr>)"
proof -
  have "\<not> has_root (traits (m_type p)) \<Longrightarrow> m_type p = m_type q \<Longrightarrow>
      dir_segments (m_type p) dp \<noteq> [] \<and> dir_segments (m_type p) dq \<noteq> []"
    using assms(2-5) by (cases "m_segments dp"; cases "m_segments dq") (auto simp: HasParent_def dir_segments_def)
  moreover have "m_type p = MVS \<Longrightarrow> m_prefix (get_data (GetParent p)) = Some [46]"
    using assms(2,4) by (auto simp: GetParent_def MakeParent_def get_data_def)
  ultimately show ?thesis
    using assms(1-5) lcp_empty_mismatch [of "dir_segments (m_type p) dp" "dir_segments (m_type p) dq"]
    by (cases "m_type p = m_type q"; cases "m_type p = MVS"; cases "has_root (traits (m_type p))")
      (simp_all add: GetCommonParent_def path_eq_iff common_loop_lcp common_loop_mismatch Let_def
        prefixmode_MVS dir_segments_def)
qed

lemma contains_dir_segments:
  assumes "wf_path a" "m_data a = Some da" "m_data p = Some dp" "m_type a = m_type p" "HasParent p"
    "wf_path p" "m_type a = MVS \<Longrightarrow> m_prefix da = Some [46]"
  shows "contains lib a p \<longleftrightarrow>
    (m_type a \<noteq> MVS \<longrightarrow> m_prefix da = m_prefix dp) \<and> prefix (m_segments da) (dir_segments (m_type a) dp)"
proof (cases "m_type a = MVS")
  case True
  have "m_segments dp \<noteq> []" using assms(3,5) by (auto simp: HasParent_def split: if_splits)
  moreover have "m_prefix dp = None \<or> m_prefix dp = Some [46]"
    using assms(3,4,6) True by (auto simp: wf_path_def wf_data_def prefix_ok_def)
  moreover have "contains lib a p \<longleftrightarrow> da = dp \<or> strict_prefix (m_segments da) (m_segments dp)"
    using contains_MVS [OF True assms(1-3)] assms(4,7) True by simp
  moreover have "m_prefix dp = m_prefix da \<Longrightarrow> da = dp \<longleftrightarrow> m_segments da = m_segments dp"
    by (cases da; cases dp) simp
  moreover have "m_prefix dp \<noteq> m_prefix da \<Longrightarrow> da \<noteq> dp" by blast
  ultimately show ?thesis
    using assms(7) True strict_prefix_butlast [of "m_segments da" "m_segments dp"]
      prefix_order.le_less [of "m_segments da" "m_segments dp"]
    by (elim disjE) (simp_all add: dir_segments_def disj_commute)
next
  case False
  then show ?thesis using assms contains_plain [OF False assms(1-3)] by (simp add: dir_segments_def)
qed

lemma if_cases: "(if b then e else x) \<noteq> e \<Longrightarrow> (\<not> b \<Longrightarrow> P x) \<Longrightarrow> P (if b then e else x)"
  by (cases b) auto

lemma contains_data:
  assumes "wf_path a" "m_data a = Some da" "m_type a = MVS \<Longrightarrow> m_prefix da = Some [46]"
  shows "contains lib a \<lparr>m_data = Some \<lparr>m_segments = zs,
      m_prefix = (if m_type a = MVS then Some [46] else pre)\<rparr>, m_type = m_type a\<rparr> \<longleftrightarrow>
    (m_type a \<noteq> MVS \<longrightarrow> m_prefix da = pre) \<and> prefix (m_segments da) zs"
proof (cases "m_type a = MVS")
  case True
  then have "da = \<lparr>m_segments = zs, m_prefix = Some [46]\<rparr> \<longleftrightarrow> m_segments da = zs"
    using assms(3) by (cases da) simp
  then show ?thesis
    using True assms(3) contains_MVS [OF True assms(1,2), of "\<lparr>m_data = Some \<lparr>m_segments = zs, m_prefix = Some [46]\<rparr>, m_type = MVS\<rparr>"
        "\<lparr>m_segments = zs, m_prefix = Some [46]\<rparr>" lib]
      prefix_order.le_less [of "m_segments da" zs]
    by (simp add: disj_commute)
next
  case False
  then show ?thesis using contains_plain [OF False assms(1,2), of "\<lparr>m_data = Some \<lparr>m_segments = zs, m_prefix = pre\<rparr>, m_type = m_type a\<rparr>"
        "\<lparr>m_segments = zs, m_prefix = pre\<rparr>" lib] by simp
qed

lemma GetCommonParent_root:
  assumes "m_data p = Some dp" "m_data q = Some dq" "p \<noteq> q" "HasParent p \<Longrightarrow> \<not> HasParent q"
  shows "GetCommonParent lib p q =
    (if m_type p \<noteq> m_type q \<or> m_type p \<noteq> MVS \<and> m_prefix dp \<noteq> m_prefix dq then empty_path
     else if \<not> HasParent p then (if IsSubdirOf lib q p False False then p else empty_path)
     else (if IsSubdirOf lib p q False False then q else empty_path))"
proof (cases "HasParent p")
  case True
  with assms(4) have "\<not> HasParent q" by blast
  then show ?thesis unfolding GetCommonParent_def path_eq_iff
    using assms(1-3) True by (simp add: prefixmode_MVS Let_def)
next
  case False
  then show ?thesis unfolding GetCommonParent_def path_eq_iff
    using assms(1-3) by (simp add: prefixmode_MVS Let_def)
qed

lemma GetCommonParent_empty:
  "p \<noteq> q \<Longrightarrow> path_empty p \<or> path_empty q \<Longrightarrow> GetCommonParent lib p q = empty_path"
  by (auto simp: GetCommonParent_def path_eq_iff path_empty_def split: option.splits)

lemma GetCommonParent_wf:
  assumes "wf_path p" "wf_path q"
  shows "wf_path (GetCommonParent lib p q)"
proof (cases "p \<noteq> q \<and> HasParent p \<and> HasParent q")
  case True
  then obtain dp dq where d: "m_data p = Some dp" "m_data q = Some dq"
    by (auto simp: HasParent_def split: option.splits)
  have "set (longest_common_prefix (dir_segments t dp) ys) \<subseteq> set (m_segments dp)" for t ys
    using longest_common_prefix_prefix1 [of "dir_segments t dp" ys]
    by (auto simp: dir_segments_def dest!: set_mono_prefix in_set_butlastD split: if_splits)
  then have "x \<in> set (longest_common_prefix (dir_segments t dp) ys) \<Longrightarrow> seg_ok (m_type p) x" for x t ys
    using assms(1) d by (auto simp: wf_path_def wf_data_def segs_ok_def)
  moreover have "prefix_ok (m_type p) (m_prefix dp)" using assms(1) d by (simp add: wf_path_def wf_data_def)
  moreover have "prefix_ok MVS (Some [46])" by (simp add: prefix_ok_def)
  ultimately show ?thesis
    using GetCommonParent_parts [OF _ d _ _ assms, of lib] True
    by (cases "m_type p = m_type q"; cases "m_type q = MVS"; cases "m_prefix dp = m_prefix dq")
      (simp_all add: wf_path_def wf_data_def segs_ok_def Let_def empty_path_def)
next
  case False
  show ?thesis
  proof (cases "p = q \<or> path_empty p \<or> path_empty q")
    case True
    then show ?thesis using assms GetCommonParent_empty [of p q lib]
      by (cases "p = q") (auto simp: GetCommonParent_def path_eq_iff empty_path_def)
  next
    case paths: False
    then obtain dp dq where "m_data p = Some dp" "m_data q = Some dq" by (auto simp: path_empty_def)
    then have "GetCommonParent lib p q \<in> {p, q, empty_path}"
      using GetCommonParent_root [of p dp q dq lib] False paths by simp
    then show ?thesis using assms by (auto simp: empty_path_def)
  qed
qed

lemma GetCommonParent_contains_parents:
  assumes "p \<noteq> q" "HasParent p" "HasParent q" "wf_path p" "wf_path q" "wf_path a" "\<not> path_empty a"
  shows "contains lib a (GetCommonParent lib p q) \<longleftrightarrow> contains lib a p \<and> contains lib a q"
proof -
  obtain dp dq da where d: "m_data p = Some dp" "m_data q = Some dq" "m_data a = Some da"
    using assms(2,3,7) by (auto simp: HasParent_def path_empty_def split: option.splits)
  have ne: "\<not> contains lib a empty_path"
    using assms(7) contains_empty [of empty_path a lib] by (auto simp: path_empty_def empty_path_def)
  have ty: "contains lib a x \<Longrightarrow> m_type a = m_type x" for x
    by (auto simp: contains_def IsParentOf_def IsSubdirOf_exact)
  have fin: "\<not> has_root (traits (m_type a)) \<Longrightarrow> m_segments da \<noteq> []"
    using assms(6) d by (auto simp: wf_path_def wf_data_def)
  note parts = GetCommonParent_parts [OF assms(1) d(1,2) assms(2-5), of lib]
  show ?thesis
  proof (cases "m_type a = m_type p \<and> m_type a = m_type q")
    case same: True
    show ?thesis
    proof (cases "m_type a = MVS \<and> m_prefix da = None")
      case True
      then have "contains lib a p \<Longrightarrow> a = p" "contains lib a q \<Longrightarrow> a = q"
        "contains lib a (GetCommonParent lib p q) \<Longrightarrow> False"
        using d ne same parts
        by (auto simp: contains_def IsParentOf_def IsSubdirOf_exact prefixmode_MVS Let_def split: if_splits)
      then show ?thesis using assms(1) by blast
    next
      case False
      then have pre: "m_type a = MVS \<Longrightarrow> m_prefix da = Some [46]"
        using assms(6) d by (auto simp: wf_path_def wf_data_def prefix_ok_def)
      let ?z = "longest_common_prefix (dir_segments (m_type a) dp) (dir_segments (m_type a) dq)"
      have "contains lib a \<lparr>m_data = Some \<lparr>m_segments = ?z,
          m_prefix = (if m_type a = MVS then Some [46] else m_prefix dp)\<rparr>, m_type = m_type a\<rparr> \<longleftrightarrow>
          (m_type a \<noteq> MVS \<longrightarrow> m_prefix da = m_prefix dp) \<and> prefix (m_segments da) ?z"
        by (rule contains_data [OF assms(6) d(3) pre])
      moreover have "contains lib a p \<and> contains lib a q \<longleftrightarrow>
          (m_type a \<noteq> MVS \<longrightarrow> m_prefix da = m_prefix dp \<and> m_prefix da = m_prefix dq) \<and>
          prefix (m_segments da) ?z"
        using contains_dir_segments [OF assms(6) d(3,1) _ assms(2,4) pre, of lib] same
          contains_dir_segments [OF assms(6) d(3,2) _ assms(3,5) pre, of lib]
        unfolding prefix_lcp by blast
      moreover have "?z = [] \<Longrightarrow> \<not> has_root (traits (m_type a)) \<Longrightarrow> \<not> prefix (m_segments da) ?z"
        using fin by simp
      ultimately show ?thesis
        using ne same parts
        by (cases "m_type a = MVS"; cases "m_prefix dp = m_prefix dq"; cases "has_root (traits (m_type a))"; cases "?z = []")
          (simp_all add: Let_def)
    qed
  next
    case False
    moreover have "GetCommonParent lib p q \<noteq> empty_path \<Longrightarrow>
        m_type (GetCommonParent lib p q) = m_type p \<and> m_type p = m_type q"
      unfolding parts Let_def by (erule if_cases [where P = "\<lambda>g. m_type g = m_type p \<and> m_type p = m_type q"]) simp
    ultimately show ?thesis using ty [of p] ty [of q] ty [of "GetCommonParent lib p q"] ne by metis
  qed
qed

text \<open>The common parent of two paths is the deepest path that contains both.\<close>

lemma GetCommonParent_contains:
  assumes "wf_path p" "wf_path q" "wf_path a" "\<not> path_empty a"
  shows "contains lib a (GetCommonParent lib p q) \<longleftrightarrow> contains lib a p \<and> contains lib a q"
proof (cases "p \<noteq> q \<and> HasParent p \<and> HasParent q")
  case True
  then show ?thesis using GetCommonParent_contains_parents [OF _ _ _ assms] by blast
next
  case False
  have ne: "\<not> contains lib a empty_path"
    using assms(4) contains_empty [of empty_path a lib] by (auto simp: path_empty_def empty_path_def)
  have emp: "path_empty x \<Longrightarrow> \<not> contains lib a x" for x
    using assms(4) contains_empty [of x a lib] by auto
  have root: "\<not> HasParent x \<Longrightarrow> contains lib a x \<longleftrightarrow> a = x" for x by (rule contains_root)
  have sub: "contains lib x y \<longleftrightarrow> x = y \<or> IsSubdirOf lib y x False False" for x y
    by (simp add: contains_def IsParentOf_def)
  show ?thesis
  proof (cases "p = q \<or> path_empty p \<or> path_empty q")
    case True
    then show ?thesis using ne emp GetCommonParent_empty [of p q lib]
      by (cases "p = q") (auto simp: GetCommonParent_def path_eq_iff)
  next
    case paths: False
    then obtain dp dq where d: "m_data p = Some dp" "m_data q = Some dq" by (auto simp: path_empty_def)
    have agree: "m_type p = m_type q \<and> (m_type p \<noteq> MVS \<longrightarrow> m_prefix dp = m_prefix dq)"
      if "IsSubdirOf lib q p False False \<or> IsSubdirOf lib p q False False"
      using that d by (auto simp: IsSubdirOf_exact prefixmode_MVS)
    have parent: "IsSubdirOf lib x y False False \<Longrightarrow> HasParent x" for x y
      by (auto simp: IsSubdirOf_exact)
    have "GetCommonParent lib p q =
      (if \<not> HasParent p \<and> IsSubdirOf lib q p False False then p
       else if HasParent p \<and> IsSubdirOf lib p q False False then q else empty_path)"
      using GetCommonParent_root [OF d, of lib] False paths agree by argo
    then show ?thesis
      using False paths ne root [of p] root [of q] sub [of p q] sub [of q p] by metis
  qed
qed

text \<open>
  C12: \<^verbatim>\<open>GetCommonParent\<close> gives the deepest common ancestor: the result is well-formed, and a
  path contains the result (is equal to it or one of its parents) exactly if it contains both
  arguments.
\<close>

theorem common_parent_greatest:
  assumes "wf_path p" "wf_path q" "wf_path a" "\<not> path_empty a"
  shows "wf_path (GetCommonParent lib p q) \<and>
    (contains lib a (GetCommonParent lib p q) \<longleftrightarrow> contains lib a p \<and> contains lib a q)"
  using GetCommonParent_wf [OF assms(1,2)] GetCommonParent_contains [OF assms] by blast

definition unix_path :: "wstring list \<Rightarrow> server_path" where
  "unix_path ss = \<lparr>m_data = Some \<lparr>m_segments = ss, m_prefix = None\<rparr>, m_type = UNIX\<rparr>"

theorem common_parent_greatest_witness:
  "contains ascii_lib (unix_path [L ''home''])
     (GetCommonParent ascii_lib (unix_path [L ''home'', L ''a'']) (unix_path [L ''home'', L ''b'', L ''c'']))"
proof -
  let ?a = "unix_path [L ''home'']" and ?p = "unix_path [L ''home'', L ''a'']"
    and ?q = "unix_path [L ''home'', L ''b'', L ''c'']"
  have "wf_path ?a" "wf_path ?p" "wf_path ?q" "\<not> path_empty ?a"
    by (simp_all add: unix_path_def wf_path_def wf_data_def segs_ok_def seg_ok_def prefix_ok_def path_empty_def)
  moreover have "contains ascii_lib ?a ?p" "contains ascii_lib ?a ?q"
    by (simp_all add: unix_path_def contains_def IsParentOf_def IsSubdirOf_exact HasParent_def strict_prefix_def)
  ultimately show ?thesis using common_parent_greatest [of ?p ?q ?a ascii_lib] by blast
qed

end
