(* ===== verification/Directory_Cache_Props.thy ===== *)
theory Directory_Cache_Props
  imports Cache_Reach Common_Parent
begin

text \<open>
  What the directory cache promises to its clients, in every state that its operations reach.
\<close>

text \<open>
  C4: In every state that the operations reach, the cache is consistent: identities are fresh and
  unique, each server has its listings in path order and once per path, the least-recently-used list
  has exactly one node for each entry, the search maps of the listings are valid, and
  \<^verbatim>\<open>m_totalFileCount\<close> is the number of files in all listings. Pruning and storing in such a state never
  follow the iterator of an entry that is gone.
\<close>

theorem cache_invariant:
  assumes "opt_less_total lib" "mm_pick_member lib" "cache_reach lib c"
  shows "cache_ok lib c \<and>
    dc_total c = (\<Sum>e\<leftarrow>all_entries c. int (ls_size (ce_listing e))) \<and>
    length (dc_lru c) = length (all_entries c) \<and>
    Prune c \<noteq> None \<and> (key_ok (ls_path l) \<and> cl_ok lib l \<longrightarrow> Store lib now l server c \<noteq> None)"
proof -
  have ok: "cache_ok lib c" by (rule cache_reach_ok [OF assms])
  then have "length (dc_lru c) = length (all_entries c)" by (rule lru_length)
  then show ?thesis using ok Prune_ok [OF ok] Store_ok [OF assms(1) ok, of l now server] by (auto simp: cache_ok_def file_count_def)
qed

text \<open>
  C6: \<^verbatim>\<open>Store\<close> then \<^verbatim>\<open>Lookup\<close> returns the listing, for every server with the same content, and a
  lookup finds no listing that was not there before.
\<close>

theorem store_lookup:
  assumes "opt_less_total lib" "mm_pick_member lib" "cache_reach lib c" "key_ok (ls_path l)" "cl_ok lib l"
  shows "\<exists>c1. Store lib now l server c = Some c1 \<and>
    (\<forall>server'. SameContent lib server server' \<longrightarrow>
       map_option fst (fst (Lookup lib now' server' (ls_path l) True c1)) = Some l) \<and>
    (\<forall>server' path l'. map_option fst (fst (Lookup lib now' server' path True c1)) = Some l' \<longrightarrow>
       SameContent lib server server' \<and> path = ls_path l \<and> l' = l \<or>
       map_option fst (fst (Lookup lib now' server' path True c)) = Some l')"
proof -
  have ok: "cache_ok lib c" by (rule cache_reach_ok [OF assms(1-3)])
  obtain c1 e where c1: "Store lib now l server c = Some c1" "cache_ok lib c1" "stored lib c1 server e" "ce_listing e = l"
    "\<forall>server' x. stored lib c1 server' x \<longrightarrow> x = e \<or> stored lib c server' x"
    using Store_ok [OF assms(1) ok assms(4,5), of now server] by blast
  have s1: "struct_ok lib c1" using c1(2) by (simp add: cache_ok_def)
  have path: "ce_path e = ls_path l" using c1(4) by (simp add: ce_path_def)
  note look = Lookup_listing [OF assms(1) c1(2)]
  have "map_option fst (fst (Lookup lib now' server' (ls_path l) True c1)) = Some l" if "SameContent lib server server'" for server'
    unfolding look using stored_same [OF c1(3) that] c1(4) path by blast
  moreover have "SameContent lib server server' \<and> path = ls_path l \<and> l' = l \<or>
      map_option fst (fst (Lookup lib now' server' path True c)) = Some l'"
    if found: "map_option fst (fst (Lookup lib now' server' path True c1)) = Some l'" for server' path l'
  proof -
    obtain x where x: "stored lib c1 server' x" "ce_path x = path" "ce_listing x = l'" using found unfolding look by blast
    then have "x = e \<or> stored lib c server' x" using c1(5) by blast
    then show ?thesis unfolding Lookup_listing [OF assms(1) ok]
      using x c1(3,4) path stored_server [OF s1 c1(3)] by blast
  qed
  ultimately show ?thesis using c1(1) by blast
qed

text \<open>
  C25: \<^verbatim>\<open>InvalidateServer\<close> forgets every listing of the server, and nothing of any other server.
\<close>

theorem invalidate_server:
  assumes "opt_less_total lib" "mm_pick_member lib" "cache_reach lib c"
  shows "map_option fst (fst (Lookup lib now server' path True (InvalidateServer lib server c))) =
    (if SameContent lib server server' then None else map_option fst (fst (Lookup lib now server' path True c)))"
  by (rule Lookup_InvalidateServer [OF assms(1) cache_reach_ok [OF assms]])

text \<open>
  C17: After \<^verbatim>\<open>RemoveDir\<close>, the server has no listing for the removed directory or for any directory
  below it. The listings of other servers are as before.
\<close>

theorem remove_dir_lookup:
  assumes "opt_less_total lib" "mm_pick_member lib" "cache_reach lib c" "AddSegment path name = (True, p)"
  shows "(SameContent lib server server' \<and> (path' = p \<or> IsParentOf lib p path' True False) \<longrightarrow>
      map_option fst (fst (Lookup lib now' server' path' True (RemoveDir lib now server path name c))) = None) \<and>
    (\<not> SameContent lib server server' \<longrightarrow>
      map_option fst (fst (Lookup lib now' server' path' True (RemoveDir lib now server path name c))) =
      map_option fst (fst (Lookup lib now' server' path' True c)))"
proof -
  have ok: "cache_ok lib c" by (rule cache_reach_ok [OF assms(1-3)])
  then have s: "struct_ok lib c" by (simp add: cache_ok_def)
  define c2 where "c2 = RemoveDir lib now server path name c"
  have ok2: "cache_ok lib c2" unfolding c2_def by (rule RemoveDir_ok [OF ok])
  then have s2: "struct_ok lib c2" by (simp add: cache_ok_def)
  note look = Lookup_listing [OF assms(1) ok] Lookup_listing [OF assms(1) ok2]
  have p: "\<not> path_empty p" using assms(4) by (auto simp: AddSegment_def path_empty_def split: option.splits)
  show ?thesis
  proof (cases "GetServerEntry lib server c")
    case None
    then have c2: "c2 = c" by (simp add: c2_def RemoveDir_def)
    have "\<not> stored lib c server' e" if "SameContent lib server server'" for e
      using stored_None [OF s None] stored_same [of lib c server' e server] SameContent_sym [of lib server server'] that by blast
    then have "map_option fst (fst (Lookup lib now' server' path' True c)) = None" if "SameContent lib server server'"
      using look(1) [of now' server' path'] that by (metis option.exhaust)
    then show ?thesis unfolding c2_def [symmetric] c2 by simp
  next
    case (Some sid)
    note r = RemoveDir_indexed [OF ok Some assms(4), where now = now, folded c2_def]
    have g2: "GetServerEntry lib server c2 = Some sid" using GetServerEntry_cong [OF s s2 r(1)] Some by simp
    have "\<not> (stored lib c2 server' e \<and> ce_path e = path')"
      if "SameContent lib server server'" "path' = p \<or> IsParentOf lib p path' True False" for e
    proof
      assume e: "stored lib c2 server' e \<and> ce_path e = path'"
      then have "stored lib c2 server e" using stored_same [of lib c2 server' e server] SameContent_sym [of lib server server'] that(1) by blast
      then obtain x where x: "\<not> below lib p x" "ce_path e = ce_path x"
        unfolding stored_sid [OF s2 g2] r(2) by (auto simp: ce_path_def split: if_splits)
      then show False using e that(2) p by (auto simp: below_def path_eq_iff)
    qed
    then have "map_option fst (fst (Lookup lib now' server' path' True c2)) = None"
      if "SameContent lib server server'" "path' = p \<or> IsParentOf lib p path' True False"
      using look(2) [of now' server' path'] that by (metis option.exhaust)
    moreover have "stored lib c2 server' e \<longleftrightarrow> stored lib c server' e" if "\<not> SameContent lib server server'" for e
      by (rule stored_other [OF s r(1) Some _ that]) (simp add: r(2))
    then have "map_option fst (fst (Lookup lib now' server' path' True c2)) = Some l \<longleftrightarrow>
        map_option fst (fst (Lookup lib now' server' path' True c)) = Some l" if "\<not> SameContent lib server server'" for l
      using look that by simp
    ultimately show ?thesis unfolding c2_def [symmetric] by (metis option.exhaust)
  qed
qed

lemma unsure_added: "f AND unsure_mask \<noteq> 0 \<Longrightarrow> get_unsure_flags (l\<lparr>ls_flags := ls_flags l' OR f\<rparr>) \<noteq> 0"
  by (simp add: get_unsure_flags_def bit.conj_disj_distrib2 or_eq_0_iff)

lemma update_listing_unsure: "get_unsure_flags (update_listing lib name mc t sz og l) \<noteq> 0"
proof -
  have f: "f AND unsure_mask \<noteq> 0"
    if "f \<in> {unsure_invalid, unsure_dir_changed, unsure_file_changed, unsure_dir_added OR listing_has_dirs, unsure_file_added, unsure_unknown}" for f
    using that by (auto simp: unsure_invalid_def unsure_dir_changed_def unsure_file_changed_def unsure_dir_added_def
        unsure_file_added_def unsure_unknown_def unsure_mask_def listing_has_dirs_def)
  have "get_unsure_flags (Append d l) \<noteq> 0" if "get_unsure_flags l \<noteq> 0" for d l
    using that unsure_added by (auto simp: Append_def clear_maps_def get_unsure_flags_def bit.conj_disj_distrib2 or_eq_0_iff Let_def)
  then show ?thesis
    using unsure_added [OF f]
    by (cases "mark_until lib name (ls_entries l)"; cases "snd (mark_until lib name (ls_entries l))")
      (simp_all add: update_listing_def add_ls_flags_def Let_def get_unsure_flags_def bit.conj_disj_distrib2 or_eq_0_iff f)
qed

text \<open>
  C26: After \<^verbatim>\<open>UpdateFile\<close> with \<^verbatim>\<open>mayCreate\<close> and a known type in a cached directory, a lookup of the file finds an entry with
  exactly its name, whether it was listed before or not, and the directory is still cached, with a flag that
  tells that it is not sure. This holds however many entries match the name if case is ignored.
\<close>

theorem update_lookup_file:
  assumes "opt_less_total lib" "mm_pick_member lib" "stricmp_equivalence lib" "cache_reach lib c"
    "map_option fst (fst (Lookup lib now server path True c)) = Some l" "t \<noteq> ft_unknown"
  shows "fst (UpdateFile lib now server path name True t sz og c) \<and>
    (\<exists>d. fst (LookupFile_dir lib now' server path name (snd (UpdateFile lib now server path name True t sz og c))) =
       (Some (d, True), True) \<and> de_name d = name) \<and>
    (\<exists>l1. map_option fst (fst (Lookup lib now' server path True (snd (UpdateFile lib now server path name True t sz og c)))) = Some l1 \<and>
       name \<in> set (GetFilenames l1) \<and> get_unsure_flags l1 \<noteq> 0)"
proof -
  have ok: "cache_ok lib c" by (rule cache_reach_ok [OF assms(1,2,4)])
  then have s: "struct_ok lib c" by (simp add: cache_ok_def)
  obtain e where e: "stored lib c server e" "ce_path e = path"
    using assms(5) unfolding Lookup_listing [OF assms(1) ok] by blast
  obtain sid where g: "GetServerEntry lib server c = Some sid" using stored_None [OF s, of server e] e(1) by blast
  then have ix: "(sid, e) \<in> indexed c" using e(1) by (simp add: stored_sid [OF s])
  define f where "f = (\<lambda>e::cache_entry. e\<lparr>ce_listing := update_listing lib name True t sz og (ce_listing e), ce_modificationTime := now\<rparr>)"
  define c1 where "c1 = snd (UpdateFile lib now server path name True t sz og c)"
  have ok1: "cache_ok lib c1" unfolding c1_def by (rule UpdateFile_ok [OF ok])
  have s1: "struct_ok lib c1" using ok1 by (simp add: cache_ok_def)
  have c1: "server_ids c1 = server_ids c" "(sid, f e) \<in> indexed c1"
  proof -
    note tx = touch_entries_indexed [OF ok UpdateFile_update_ok [where name = name and mc = True and t = t and sz = sz and og = og and now = now], folded f_def]
    have c1: "c1 = touch_entries (\<lambda>e. CmpNoCase lib path (ce_path e) = 0) f
       (\<lambda>e. if snd (mark_until lib name (ls_entries (ce_listing e))) = None \<and> t \<noteq> ft_unknown \<and> True then 1 else 0) sid c"
      by (simp add: c1_def UpdateFile_def g f_def)
    show "server_ids c1 = server_ids c" unfolding c1 by (rule tx(2))
    show "(sid, f e) \<in> indexed c1"
      unfolding c1 tx(1) using ix e(2) CmpNoCase_refl [OF assms(3)] by (intro exI [of _ e]) (simp add: f_def)
  qed
  have "GetServerEntry lib server c1 = Some sid" using GetServerEntry_cong [OF s s1 c1(1)] g by simp
  then have "stored lib c1 server (f e)" using c1(2) stored_sid [OF s1] by blast
  moreover have names: "ce_path (f e) = path" "name \<in> set (GetFilenames (ce_listing (f e)))" "get_unsure_flags (ce_listing (f e)) \<noteq> 0"
    using e(2) update_listing_names [OF assms(6)] update_listing_unsure by (simp_all add: f_def ce_path_def)
  moreover have "map_option fst (fst (Lookup lib now' server path True c1)) = Some (ce_listing (f e))"
    unfolding Lookup_listing [OF assms(1) ok1] using calculation(1) names(1) by blast
  ultimately have "\<exists>d. fst (LookupFile_dir lib now' server path name c1) = (Some (d, True), True) \<and> de_name d = name"
    "\<exists>l1. map_option fst (fst (Lookup lib now' server path True c1)) = Some l1 \<and> name \<in> set (GetFilenames l1) \<and> get_unsure_flags l1 \<noteq> 0"
    using LookupFile_dir_found [OF assms(1,2) ok1] by blast+
  moreover have "e \<in> set (entries_of c sid)" using ix by (simp add: entries_of_mem [OF s])
  then have "fst (UpdateFile lib now server path name True t sz og c)"
    using CmpNoCase_refl [OF assms(3), of path] e(2) by (auto simp: UpdateFile_def g)
  ultimately show ?thesis unfolding c1_def by blast
qed

text \<open>
  C27: \<^verbatim>\<open>Prune\<close> ends, and afterwards the cache is within its three bounds. It removes least recently used
  entries only: the list that remains is a suffix of the old one, and it does nothing within the bounds.
\<close>

theorem prune_bounds:
  assumes "opt_less_total lib" "mm_pick_member lib" "cache_reach lib c"
  shows "\<exists>c1. Prune c = Some c1 \<and> cache_ok lib c1 \<and>
    length (dc_lru c1) \<le> 50000 \<and>
    (dc_total c1 > 1000000 \<longrightarrow> length (dc_lru c1) \<le> 1000) \<and>
    (dc_total c1 > 5000000 \<longrightarrow> length (dc_lru c1) \<le> 100) \<and>
    suffix (dc_lru c1) (dc_lru c) \<and> (\<not> prune_cond c \<longrightarrow> c1 = c)"
proof -
  obtain c1 where c1: "Prune c = Some c1" "cache_ok lib c1" "\<not> prune_cond c1" "suffix (dc_lru c1) (dc_lru c)"
    using Prune_ok [OF cache_reach_ok [OF assms]] by blast
  then have "\<not> prune_cond c \<longrightarrow> c1 = c" by (auto simp: Prune.simps [of c] split: if_splits)
  with c1 show ?thesis unfolding prune_cond_def by auto
qed

text \<open>
  C28: The destructor of a reachable cache passes its assertion \<^verbatim>\<open>m_totalFileCount == 0\<close> and erases every
  node of the least-recently-used list.
\<close>

theorem destroy_assertion:
  assumes "opt_less_total lib" "mm_pick_member lib" "cache_reach lib c"
  shows "dc_total (destroy_cache c) = 0 \<and> dc_lru (destroy_cache c) = []"
proof -
  have ok: "cache_ok lib c" by (rule cache_reach_ok [OF assms])
  note u = fold_unlink [of "all_entries c" c]
  have "\<exists>e\<in>set (all_entries c). ce_lruIt e = Some n" if "(n, sid, cid) \<in> set (dc_lru c)" for n sid cid
    using ok that indexed_all unfolding cache_ok_def lru_ok_def by blast
  then have "filter (\<lambda>x. \<forall>e\<in>set (all_entries c). ce_lruIt e \<noteq> Some (fst x)) (dc_lru c) = []"
    by (auto simp: filter_empty_conv)
  then show ?thesis using u ok by (simp add: destroy_cache_def cache_ok_def file_count_def)
qed

subsection \<open>Examples\<close>

definition home_listing :: listing where
  "home_listing = two_files\<lparr>ls_path := unix_path [L ''home'']\<rparr>"

lemma home_listing_ok: "key_ok (ls_path home_listing)" "cl_ok ascii_lib home_listing"
  by (simp_all add: home_listing_def two_files_def key_ok_def unix_path_def path_empty_def no_zeros_def segments_of_def
      cl_ok_def ls_ok_def map_ok_def Assign_def clear_maps_def)

lemma home_stored:
  "\<exists>c e. Store ascii_lib 0 home_listing empty_server empty_cache = Some c \<and> cache_reach ascii_lib c \<and>
     stored ascii_lib c empty_server e \<and> ce_path e = unix_path [L ''home''] \<and> ce_listing e = home_listing"
proof -
  obtain c e where c: "Store ascii_lib 0 home_listing empty_server empty_cache = Some c"
    "stored ascii_lib c empty_server e" "ce_listing e = home_listing"
    using Store_ok [OF ascii_lib_opt_less cache_ok_empty home_listing_ok] by blast
  then have "cache_reach ascii_lib c" using cache_reach.store [OF cache_reach.start home_listing_ok c(1)] by simp
  moreover have "ce_path e = unix_path [L ''home'']" by (simp add: ce_path_def c(3) home_listing_def)
  ultimately show ?thesis using c by blast
qed

theorem cache_invariant_witness:
  "cache_ok ascii_lib (SetTtl 0 empty_cache) \<and> Store ascii_lib 0 home_listing empty_server empty_cache \<noteq> None"
  using cache_invariant [OF ascii_lib_opt_less ascii_lib_mm_pick cache_reach.ttl [OF cache_reach.start]]
    cache_invariant [OF ascii_lib_opt_less ascii_lib_mm_pick cache_reach.start, of home_listing 0 empty_server]
    home_listing_ok by simp

theorem store_lookup_witness:
  "\<exists>c1. Store ascii_lib 0 home_listing empty_server empty_cache = Some c1 \<and>
     map_option fst (fst (Lookup ascii_lib 7 empty_server (unix_path [L ''home'']) True c1)) = Some home_listing"
  using store_lookup [OF ascii_lib_opt_less ascii_lib_mm_pick cache_reach.start home_listing_ok, of 0 empty_server 7]
  by (auto simp: home_listing_def)

theorem invalidate_server_witness:
  "\<exists>c1. Store ascii_lib 0 home_listing empty_server empty_cache = Some c1 \<and>
     map_option fst (fst (Lookup ascii_lib 7 empty_server (unix_path [L ''home'']) True (InvalidateServer ascii_lib empty_server c1))) = None"
  using home_stored invalidate_server [OF ascii_lib_opt_less ascii_lib_mm_pick, of _ 7 empty_server "unix_path [L ''home'']" empty_server]
  by auto

theorem remove_dir_lookup_witness:
  "\<exists>c1. Store ascii_lib 0 home_listing empty_server empty_cache = Some c1 \<and>
     map_option fst (fst (Lookup ascii_lib 7 empty_server (unix_path [L ''home'']) True
       (RemoveDir ascii_lib 5 empty_server (unix_path []) (L ''home'') c1))) = None"
proof -
  have "AddSegment (unix_path []) (L ''home'') = (True, unix_path [L ''home''])" by (simp add: AddSegment_def unix_path_def)
  with home_stored remove_dir_lookup [OF ascii_lib_opt_less ascii_lib_mm_pick, of _ "unix_path []" "L ''home''"
      "unix_path [L ''home'']" empty_server empty_server "unix_path [L ''home'']" 7 5]
  show ?thesis by auto
qed

theorem update_lookup_file_witness:
  "\<exists>c1 d. Store ascii_lib 0 home_listing empty_server empty_cache = Some c1 \<and>
     fst (LookupFile_dir ascii_lib 7 empty_server (unix_path [L ''home'']) (L ''new'')
       (snd (UpdateFile ascii_lib 5 empty_server (unix_path [L ''home'']) (L ''new'') True ft_file 3 [] c1))) = (Some (d, True), True)"
proof -
  obtain c e where c: "Store ascii_lib 0 home_listing empty_server empty_cache = Some c" "cache_reach ascii_lib c"
    "stored ascii_lib c empty_server e" "ce_path e = unix_path [L ''home'']" "ce_listing e = home_listing"
    using home_stored by blast
  have "map_option fst (fst (Lookup ascii_lib 5 empty_server (unix_path [L ''home'']) True c)) = Some home_listing"
    unfolding Lookup_listing [OF ascii_lib_opt_less cache_reach_ok [OF ascii_lib_opt_less ascii_lib_mm_pick c(2)]]
    using c(3-5) by blast
  then show ?thesis
    using update_lookup_file [OF ascii_lib_opt_less ascii_lib_mm_pick ascii_lib_stricmp c(2), of 5 empty_server
        "unix_path [L ''home'']" home_listing ft_file "L ''new''" 3 "[]" 7] c(1) by auto
qed

theorem destroy_assertion_witness:
  "\<exists>c1. Store ascii_lib 0 home_listing empty_server empty_cache = Some c1 \<and> dc_total (destroy_cache c1) = 0"
  using home_stored destroy_assertion [OF ascii_lib_opt_less ascii_lib_mm_pick] by blast

theorem prune_bounds_witness:
  "\<exists>c c1. Store ascii_lib 0 home_listing empty_server empty_cache = Some c \<and> Prune c = Some c1 \<and> length (dc_lru c1) \<le> 50000"
  using home_stored prune_bounds [OF ascii_lib_opt_less ascii_lib_mm_pick] by blast

end
