(* ===== verification/Path_Cache.thy ===== *)
theory Path_Cache
  imports Path_Order Server_Props
begin

text \<open>
  The cache of resolved paths (\<^verbatim>\<open>engine/pathcache.{h,cpp}\<close>): per server, where a change from a directory
  into a sub-directory ended. Both levels are a \<^verbatim>\<open>std::map\<close>, so the laws of the ordered maps apply
  once the comparison of the keys is a strict weak order. The mutex is held during a whole call, so each
  call is one step.
\<close>

record source_path =
  sp_source :: server_path
  sp_subdir :: wstring

definition source_less :: "'a fzlib_scheme \<Rightarrow> source_path \<Rightarrow> source_path \<Rightarrow> bool" where
  "source_less lib a b \<longleftrightarrow>
     sp_subdir a < sp_subdir b \<or>
     \<not> sp_subdir b < sp_subdir a \<and> path_less lib (sp_source a) (sp_source b)"

type_synonym server_paths = "(source_path \<times> server_path) list"

record path_cache =
  pc_cache :: "(cserver \<times> server_paths) list"
  pc_hits :: int
  pc_misses :: int

definition empty_path_cache :: path_cache where
  "empty_path_cache = \<lparr>pc_cache = [], pc_hits = 0, pc_misses = 0\<rparr>"

text \<open>\<^const>\<open>None\<close> is a failed assertion.\<close>

definition pc_Store ::
  "'a fzlib_scheme \<Rightarrow> cserver \<Rightarrow> server_path \<Rightarrow> server_path \<Rightarrow> wstring \<Rightarrow> path_cache \<Rightarrow> path_cache option" where
  "pc_Store lib server target source subdir c =
     (if path_empty target \<or> path_empty source then None
      else
        let serverCache = (case omap_find server_less server (pc_cache c) of None \<Rightarrow> [] | Some m \<Rightarrow> m);
            sourcePath = \<lparr>sp_source = source, sp_subdir = subdir\<rparr>
        in Some (c\<lparr>pc_cache :=
             omap_set server_less server (omap_set (source_less lib) sourcePath target serverCache) (pc_cache c)\<rparr>))"

definition lookup_source :: "'a fzlib_scheme \<Rightarrow> server_paths \<Rightarrow> server_path \<Rightarrow> wstring \<Rightarrow> server_path" where
  "lookup_source lib serverCache source subdir =
     (case omap_find (source_less lib) \<lparr>sp_source = source, sp_subdir = subdir\<rparr> serverCache of
        None \<Rightarrow> empty_path
      | Some target \<Rightarrow> target)"

definition pc_Lookup ::
  "'a fzlib_scheme \<Rightarrow> cserver \<Rightarrow> server_path \<Rightarrow> wstring \<Rightarrow> path_cache \<Rightarrow> server_path \<times> path_cache" where
  "pc_Lookup lib server source subdir c =
     (case omap_find server_less server (pc_cache c) of
        None \<Rightarrow> (empty_path, c)
      | Some serverCache \<Rightarrow>
          let result = lookup_source lib serverCache source subdir
          in (result,
              if path_empty result then c\<lparr>pc_misses := pc_misses c + 1\<rparr> else c\<lparr>pc_hits := pc_hits c + 1\<rparr>))"

definition pc_InvalidateServer :: "cserver \<Rightarrow> path_cache \<Rightarrow> path_cache" where
  "pc_InvalidateServer server c =
     (case omap_find server_less server (pc_cache c) of
        None \<Rightarrow> c
      | Some _ \<Rightarrow> c\<lparr>pc_cache := omap_erase server_less server (pc_cache c)\<rparr>)"

text \<open>The path at or below another one, as the loop of \<^verbatim>\<open>InvalidatePath\<close> tests it.\<close>

definition at_or_below :: "'a fzlib_scheme \<Rightarrow> server_path \<Rightarrow> server_path \<Rightarrow> bool" where
  "at_or_below lib target p \<longleftrightarrow> path_eq p target \<or> IsParentOf lib target p False False"

definition invalidate_source ::
  "'a fzlib_scheme \<Rightarrow> server_path \<Rightarrow> wstring \<Rightarrow> server_paths \<Rightarrow> server_paths" where
  "invalidate_source lib path subdir serverCache =
     (let sourcePath = \<lparr>sp_source = path, sp_subdir = subdir\<rparr>;
          (found, serverCache1) =
            (case omap_find (source_less lib) sourcePath serverCache of
               None \<Rightarrow> (empty_path, serverCache)
             | Some t \<Rightarrow> (t, omap_erase (source_less lib) sourcePath serverCache));
          (ok, target) =
            (if path_empty found \<and> subdir \<noteq> [] then AddSegment path subdir else (True, found))
      in if ok \<and> \<not> path_empty target
         then filter (\<lambda>(s, t). \<not> at_or_below lib target t \<and> \<not> at_or_below lib target (sp_source s)) serverCache1
         else serverCache1)"

definition pc_InvalidatePath ::
  "'a fzlib_scheme \<Rightarrow> cserver \<Rightarrow> server_path \<Rightarrow> wstring \<Rightarrow> path_cache \<Rightarrow> path_cache" where
  "pc_InvalidatePath lib server path subdir c =
     (case omap_find server_less server (pc_cache c) of
        None \<Rightarrow> c
      | Some serverCache \<Rightarrow>
          c\<lparr>pc_cache := omap_set server_less server (invalidate_source lib path subdir serverCache) (pc_cache c)\<rparr>)"

definition pc_Clear :: "path_cache \<Rightarrow> path_cache" where
  "pc_Clear c = c\<lparr>pc_cache := []\<rparr>"

subsection \<open>The order of the keys\<close>

lemma eqv_source_less:
  "eqv (source_less lib) a b \<longleftrightarrow> sp_subdir a = sp_subdir b \<and> eqv (path_less lib) (sp_source a) (sp_source b)"
  by (auto simp: eqv_def source_less_def)

lemma source_less_strict_weak: "opt_less_total lib \<Longrightarrow> strict_weak (source_less lib)"
proof (unfold_locales)
  assume "opt_less_total lib"
  then have sw: "strict_weak (path_less lib)" by (rule path_less_strict_weak)
  show "\<not> source_less lib a a" for a using strict_weak.irrefl [OF sw] by (simp add: source_less_def)
  show "source_less lib a b \<Longrightarrow> source_less lib b c \<Longrightarrow> source_less lib a c" for a b c
    using strict_weak.trans [OF sw, of "sp_source a" "sp_source b" "sp_source c"] by (auto simp: source_less_def)
  show "eqv (source_less lib) a b \<Longrightarrow> eqv (source_less lib) b c \<Longrightarrow> eqv (source_less lib) a c" for a b c
    using strict_weak.eqv_trans [OF sw, of "sp_source a" "sp_source b" "sp_source c"] by (simp add: eqv_source_less)
qed

subsection \<open>The invariant\<close>

definition server_paths_ok :: "'a fzlib_scheme \<Rightarrow> server_paths \<Rightarrow> bool" where
  "server_paths_ok lib m \<longleftrightarrow>
     omap_ok (source_less lib) m \<and> (\<forall>(s, t) \<in> set m. \<not> path_empty t \<and> key_ok (sp_source s))"

definition path_cache_ok :: "'a fzlib_scheme \<Rightarrow> path_cache \<Rightarrow> bool" where
  "path_cache_ok lib c \<longleftrightarrow>
     omap_ok server_less (pc_cache c) \<and> (\<forall>m\<in>snd ` set (pc_cache c). server_paths_ok lib m)"

text \<open>What the cache says, as a function of server, directory and sub-directory.\<close>

definition resolved :: "'a fzlib_scheme \<Rightarrow> path_cache \<Rightarrow> cserver \<Rightarrow> server_path \<times> wstring \<Rightarrow> server_path option" where
  "resolved lib c server k =
     (case omap_find server_less server (pc_cache c) of
        None \<Rightarrow> None
      | Some m \<Rightarrow> omap_find (source_less lib) \<lparr>sp_source = fst k, sp_subdir = snd k\<rparr> m)"

lemma server_paths_found:
  assumes "path_cache_ok lib c" "omap_find server_less server (pc_cache c) = Some m"
  shows "server_paths_ok lib m"
proof -
  have "omap_ok server_less (pc_cache c)" using assms(1) by (simp add: path_cache_ok_def)
  then obtain a where "(a, m) \<in> set (pc_cache c)" using assms(2) servers.omap_find_member [of "pc_cache c" server m] by auto
  then show ?thesis using assms(1) by (force simp: path_cache_ok_def)
qed

lemma omap_set_vals: "snd ` set (omap_set lt k v m) \<subseteq> insert v (snd ` set m)"
  by (induction m) (force split: if_splits)+

lemma omap_set_pair: "(a, b) \<in> set (omap_set lt k v m) \<Longrightarrow> (a, b) \<in> set m \<or> b = v \<and> (a = k \<or> a \<in> fst ` set m)"
  by (induction m) (auto split: if_splits simp: image_iff)

lemma omap_erase_None: "omap_find lt k m = None \<Longrightarrow> omap_erase lt k m = m"
  by (induction lt k m rule: omap_find.induct) (auto split: if_splits)

lemma path_cache_ok_set:
  assumes "path_cache_ok lib c" "server_paths_ok lib m"
  shows "path_cache_ok lib (c\<lparr>pc_cache := omap_set server_less server m (pc_cache c)\<rparr>)"
proof -
  have "\<forall>x\<in>snd ` set (omap_set server_less server m (pc_cache c)). server_paths_ok lib x"
    using assms omap_set_vals [of server_less server m "pc_cache c"] unfolding path_cache_ok_def by blast
  then show ?thesis using assms(1) servers.omap_ok_set [of "pc_cache c" server m] by (simp add: path_cache_ok_def)
qed

lemma pc_Lookup_resolved:
  "fst (pc_Lookup lib server source subdir c) = (case resolved lib c server (source, subdir) of None \<Rightarrow> empty_path | Some t \<Rightarrow> t)"
  "pc_cache (snd (pc_Lookup lib server source subdir c)) = pc_cache c"
  by (simp_all add: pc_Lookup_def resolved_def lookup_source_def Let_def split: option.split)

lemma path_cache_ok_Lookup: "path_cache_ok lib c \<Longrightarrow> path_cache_ok lib (snd (pc_Lookup lib server source subdir c))"
  by (simp add: path_cache_ok_def pc_Lookup_resolved(2))


lemma resolved_set:
  assumes "path_cache_ok lib c"
  shows "resolved lib (c\<lparr>pc_cache := omap_set server_less server m (pc_cache c)\<rparr>) server' k =
    (if eqv server_less server server'
     then omap_find (source_less lib) \<lparr>sp_source = fst k, sp_subdir = snd k\<rparr> m else resolved lib c server' k)"
  using assms servers.omap_find_set [of "pc_cache c" server' server m] by (simp add: path_cache_ok_def resolved_def)

lemma pc_Store_ok:
  assumes lib: "opt_less_total lib" and ok: "path_cache_ok lib c" and s: "pc_Store lib server target source subdir c = Some c1"
    and key: "key_ok source"
  shows "path_cache_ok lib c1"
    and "resolved lib c1 server' k =
      (if eqv server_less server server' \<and> subdir = snd k \<and> eqv (path_less lib) source (fst k)
       then Some target else resolved lib c server' k)"
proof -
  define m where "m = (case omap_find server_less server (pc_cache c) of None \<Rightarrow> [] | Some m \<Rightarrow> m)"
  define sp where "sp = \<lparr>sp_source = source, sp_subdir = subdir\<rparr>"
  note sw = source_less_strict_weak [OF lib]
  have c1: "c1 = c\<lparr>pc_cache := omap_set server_less server (omap_set (source_less lib) sp target m) (pc_cache c)\<rparr>"
    and ne: "\<not> path_empty target" "\<not> path_empty source"
    using s by (auto simp: pc_Store_def Let_def m_def sp_def split: if_splits)
  have m: "server_paths_ok lib m"
    using server_paths_found [OF ok, of server]
    by (cases "omap_find server_less server (pc_cache c)") (simp_all add: m_def, simp add: server_paths_ok_def)
  then have om: "omap_ok (source_less lib) m" by (simp add: server_paths_ok_def)
  have "\<not> path_empty t \<and> key_ok (sp_source s)" if "(s, t) \<in> set (omap_set (source_less lib) sp target m)" for s t
    using omap_set_pair [OF that] m ne key by (force simp: sp_def server_paths_ok_def)
  then have "server_paths_ok lib (omap_set (source_less lib) sp target m)"
    using strict_weak.omap_ok_set [OF sw om] by (auto simp: server_paths_ok_def)
  then show "path_cache_ok lib c1" unfolding c1 by (rule path_cache_ok_set [OF ok])
  have "omap_find (source_less lib) k' m = (case omap_find server_less server (pc_cache c) of None \<Rightarrow> None | Some m \<Rightarrow> omap_find (source_less lib) k' m)" for k'
    by (simp add: m_def split: option.split)
  moreover have "omap_find server_less server (pc_cache c) = omap_find server_less server' (pc_cache c)" if "eqv server_less server server'"
    using ok that by (intro servers.omap_find_eqv) (simp_all add: path_cache_ok_def)
  ultimately show "resolved lib c1 server' k =
      (if eqv server_less server server' \<and> subdir = snd k \<and> eqv (path_less lib) source (fst k)
       then Some target else resolved lib c server' k)"
    unfolding c1 resolved_set [OF ok] strict_weak.omap_find_set [OF sw om] eqv_source_less
    by (simp add: sp_def resolved_def)
qed

lemma pc_InvalidateServer_ok:
  assumes ok: "path_cache_ok lib c"
  shows "path_cache_ok lib (pc_InvalidateServer server c)"
    and "resolved lib (pc_InvalidateServer server c) server' k = (if eqv server_less server server' then None else resolved lib c server' k)"
proof -
  have o: "omap_ok server_less (pc_cache c)" using ok by (simp add: path_cache_ok_def)
  have p: "pc_InvalidateServer server c = c\<lparr>pc_cache := omap_erase server_less server (pc_cache c)\<rparr>"
    using omap_erase_None [of server_less server "pc_cache c"] by (simp add: pc_InvalidateServer_def split: option.split)
  show "path_cache_ok lib (pc_InvalidateServer server c)"
    using ok servers.omap_ok_erase [OF o, of server] set_omap_erase [of server_less server "pc_cache c"]
    unfolding p path_cache_ok_def by auto
  show "resolved lib (pc_InvalidateServer server c) server' k = (if eqv server_less server server' then None else resolved lib c server' k)"
    unfolding p resolved_def using servers.omap_find_erase [OF o, of server' server] by simp
qed

subsection \<open>Invalidation of a path\<close>

text \<open>The directory that \<^verbatim>\<open>InvalidatePath\<close> removes: where the entry led, or the sub-directory.\<close>

definition invalidated :: "'a fzlib_scheme \<Rightarrow> server_path \<Rightarrow> wstring \<Rightarrow> server_paths \<Rightarrow> server_path option" where
  "invalidated lib path subdir m =
     (case omap_find (source_less lib) \<lparr>sp_source = path, sp_subdir = subdir\<rparr> m of
        Some t \<Rightarrow> Some t
      | None \<Rightarrow> if subdir \<noteq> [] \<and> fst (AddSegment path subdir) then Some (snd (AddSegment path subdir)) else None)"

lemma AddSegment_nonempty: "AddSegment p s = (True, q) \<Longrightarrow> \<not> path_empty q"
  by (auto simp: AddSegment_def path_empty_def split: option.splits)

lemma invalidate_source_alt:
  assumes "opt_less_total lib" "server_paths_ok lib m"
  shows "invalidate_source lib path subdir m =
    (case invalidated lib path subdir m of
       None \<Rightarrow> m
     | Some t \<Rightarrow> filter (\<lambda>(s, t'). \<not> at_or_below lib t t' \<and> \<not> at_or_below lib t (sp_source s))
         (omap_erase (source_less lib) \<lparr>sp_source = path, sp_subdir = subdir\<rparr> m))"
proof (cases "omap_find (source_less lib) \<lparr>sp_source = path, sp_subdir = subdir\<rparr> m")
  case None
  then show ?thesis using omap_erase_None [OF None] AddSegment_nonempty [of path subdir]
    by (cases "AddSegment path subdir") (auto simp: invalidate_source_def invalidated_def path_empty_def empty_path_def)
next
  case (Some t)
  have "omap_ok (source_less lib) m" using assms(2) by (simp add: server_paths_ok_def)
  then obtain a where "(a, t) \<in> set m"
    using strict_weak.omap_find_member [OF source_less_strict_weak [OF assms(1)], of m _ t] Some by auto
  then have "\<not> path_empty t" using assms(2) by (auto simp: server_paths_ok_def)
  then show ?thesis using Some by (simp add: invalidate_source_def invalidated_def)
qed

lemma invalidate_source_ok:
  assumes lib: "opt_less_total lib" and m: "server_paths_ok lib m"
  shows "server_paths_ok lib (invalidate_source lib path subdir m)"
    and "set (invalidate_source lib path subdir m) \<subseteq> set m"
proof -
  let ?e = "omap_erase (source_less lib) \<lparr>sp_source = path, sp_subdir = subdir\<rparr> m"
  have o: "omap_ok (source_less lib) m" using m by (simp add: server_paths_ok_def)
  have "omap_ok (source_less lib) ?e" by (rule strict_weak.omap_ok_erase [OF source_less_strict_weak [OF lib] o])
  moreover have sub: "set ?e \<subseteq> set m" by (rule set_omap_erase)
  ultimately have "server_paths_ok lib (filter P ?e)" for P
    using m unfolding server_paths_ok_def by (auto intro: omap_ok_filter)
  then show "server_paths_ok lib (invalidate_source lib path subdir m)"
    using m by (simp add: invalidate_source_alt [OF lib m] split: option.split)
  show "set (invalidate_source lib path subdir m) \<subseteq> set m"
    using sub by (auto simp: invalidate_source_alt [OF lib m] split: option.split)
qed

lemma omap_find_filter:
  assumes "strict_weak lt" "omap_ok lt m" "\<And>a v. (a, v) \<in> set m \<Longrightarrow> eqv lt a k \<Longrightarrow> P (a, v) \<longleftrightarrow> Q v"
  shows "omap_find lt k (filter P m) = (case omap_find lt k m of None \<Rightarrow> None | Some v \<Rightarrow> if Q v then Some v else None)"
proof -
  have iff: "omap_find lt k (filter P m) = Some v \<longleftrightarrow> omap_find lt k m = Some v \<and> Q v" for v
    using strict_weak.omap_find_member [OF assms(1,2), of k v] assms(3)
      strict_weak.omap_find_member [OF assms(1) omap_ok_filter [OF assms(2)], of k P v] by auto
  show ?thesis
    using iff [of "the (omap_find lt k (filter P m))"] iff [of "the (omap_find lt k m)"]
    by (cases "omap_find lt k (filter P m)"; cases "omap_find lt k m") simp_all
qed

lemma pc_InvalidatePath_ok:
  assumes lib: "opt_less_total lib" and ok: "path_cache_ok lib c"
  shows "path_cache_ok lib (pc_InvalidatePath lib server path subdir c)"
    and "\<not> eqv server_less server server' \<Longrightarrow> resolved lib (pc_InvalidatePath lib server path subdir c) server' k = resolved lib c server' k"
proof -
  show "path_cache_ok lib (pc_InvalidatePath lib server path subdir c)"
    using ok path_cache_ok_set [OF ok invalidate_source_ok(1) [OF lib server_paths_found [OF ok]]]
    by (simp add: pc_InvalidatePath_def split: option.split)
  show "\<not> eqv server_less server server' \<Longrightarrow> resolved lib (pc_InvalidatePath lib server path subdir c) server' k = resolved lib c server' k"
    by (simp add: pc_InvalidatePath_def resolved_set [OF ok] split: option.split)
qed

end
