(* ===== verification/Path_Cache_Props.thy ===== *)
theory Path_Cache_Props
  imports Path_Cache Cache_Reach Common_Parent
begin

text \<open>
  What the path cache promises, and the contract that it shares with the directory cache: how a server
  is forgotten.
\<close>

inductive path_cache_reach :: "'a fzlib_scheme \<Rightarrow> path_cache \<Rightarrow> bool" for lib where
  pc_start: "path_cache_reach lib empty_path_cache"
| pc_store: "path_cache_reach lib c \<Longrightarrow> key_ok source \<Longrightarrow> pc_Store lib server target source subdir c = Some c1 \<Longrightarrow>
    path_cache_reach lib c1"
| pc_lookup: "path_cache_reach lib c \<Longrightarrow> path_cache_reach lib (snd (pc_Lookup lib server source subdir c))"
| pc_server: "path_cache_reach lib c \<Longrightarrow> path_cache_reach lib (pc_InvalidateServer server c)"
| pc_path: "path_cache_reach lib c \<Longrightarrow> path_cache_reach lib (pc_InvalidatePath lib server path subdir c)"
| pc_clear: "path_cache_reach lib c \<Longrightarrow> path_cache_reach lib (pc_Clear c)"

lemma path_cache_ok_empty: "path_cache_ok lib empty_path_cache" "path_cache_ok lib (pc_Clear c)"
  by (simp_all add: path_cache_ok_def empty_path_cache_def pc_Clear_def)

lemma path_cache_reach_ok:
  assumes "opt_less_total lib"
  shows "path_cache_reach lib c \<Longrightarrow> path_cache_ok lib c"
proof (induction rule: path_cache_reach.induct)
  case (pc_store c source server target subdir c1)
  then show ?case using pc_Store_ok(1) [OF assms] by blast
qed (simp_all add: path_cache_ok_empty path_cache_ok_Lookup pc_InvalidateServer_ok(1) pc_InvalidatePath_ok(1) assms)

subsection \<open>Forgetting directories\<close>

text \<open>What is found for a key after a directory was forgotten.\<close>

lemma invalidate_source_find:
  assumes lib: "opt_less_total lib" and m: "server_paths_ok lib m" and source: "key_ok (sp_source key)"
  shows "omap_find (source_less lib) key (invalidate_source lib path subdir m) =
    (case invalidated lib path subdir m of
       None \<Rightarrow> omap_find (source_less lib) key m
     | Some g \<Rightarrow>
         (case omap_find (source_less lib) key m of
            None \<Rightarrow> None
          | Some v \<Rightarrow> if at_or_below lib g v \<or> at_or_below lib g (sp_source key) then None else Some v))"
proof (cases "invalidated lib path subdir m")
  case None
  then show ?thesis by (simp add: invalidate_source_alt [OF lib m])
next
  case (Some g)
  let ?lt = "source_less lib" and ?at = "\<lparr>sp_source = path, sp_subdir = subdir\<rparr>"
  note sw = source_less_strict_weak [OF lib]
  have o: "omap_ok ?lt m" using m by (simp add: server_paths_ok_def)
  have e: "omap_ok ?lt (omap_erase ?lt ?at m)" by (rule strict_weak.omap_ok_erase [OF sw o])
  have src: "sp_source a = sp_source key" if "(a, v) \<in> set (omap_erase ?lt ?at m)" "eqv ?lt a key" for a v
  proof -
    have "key_ok (sp_source a)" using that(1) m set_omap_erase [of ?lt ?at m] by (auto simp: server_paths_ok_def)
    then show ?thesis using key_ok_eqv [OF lib _ source] that(2) by (simp add: eqv_source_less)
  qed
  have f: "omap_find ?lt key (invalidate_source lib path subdir m) =
      (case omap_find ?lt key (omap_erase ?lt ?at m) of
         None \<Rightarrow> None | Some v \<Rightarrow> if \<not> at_or_below lib g v \<and> \<not> at_or_below lib g (sp_source key) then Some v else None)"
    using Some src by (simp add: invalidate_source_alt [OF lib m] omap_find_filter [OF sw e, of key _ "\<lambda>v. \<not> at_or_below lib g v \<and> \<not> at_or_below lib g (sp_source key)"])
  show ?thesis
  proof (cases "eqv ?lt ?at key")
    case True
    then have same: "omap_find ?lt key m = omap_find ?lt ?at m" using strict_weak.omap_find_eqv [OF sw o True] by simp
    have "at_or_below lib g v" if "omap_find ?lt ?at m = Some v" for v
      using that Some by (simp add: invalidated_def at_or_below_def path_eq_iff)
    then show ?thesis
      using True Some same by (simp add: f strict_weak.omap_find_erase [OF sw o] split: option.split)
  next
    case False
    then show ?thesis using Some by (simp add: f strict_weak.omap_find_erase [OF sw o] split: option.split)
  qed
qed

lemma invalidate_path_resolved:
  fixes subdir :: wstring and server :: cserver
  assumes lib: "opt_less_total lib" and ok: "path_cache_ok lib c" and p: "key_ok path" "key_ok source"
  defines "gone \<equiv> (case resolved lib c server (path, subdir) of
      Some t \<Rightarrow> Some t | None \<Rightarrow> if subdir = [] then None else Some (snd (AddSegment path subdir)))"
  shows "resolved lib (pc_InvalidatePath lib server path subdir c) server' (source, subdir') =
    (case (gone, resolved lib c server' (source, subdir')) of
       (Some g, Some v) \<Rightarrow> if eqv server_less server server' \<and> (at_or_below lib g v \<or> at_or_below lib g source) then None else Some v
     | (_, r) \<Rightarrow> r)"
proof (cases "eqv server_less server server'")
  case False
  then show ?thesis using pc_InvalidatePath_ok(2) [OF lib ok False] by (simp split: option.split)
next
  case q: True
  have eq: "omap_find server_less server' (pc_cache c) = omap_find server_less server (pc_cache c)"
    using ok q servers.eqv_sym by (intro servers.omap_find_eqv) (simp_all add: path_cache_ok_def)
  show ?thesis
  proof (cases "omap_find server_less server (pc_cache c)")
    case None
    then show ?thesis using eq by (simp add: resolved_def pc_InvalidatePath_def split: option.split)
  next
    case (Some m)
    have "fst (AddSegment path subdir)" using p(1) by (auto simp: AddSegment_def key_ok_def path_empty_def split: option.split)
    then have gone: "gone = invalidated lib path subdir m"
      using Some by (simp add: gone_def resolved_def invalidated_def split: option.split)
    have "resolved lib (pc_InvalidatePath lib server path subdir c) server' (source, subdir') =
        omap_find (source_less lib) \<lparr>sp_source = source, sp_subdir = subdir'\<rparr> (invalidate_source lib path subdir m)"
      using Some q by (simp add: pc_InvalidatePath_def resolved_set [OF ok])
    moreover have "resolved lib c server' (source, subdir') = omap_find (source_less lib) \<lparr>sp_source = source, sp_subdir = subdir'\<rparr> m"
      using Some eq by (simp add: resolved_def)
    ultimately show ?thesis
      using q invalidate_source_find [OF lib server_paths_found [OF ok Some], of "\<lparr>sp_source = source, sp_subdir = subdir'\<rparr>" path subdir] p(2)
      by (simp add: gone split: option.split)
  qed
qed

lemma resolved_nonempty:
  assumes "opt_less_total lib" "path_cache_ok lib c" "resolved lib c server k = Some v"
  shows "\<not> path_empty v"
proof -
  obtain m where m: "omap_find server_less server (pc_cache c) = Some m"
    "omap_find (source_less lib) \<lparr>sp_source = fst k, sp_subdir = snd k\<rparr> m = Some v"
    using assms(3) by (auto simp: resolved_def split: option.splits)
  have ok: "server_paths_ok lib m" by (rule server_paths_found [OF assms(2) m(1)])
  then have "omap_ok (source_less lib) m" by (simp add: server_paths_ok_def)
  then obtain a where "(a, v) \<in> set m"
    using strict_weak.omap_find_member [OF source_less_strict_weak [OF assms(1)], of m _ v] m(2) by auto
  then show ?thesis using ok by (auto simp: server_paths_ok_def)
qed

subsection \<open>Forgetting servers\<close>

locale server_cache =
  fixes inv :: "'c \<Rightarrow> bool"
    and cached :: "'c \<Rightarrow> cserver \<Rightarrow> 'k \<Rightarrow> 'v option"
    and forget :: "cserver \<Rightarrow> 'c \<Rightarrow> 'c"
    and same :: "cserver \<Rightarrow> cserver \<Rightarrow> bool"
  assumes inv_forget: "inv c \<Longrightarrow> inv (forget s c)"
    and cached_forget: "inv c \<Longrightarrow> cached (forget s c) s' k = (if same s s' then None else cached c s' k)"
begin

lemma forget_all:
  "inv c \<Longrightarrow> inv (fold forget ss c) \<and>
     cached (fold forget ss c) s' k = (if \<exists>s\<in>set ss. same s s' then None else cached c s' k)"
  by (induction ss arbitrary: c) (auto simp: inv_forget cached_forget)

lemma forget_only_removes: "inv c \<Longrightarrow> cached (fold forget ss c) s' k = Some v \<Longrightarrow> cached c s' k = Some v"
  by (simp add: forget_all split: if_splits)

end

interpretation paths: server_cache "path_cache_ok lib" "resolved lib" pc_InvalidateServer "eqv server_less" for lib
  by unfold_locales (simp_all add: pc_InvalidateServer_ok)

definition listed :: "'a fzlib_scheme \<Rightarrow> dir_cache \<Rightarrow> cserver \<Rightarrow> server_path \<Rightarrow> listing option" where
  "listed lib c server path = map_option fst (fst (Lookup lib 0 server path True c))"

interpretation listings: server_cache "\<lambda>c. opt_less_total lib \<and> cache_ok lib c" "listed lib" "InvalidateServer lib" "SameContent lib" for lib
  by unfold_locales (simp_all add: InvalidateServer_ok listed_def Lookup_InvalidateServer)

text \<open>
  C15: The path cache is a map from server, directory and sub-directory to the resolved path:
  \<^verbatim>\<open>Store\<close> succeeds for non-empty paths and changes exactly the one entry that \<^verbatim>\<open>Lookup\<close> then finds.
\<close>

theorem path_cache_store_lookup:
  assumes "opt_less_total lib" "path_cache_reach lib c" "key_ok source" "\<not> path_empty target" "key_ok source'"
  shows "\<exists>c1. pc_Store lib server target source subdir c = Some c1 \<and>
    fst (pc_Lookup lib server' source' subdir' c1) =
      (if eqv server_less server server' \<and> subdir = subdir' \<and> source = source'
       then target else fst (pc_Lookup lib server' source' subdir' c))"
proof -
  have ok: "path_cache_ok lib c" by (rule path_cache_reach_ok [OF assms(1,2)])
  obtain c1 where c1: "pc_Store lib server target source subdir c = Some c1"
    using assms(3,4) by (auto simp: pc_Store_def Let_def key_ok_def)
  have "eqv (path_less lib) source source' \<longleftrightarrow> source = source'"
    using key_ok_eqv [OF assms(1,3,5)] path_eqv [OF assms(1), of source source'] by auto
  then have "resolved lib c1 server' (source', subdir') =
      (if eqv server_less server server' \<and> subdir = subdir' \<and> source = source' then Some target else resolved lib c server' (source', subdir'))"
    using pc_Store_ok(2) [OF assms(1) ok c1 assms(3), of server' "(source', subdir')"] by simp
  then show ?thesis using c1 by (simp add: pc_Lookup_resolved(1))
qed

text \<open>
  C10: What every lookup gives after \<^verbatim>\<open>InvalidatePath\<close>. The directory that is gone is the one where the entry led, or else the
  sub-directory, if one is named. On that server, a lookup that led to it or below it, or that starts from there, finds nothing; every other
  lookup, on this and on all other servers, gives what it gave before.
\<close>

theorem path_cache_invalidate:
  assumes "opt_less_total lib" "path_cache_reach lib c" "key_ok path" "key_ok source"
  shows "let found = fst (pc_Lookup lib server path subdir c);
      gone = (if \<not> path_empty found then found else if subdir = [] then empty_path else snd (AddSegment path subdir));
      before = fst (pc_Lookup lib server' source subdir' c)
    in fst (pc_Lookup lib server' source subdir' (pc_InvalidatePath lib server path subdir c)) =
      (if eqv server_less server server' \<and> \<not> path_empty gone \<and> (at_or_below lib gone before \<or> at_or_below lib gone source)
       then empty_path else before)"
proof -
  have ok: "path_cache_ok lib c" by (rule path_cache_reach_ok [OF assms(1,2)])
  have e: "path_empty empty_path" by (simp add: path_empty_def empty_path_def)
  have a: "\<not> path_empty (snd (AddSegment path subdir))"
    using assms(3) by (auto simp: AddSegment_def key_ok_def path_empty_def split: option.split)
  note r = invalidate_path_resolved [OF assms(1) ok assms(3,4), of server subdir server' subdir']
  show ?thesis
  proof (cases "resolved lib c server (path, subdir)")
    case None
    then show ?thesis using e a r
      by (cases "resolved lib c server' (source, subdir')"; cases "subdir = []") (auto simp: Let_def pc_Lookup_resolved(1))
  next
    case (Some t)
    then have "\<not> path_empty t" by (rule resolved_nonempty [OF assms(1) ok])
    then show ?thesis using Some e r by (cases "resolved lib c server' (source, subdir')") (auto simp: Let_def pc_Lookup_resolved(1))
  qed
qed

subsection \<open>Examples\<close>

lemma key_ok_unix: "(\<forall>s\<in>set ss. 0 \<notin> set s) \<Longrightarrow> key_ok (unix_path ss)" "\<not> path_empty (unix_path ss)"
  by (simp_all add: key_ok_def unix_path_def path_empty_def no_zeros_def segments_of_def)

lemma link_stored:
  "\<exists>c1. pc_Store ascii_lib empty_server (unix_path [L ''a'']) (unix_path [L ''b'']) (L ''x'') empty_path_cache = Some c1 \<and>
     path_cache_reach ascii_lib c1 \<and>
     fst (pc_Lookup ascii_lib empty_server (unix_path [L ''b'']) (L ''x'') c1) = unix_path [L ''a'']"
proof -
  have k: "key_ok (unix_path [L ''b''])" by (rule key_ok_unix) simp
  obtain c1 where c1: "pc_Store ascii_lib empty_server (unix_path [L ''a'']) (unix_path [L ''b'']) (L ''x'') empty_path_cache = Some c1"
    by (simp add: pc_Store_def key_ok_unix Let_def)
  have "resolved ascii_lib c1 empty_server (unix_path [L ''b''], L ''x'') = Some (unix_path [L ''a''])"
    using pc_Store_ok(2) [OF ascii_lib_opt_less path_cache_ok_empty(1) c1 k, of empty_server "(unix_path [L ''b''], L ''x'')"]
      strict_weak.eqv_refl [OF path_less_strict_weak [OF ascii_lib_opt_less]] by simp
  then show ?thesis using c1 pc_store [OF pc_start k c1] by (simp add: pc_Lookup_resolved(1))
qed

theorem path_cache_store_lookup_witness:
  "\<exists>c1. pc_Store ascii_lib empty_server (unix_path [L ''a'']) (unix_path [L ''b'']) (L ''x'') empty_path_cache = Some c1 \<and>
     fst (pc_Lookup ascii_lib empty_server (unix_path [L ''b'']) (L ''x'') c1) = unix_path [L ''a'']"
  using path_cache_store_lookup [OF ascii_lib_opt_less pc_start, of "unix_path [L ''b'']" "unix_path [L ''a'']"
      "unix_path [L ''b'']" empty_server "L ''x''" empty_server "L ''x''"] key_ok_unix by simp

theorem path_cache_invalidate_witness:
  "\<exists>c1. pc_Store ascii_lib empty_server (unix_path [L ''a'']) (unix_path [L ''b'']) (L ''x'') empty_path_cache = Some c1 \<and>
     fst (pc_Lookup ascii_lib empty_server (unix_path [L ''b'']) (L ''x'')
       (pc_InvalidatePath ascii_lib empty_server (unix_path [L ''b'']) (L ''x'') c1)) = empty_path \<and>
     fst (pc_Lookup ascii_lib empty_server (unix_path [L ''b'']) (L ''x'')
       (pc_InvalidatePath ascii_lib empty_server (unix_path [L ''c'']) (L ''x'') c1)) = unix_path [L ''a'']"
proof -
  obtain c1 where c1: "pc_Store ascii_lib empty_server (unix_path [L ''a'']) (unix_path [L ''b'']) (L ''x'') empty_path_cache = Some c1"
    "path_cache_reach ascii_lib c1" "fst (pc_Lookup ascii_lib empty_server (unix_path [L ''b'']) (L ''x'') c1) = unix_path [L ''a'']"
    using link_stored by blast
  have k: "key_ok (unix_path [L ''b''])" "key_ok (unix_path [L ''c''])" by (rule key_ok_unix; simp)+
  have "fst (pc_Lookup ascii_lib empty_server (unix_path [L ''c'']) (L ''x'') c1) = empty_path"
    using c1(1) by (auto simp: pc_Store_def Let_def key_ok_unix empty_path_cache_def pc_Lookup_def lookup_source_def)
      (simp add: source_less_def unix_path_def path_less_def)
  moreover have "\<not> at_or_below ascii_lib (snd (AddSegment (unix_path [L ''c'']) (L ''x''))) (unix_path [L ''a''])"
    "\<not> at_or_below ascii_lib (snd (AddSegment (unix_path [L ''c'']) (L ''x''))) (unix_path [L ''b''])" by code_simp+
  ultimately show ?thesis
    using path_cache_invalidate [OF ascii_lib_opt_less c1(2) k(1) k(1), of empty_server "L ''x''" empty_server "L ''x''"]
      path_cache_invalidate [OF ascii_lib_opt_less c1(2) k(2) k(1), of empty_server "L ''x''" empty_server "L ''x''"] c1(1,3) key_ok_unix(2)
    by (simp add: Let_def at_or_below_def path_eq_iff path_empty_def empty_path_def)
qed

end
