(* ===== verification/Op_Locks.thy ===== *)
theory Op_Locks
  imports Path_Order Server_Props
begin

text \<open>
  The locks on remote directories that keep the connections to a server from listing or creating the
  same directory at once (\<^verbatim>\<open>engine/oplock_manager.{h,cpp}\<close>). A control socket is a number. The pointers
  of the source to sockets are options, \<^const>\<open>None\<close> the null pointer. An \<^verbatim>\<open>OpLock\<close> object is a variable of
  a client; its fields are the two indices into the vectors of the manager.
\<close>

datatype locking_reason = reason_unknown | reason_list | reason_mkdir | reason_private1

record lock_info =
  li_path :: server_path
  li_reason :: locking_reason
  li_inclusive :: bool
  li_waiting :: bool
  li_released :: bool

record socket_lock_info =
  sl_server :: cserver
  sl_socket :: "nat option"
  sl_locks :: "lock_info list"

type_synonym lock_manager = "socket_lock_info list"

record op_lock =
  ol_mgr :: bool
  ol_socket :: nat
  ol_lock :: nat

definition null_lock :: op_lock where
  "null_lock = \<lparr>ol_mgr = False, ol_socket = 0, ol_lock = 0\<rparr>"

subsection \<open>Operations\<close>

definition get_or_create :: "nat \<Rightarrow> cserver \<Rightarrow> lock_manager \<Rightarrow> nat \<times> lock_manager" where
  "get_or_create socket server mgr =
     (case find_idx (\<lambda>s. sl_socket s = Some socket) mgr of
        Some i \<Rightarrow> (i, mgr)
      | None \<Rightarrow> (length mgr, mgr @ [\<lparr>sl_server = server, sl_socket = Some socket, sl_locks = []\<rparr>]))"

text \<open>The test of a lock against an existing one that \<^verbatim>\<open>Lock\<close> and \<^verbatim>\<open>ObtainWaiting\<close> share.\<close>

definition blocks :: "'a fzlib_scheme \<Rightarrow> lock_info \<Rightarrow> lock_info \<Rightarrow> bool" where
  "blocks lib other l \<longleftrightarrow>
     \<not> (li_reason l \<noteq> li_reason other \<or> li_waiting other \<or> li_released other) \<and>
     (path_eq (li_path other) (li_path l) \<or>
      li_inclusive other \<and> IsParentOf lib (li_path other) (li_path l) False False \<or>
      li_inclusive l \<and> IsParentOf lib (li_path l) (li_path other) False False)"

definition Lock ::
  "'a fzlib_scheme \<Rightarrow> nat \<Rightarrow> cserver \<Rightarrow> locking_reason \<Rightarrow> server_path \<Rightarrow> bool \<Rightarrow> lock_manager \<Rightarrow> op_lock \<times> lock_manager" where
  "Lock lib socket server reason path inclusive mgr =
     (case get_or_create socket server mgr of
        (i, mgr1) \<Rightarrow>
          let sli = mgr1 ! i;
              info = \<lparr>li_path = path, li_reason = reason, li_inclusive = inclusive, li_waiting = False, li_released = False\<rparr>;
              wait = (\<exists>other \<in> set mgr1.
                \<not> (sl_socket other = Some socket \<or> \<not> server_eq (sl_server other) (sl_server sli)) \<and>
                (\<exists>l \<in> set (sl_locks other). blocks lib l info))
          in (\<lparr>ol_mgr = True, ol_socket = i, ol_lock = length (sl_locks sli)\<rparr>,
              mgr1[i := sli\<lparr>sl_locks := sl_locks sli @ [info\<lparr>li_waiting := wait\<rparr>]\<rparr>]))"

text \<open>The sockets that \<^verbatim>\<open>Wakeup\<close> sends an event to.\<close>

definition Wakeup :: "lock_manager \<Rightarrow> nat option list" where
  "Wakeup mgr = map sl_socket (filter (\<lambda>s. \<exists>l \<in> set (sl_locks s). li_waiting l) mgr)"

definition pop_while :: "('b \<Rightarrow> bool) \<Rightarrow> 'b list \<Rightarrow> 'b list" where
  "pop_while P xs = rev (dropWhile P (rev xs))"

definition remove_lock :: "nat \<Rightarrow> nat \<Rightarrow> lock_manager \<Rightarrow> lock_manager" where
  "remove_lock i j mgr =
     (let sli = mgr ! i; ls = sl_locks sli
      in if j + 1 = length ls then
           let ls1 = pop_while li_released (butlast ls)
           in if ls1 = [] then
                if i + 1 = length mgr then pop_while (\<lambda>s. sl_socket s = None) (butlast mgr)
                else mgr[i := sli\<lparr>sl_locks := [], sl_socket := None\<rparr>]
              else mgr[i := sli\<lparr>sl_locks := ls1\<rparr>]
         else mgr[i := sli\<lparr>sl_locks := ls[j := (ls ! j)\<lparr>li_waiting := False, li_released := True\<rparr>]\<rparr>])"

text \<open>\<^const>\<open>None\<close> is a failed assertion. The result has the sockets that are sent an event.\<close>

definition Unlock :: "op_lock \<Rightarrow> lock_manager \<Rightarrow> (nat option list \<times> lock_manager) option" where
  "Unlock lock mgr =
     (if \<not> ol_socket lock < length mgr \<or> \<not> ol_lock lock < length (sl_locks (mgr ! ol_socket lock)) then None
      else
        let was_waiting = li_waiting (sl_locks (mgr ! ol_socket lock) ! ol_lock lock);
            mgr1 = remove_lock (ol_socket lock) (ol_lock lock) mgr
        in Some (if was_waiting then [] else Wakeup mgr1, mgr1))"

definition can_obtain :: "'a fzlib_scheme \<Rightarrow> lock_manager \<Rightarrow> nat \<Rightarrow> lock_info \<Rightarrow> bool" where
  "can_obtain lib mgr i l \<longleftrightarrow>
     (\<forall>k < length mgr. k \<noteq> i \<longrightarrow> (\<forall>other \<in> set (sl_locks (mgr ! k)). \<not> blocks lib other l))"

definition obtain_slot :: "'a fzlib_scheme \<Rightarrow> nat \<Rightarrow> nat \<Rightarrow> bool \<times> lock_manager \<Rightarrow> bool \<times> lock_manager" where
  "obtain_slot lib socket i =
     (\<lambda>(obtained, mgr).
        if sl_socket (mgr ! i) = Some socket then
          (obtained \<or> (\<exists>l \<in> set (sl_locks (mgr ! i)). li_waiting l \<and> can_obtain lib mgr i l),
           mgr[i := (mgr ! i)\<lparr>sl_locks := map (\<lambda>l. if li_waiting l \<and> can_obtain lib mgr i l
             then l\<lparr>li_waiting := False\<rparr> else l) (sl_locks (mgr ! i))\<rparr>])
        else (obtained, mgr))"

definition ObtainWaiting :: "'a fzlib_scheme \<Rightarrow> nat \<Rightarrow> lock_manager \<Rightarrow> bool \<times> lock_manager" where
  "ObtainWaiting lib socket mgr = fold (obtain_slot lib socket) [0..<length mgr] (False, mgr)"

definition Waiting :: "op_lock \<Rightarrow> lock_manager \<Rightarrow> bool option" where
  "Waiting lock mgr =
     (if \<not> ol_socket lock < length mgr \<or> \<not> ol_lock lock < length (sl_locks (mgr ! ol_socket lock)) then None
      else Some (li_waiting (sl_locks (mgr ! ol_socket lock) ! ol_lock lock)))"

definition Waiting_socket :: "nat \<Rightarrow> lock_manager \<Rightarrow> bool" where
  "Waiting_socket socket mgr \<longleftrightarrow>
     (\<exists>s \<in> set mgr. sl_socket s = Some socket \<and> (\<exists>l \<in> set (sl_locks s). li_waiting l))"

definition waiting :: "op_lock \<Rightarrow> lock_manager \<Rightarrow> bool option" where
  "waiting lock mgr = (if ol_mgr lock then Waiting lock mgr else Some False)"

subsection \<open>Clients\<close>

text \<open>
  The state of the clients of the manager: their lock objects and the events that are on their way to
  the control sockets. An event to a null socket would be \<^const>\<open>None\<close>.
\<close>

record lock_system =
  sys_mgr :: lock_manager
  sys_vars :: "nat \<Rightarrow> op_lock"
  sys_events :: "nat option list"

definition initial_system :: lock_system where
  "initial_system = \<lparr>sys_mgr = [], sys_vars = (\<lambda>_. null_lock), sys_events = []\<rparr>"

text \<open>The destructor of the object in variable \<open>v\<close>, and what the move assignment does first.\<close>

definition release :: "nat \<Rightarrow> lock_system \<Rightarrow> lock_system option" where
  "release v s =
     (if ol_mgr (sys_vars s v) then
        map_option (\<lambda>(events, mgr). s\<lparr>sys_mgr := mgr, sys_events := sys_events s @ events,
            sys_vars := (sys_vars s)(v := (sys_vars s v)\<lparr>ol_mgr := False\<rparr>)\<rparr>)
          (Unlock (sys_vars s v) (sys_mgr s))
      else Some s)"

text \<open>\<^verbatim>\<open>w = std::move(v)\<close>\<close>

definition move_lock :: "nat \<Rightarrow> nat \<Rightarrow> lock_system \<Rightarrow> lock_system option" where
  "move_lock v w s =
     (if v = w then Some s
      else map_option (\<lambda>s1. s1\<lparr>sys_vars := (sys_vars s1)(w := sys_vars s1 v, v := (sys_vars s1 v)\<lparr>ol_mgr := False\<rparr>)\<rparr>) (release w s))"

text \<open>A lock in a fresh object, as the caller of \<^verbatim>\<open>Lock\<close> gets it.\<close>

definition acquire ::
  "'a fzlib_scheme \<Rightarrow> nat \<Rightarrow> nat \<Rightarrow> cserver \<Rightarrow> locking_reason \<Rightarrow> server_path \<Rightarrow> bool \<Rightarrow> lock_system \<Rightarrow> lock_system" where
  "acquire lib v socket server reason path inclusive s =
     (case Lock lib socket server reason path inclusive (sys_mgr s) of
        (lock, mgr) \<Rightarrow> s\<lparr>sys_mgr := mgr, sys_vars := (sys_vars s)(v := lock)\<rparr>)"

text \<open>\<^verbatim>\<open>CControlSocket::OnObtainLock\<close> for the event at position \<open>n\<close>.\<close>

definition deliver :: "'a fzlib_scheme \<Rightarrow> nat \<Rightarrow> nat \<Rightarrow> lock_system \<Rightarrow> lock_system" where
  "deliver lib n socket s =
     s\<lparr>sys_events := take n (sys_events s) @ drop (Suc n) (sys_events s),
       sys_mgr := snd (ObtainWaiting lib socket (sys_mgr s))\<rparr>"

inductive lock_step :: "'a fzlib_scheme \<Rightarrow> lock_system \<Rightarrow> lock_system option \<Rightarrow> bool" for lib where
  step_acquire: "\<not> ol_mgr (sys_vars s v) \<Longrightarrow>
    lock_step lib s (Some (acquire lib v socket server reason path inclusive s))"
| step_release: "lock_step lib s (release v s)"
| step_move: "lock_step lib s (move_lock v w s)"
| step_deliver: "n < length (sys_events s) \<Longrightarrow> sys_events s ! n = Some socket \<Longrightarrow> lock_step lib s (Some (deliver lib n socket s))"
| step_null: "n < length (sys_events s) \<Longrightarrow> sys_events s ! n = None \<Longrightarrow> lock_step lib s None"

inductive lock_reach :: "'a fzlib_scheme \<Rightarrow> lock_system option \<Rightarrow> bool" for lib where
  reach_start: "lock_reach lib (Some initial_system)"
| reach_step: "lock_reach lib (Some s) \<Longrightarrow> lock_step lib s s1 \<Longrightarrow> lock_reach lib s1"

end
