(* ===== verification/Op_Locks_Inv.thy ===== *)
theory Op_Locks_Inv
  imports Op_Locks
begin

text \<open>
  The invariants of the lock manager and its clients. A lock is seen with its position, which is what an
  \<^verbatim>\<open>OpLock\<close> object holds, and the operations are described by how they change the lock at a position.
\<close>

subsection \<open>The vectors of the manager\<close>

definition lock_at :: "lock_manager \<Rightarrow> nat \<Rightarrow> nat \<Rightarrow> lock_info option" where
  "lock_at mgr i j =
     (if i < length mgr \<and> j < length (sl_locks (mgr ! i)) then Some (sl_locks (mgr ! i) ! j) else None)"

definition slot_ok :: "socket_lock_info \<Rightarrow> bool" where
  "slot_ok s \<longleftrightarrow>
     (sl_socket s = None \<longleftrightarrow> sl_locks s = []) \<and>
     (sl_locks s \<noteq> [] \<longrightarrow> \<not> li_released (last (sl_locks s))) \<and>
     (\<forall>l \<in> set (sl_locks s). \<not> (li_waiting l \<and> li_released l))"

definition mgr_ok :: "lock_manager \<Rightarrow> bool" where
  "mgr_ok mgr \<longleftrightarrow>
     (\<forall>s \<in> set mgr. slot_ok s) \<and>
     (mgr \<noteq> [] \<longrightarrow> sl_socket (last mgr) \<noteq> None) \<and>
     (\<forall>i < length mgr. \<forall>k < length mgr. \<forall>socket. i \<noteq> k \<longrightarrow> sl_socket (mgr ! i) = Some socket \<longrightarrow> sl_socket (mgr ! k) \<noteq> Some socket)"

lemma pop_while_append: "\<exists>ys. xs = pop_while P xs @ ys \<and> (\<forall>y\<in>set ys. P y)"
proof -
  have "rev xs = takeWhile P (rev xs) @ dropWhile P (rev xs)" by simp
  then have "xs = rev (dropWhile P (rev xs)) @ rev (takeWhile P (rev xs))" by (metis rev_append rev_rev_ident)
  moreover have "\<forall>y\<in>set (rev (takeWhile P (rev xs))). P y" by (auto dest: set_takeWhileD)
  ultimately show ?thesis unfolding pop_while_def by blast
qed

lemma pop_while_last: "pop_while P xs \<noteq> [] \<Longrightarrow> \<not> P (last (pop_while P xs))"
  using hd_dropWhile [of P "rev xs"] by (simp add: pop_while_def last_rev)

lemma blocks_sym:
  "\<not> li_waiting a \<Longrightarrow> \<not> li_released a \<Longrightarrow> \<not> li_waiting b \<Longrightarrow> \<not> li_released b \<Longrightarrow> blocks lib a b \<longleftrightarrow> blocks lib b a"
  by (auto simp: blocks_def path_eq_iff)

lemma blocks_waiting [simp]: "blocks lib other (l\<lparr>li_waiting := w\<rparr>) = blocks lib other l"
  by (simp add: blocks_def)

lemma blocks_active: "blocks lib other l \<Longrightarrow> \<not> li_waiting other \<and> \<not> li_released other"
  by (simp add: blocks_def)

lemma can_obtain_at:
  "can_obtain lib mgr i l \<longleftrightarrow> (\<forall>k j other. k \<noteq> i \<longrightarrow> lock_at mgr k j = Some other \<longrightarrow> \<not> blocks lib other l)"
  unfolding can_obtain_def lock_at_def by (auto simp: all_set_conv_all_nth split: if_splits)

lemma lock_at_slot: "lock_at mgr i j = Some l \<Longrightarrow> i < length mgr \<and> l \<in> set (sl_locks (mgr ! i))"
  by (auto simp: lock_at_def split: if_splits)

lemma mgr_ok_slot: "mgr_ok mgr \<Longrightarrow> i < length mgr \<Longrightarrow> slot_ok (mgr ! i)"
  by (simp add: mgr_ok_def)

lemma mgr_ok_update:
  assumes "mgr_ok mgr" "i < length mgr" "slot_ok s" "sl_socket s \<noteq> None" "sl_socket s = sl_socket (mgr ! i)"
  shows "mgr_ok (mgr[i := s])"
  unfolding mgr_ok_def
proof (intro conjI ballI impI allI)
  show "slot_ok x" if "x \<in> set (mgr[i := s])" for x
    using that assms(1,3) set_update_subset_insert [of mgr i s] by (auto simp: mgr_ok_def)
  show "sl_socket (last (mgr[i := s])) \<noteq> None" if "mgr[i := s] \<noteq> []"
    using that assms(1,4) by (auto simp: mgr_ok_def last_list_update)
  show "sl_socket (mgr[i := s] ! k) \<noteq> Some t"
    if "j < length (mgr[i := s])" "k < length (mgr[i := s])" "j \<noteq> k" "sl_socket (mgr[i := s] ! j) = Some t" for j k t
  proof -
    have sock: "sl_socket (mgr[i := s] ! n) = sl_socket (mgr ! n)" if "n < length mgr" for n
      using that assms(5) by (cases "n = i") simp_all
    then show ?thesis using that assms(1) unfolding mgr_ok_def by (metis length_list_update)
  qed
qed

subsection \<open>Taking a lock\<close>

lemma get_or_create_ok:
  assumes ok: "mgr_ok mgr" and g: "get_or_create socket server mgr = (i, mgr1)"
  shows "i < length mgr1" "sl_socket (mgr1 ! i) = Some socket" "lock_at mgr1 k j = lock_at mgr k j"
    "k < length mgr1 \<Longrightarrow> k \<noteq> i \<Longrightarrow> sl_socket (mgr1 ! k) \<noteq> Some socket"
    "k < length mgr \<Longrightarrow> mgr1 ! k = mgr ! k" "length mgr \<le> length mgr1"
    "\<forall>s\<in>set mgr1. s \<noteq> mgr1 ! i \<longrightarrow> slot_ok s" "\<forall>l \<in> set (sl_locks (mgr1 ! i)). \<not> (li_waiting l \<and> li_released l)"
    "\<forall>n < length mgr1. \<forall>k < length mgr1. \<forall>t. n \<noteq> k \<longrightarrow> sl_socket (mgr1 ! n) = Some t \<longrightarrow> sl_socket (mgr1 ! k) \<noteq> Some t"
    "sl_socket (last mgr1) \<noteq> None"
proof -
  let ?new = "\<lparr>sl_server = server, sl_socket = Some socket, sl_locks = []\<rparr>"
  let ?P = "\<lambda>s. sl_socket s = Some socket"
  consider (old) "find_idx ?P mgr = Some i" "mgr1 = mgr" | (new) "find_idx ?P mgr = None" "i = length mgr" "mgr1 = mgr @ [?new]"
    using g by (auto simp: get_or_create_def split: option.splits)
  note cases = this
  show "i < length mgr1" using cases by cases (auto dest: find_idx_SomeD)
  show "sl_socket (mgr1 ! i) = Some socket" using cases by cases (auto dest: find_idx_SomeD simp: nth_append)
  show "length mgr \<le> length mgr1" using cases by cases auto
  show "k < length mgr \<Longrightarrow> mgr1 ! k = mgr ! k" using cases by cases (auto simp: nth_append)
  show "lock_at mgr1 k j = lock_at mgr k j"
    using cases by cases (auto simp: lock_at_def nth_append less_Suc_eq)
  show dist: "\<forall>n < length mgr1. \<forall>k < length mgr1. \<forall>t. n \<noteq> k \<longrightarrow> sl_socket (mgr1 ! n) = Some t \<longrightarrow> sl_socket (mgr1 ! k) \<noteq> Some t"
    using cases
  proof cases
    case new
    then have "\<forall>k < length mgr. sl_socket (mgr ! k) \<noteq> Some socket" using find_idx_None [of ?P mgr] by simp
    then show ?thesis using ok new by (auto simp: mgr_ok_def nth_append less_Suc_eq)
  qed (use ok in \<open>simp add: mgr_ok_def\<close>)
  then show "k < length mgr1 \<Longrightarrow> k \<noteq> i \<Longrightarrow> sl_socket (mgr1 ! k) \<noteq> Some socket"
    using \<open>i < length mgr1\<close> \<open>sl_socket (mgr1 ! i) = Some socket\<close> by blast
  show "\<forall>s\<in>set mgr1. s \<noteq> mgr1 ! i \<longrightarrow> slot_ok s"
    using cases by cases (use ok in \<open>auto simp: mgr_ok_def nth_append\<close>)
  show "sl_socket (last mgr1) \<noteq> None"
    using cases by cases (use ok in \<open>auto simp: mgr_ok_def dest: find_idx_SomeD\<close>)
  show "\<forall>l \<in> set (sl_locks (mgr1 ! i)). \<not> (li_waiting l \<and> li_released l)"
    using cases
  proof cases
    case old
    then have "slot_ok (mgr1 ! i)" using mgr_ok_slot [OF ok] find_idx_SomeD [OF old(1)] by simp
    then show ?thesis by (simp add: slot_ok_def)
  qed simp
qed

text \<open>A new lock \<open>info\<close> at the position that the object \<open>lock\<close> names, which was free.\<close>

definition locked :: "'a fzlib_scheme \<Rightarrow> lock_manager \<Rightarrow> op_lock \<Rightarrow> lock_info \<Rightarrow> lock_manager \<Rightarrow> bool" where
  "locked lib mgr lock info mgr2 \<longleftrightarrow>
     mgr_ok mgr2 \<and> ol_mgr lock \<and> \<not> li_released info \<and> lock_at mgr (ol_socket lock) (ol_lock lock) = None \<and>
     (\<forall>k j. lock_at mgr2 k j = (if k = ol_socket lock \<and> j = ol_lock lock then Some info else lock_at mgr k j)) \<and>
     (li_waiting info \<longrightarrow> \<not> can_obtain lib mgr (ol_socket lock) info) \<and>
     (\<not> li_waiting info \<longrightarrow> (\<forall>k j other. k \<noteq> ol_socket lock \<longrightarrow> lock_at mgr k j = Some other \<longrightarrow>
        server_eq (sl_server (mgr ! k)) (sl_server (mgr2 ! ol_socket lock)) \<longrightarrow> \<not> blocks lib other info)) \<and>
     (\<forall>k < length mgr. sl_server (mgr2 ! k) = sl_server (mgr ! k) \<and> sl_socket (mgr2 ! k) = sl_socket (mgr ! k))"

lemma Lock_ok:
  assumes ok: "mgr_ok mgr" and L: "Lock lib socket server reason path inclusive mgr = (lock, mgr2)"
  shows "\<exists>info. locked lib mgr lock info mgr2"
proof -
  obtain i mgr1 where g: "get_or_create socket server mgr = (i, mgr1)" by fastforce
  note g1 = get_or_create_ok [OF ok g]
  define info0 where "info0 = \<lparr>li_path = path, li_reason = reason, li_inclusive = inclusive, li_waiting = False, li_released = False\<rparr>"
  define wait where "wait = (\<exists>other \<in> set mgr1.
      \<not> (sl_socket other = Some socket \<or> \<not> server_eq (sl_server other) (sl_server (mgr1 ! i))) \<and>
      (\<exists>l \<in> set (sl_locks other). blocks lib l info0))"
  define info where "info = info0\<lparr>li_waiting := wait\<rparr>"
  define s where "s = (mgr1 ! i)\<lparr>sl_locks := sl_locks (mgr1 ! i) @ [info]\<rparr>"
  have lock: "lock = \<lparr>ol_mgr = True, ol_socket = i, ol_lock = length (sl_locks (mgr1 ! i))\<rparr>" and mgr2: "mgr2 = mgr1[i := s]"
    using L by (simp_all add: Lock_def g Let_def s_def info_def info0_def wait_def)
  have rel: "\<not> li_released info" by (simp add: info_def info0_def)
  have s_ok: "slot_ok s" using g1(2,8) rel by (auto simp: slot_ok_def s_def)
  have "\<forall>x\<in>set mgr2. slot_ok x"
  proof
    fix x assume "x \<in> set mgr2"
    then obtain k where k: "k < length mgr1" "x = mgr2 ! k" by (auto simp: in_set_conv_nth mgr2)
    then show "slot_ok x"
      using g1(2,4,7) s_ok by (cases "k = i") (auto simp: mgr2, metis nth_mem)
  qed
  moreover have "sl_socket (last mgr2) \<noteq> None"
  proof -
    have "mgr1 \<noteq> []" using g1(1) by auto
    then show ?thesis using g1(2,10) by (auto simp: mgr2 last_list_update s_def)
  qed
  moreover have "sl_socket (mgr2 ! n) = sl_socket (mgr1 ! n)" if "n < length mgr1" for n
    using that by (cases "n = i") (simp_all add: mgr2 s_def)
  moreover have "length mgr2 = length mgr1" by (simp add: mgr2)
  ultimately have ok2: "mgr_ok mgr2" using g1(9) unfolding mgr_ok_def by metis
  have at: "lock_at mgr2 k j = (if k = i \<and> j = length (sl_locks (mgr1 ! i)) then Some info else lock_at mgr k j)" for k j
    unfolding g1(3) [symmetric] mgr2 using g1(1) by (auto simp: lock_at_def s_def nth_append nth_list_update less_Suc_eq)
  have none: "lock_at mgr i (length (sl_locks (mgr1 ! i))) = None"
    unfolding g1(3) [symmetric] by (simp add: lock_at_def)
  have w1: "\<not> can_obtain lib mgr i info" if w: wait
  proof -
    obtain o1 l where o: "o1 \<in> set mgr1" "sl_socket o1 \<noteq> Some socket" "l \<in> set (sl_locks o1)" "blocks lib l info0"
      using w unfolding wait_def by blast
    then obtain k j where "k < length mgr1" "o1 = mgr1 ! k" "j < length (sl_locks o1)" "l = sl_locks o1 ! j"
      by (auto simp: in_set_conv_nth)
    moreover from this have "lock_at mgr k j = Some l" unfolding g1(3) [symmetric] by (simp add: lock_at_def)
    moreover have "k \<noteq> i" using calculation o(2) g1(2) by auto
    ultimately show ?thesis using o(4) unfolding can_obtain_at info_def blocks_waiting by blast
  qed
  have w2: "\<not> blocks lib other info"
    if "\<not> wait" "k \<noteq> i" "lock_at mgr k j = Some other" "server_eq (sl_server (mgr ! k)) (sl_server (mgr1 ! i))" for k j other
  proof -
    have k: "k < length mgr" using lock_at_slot [OF that(3)] by simp
    have "lock_at mgr1 k j = Some other" using that(3) g1(3) by simp
    then have "k < length mgr1" "other \<in> set (sl_locks (mgr1 ! k))" using lock_at_slot by blast+
    moreover have "mgr1 ! k = mgr ! k" by (rule g1(5) [OF k])
    ultimately show ?thesis using that(1,2,4) g1(4) [of k] unfolding wait_def info_def blocks_waiting by (metis nth_mem)
  qed
  have "\<forall>k < length mgr. sl_server (mgr2 ! k) = sl_server (mgr ! k) \<and> sl_socket (mgr2 ! k) = sl_socket (mgr ! k)"
    using g1(5) g1(1) by (auto simp: mgr2 nth_list_update s_def)
  then have "locked lib mgr lock info mgr2"
    unfolding locked_def using ok2 rel none w1 w2 at g1(1,2) by (auto simp: lock info_def mgr2 s_def)
  then show ?thesis ..
qed

subsection \<open>Releasing a lock\<close>

lemma lock_at_update:
  "i < length mgr \<Longrightarrow> lock_at (mgr[i := s]) k n =
     (if k = i then if n < length (sl_locks s) then Some (sl_locks s ! n) else None else lock_at mgr k n)"
  by (auto simp: lock_at_def)

lemma lock_at_append: "\<forall>z\<in>set zs. sl_locks z = [] \<Longrightarrow> lock_at (mgr @ zs) k n = lock_at mgr k n"
  by (auto simp: lock_at_def nth_append all_set_conv_all_nth)

lemma lock_at_empty:
  assumes "sl_locks s = []" "i + 1 = length mgr"
  shows "lock_at (butlast mgr) k n = lock_at (mgr[i := s]) k n"
proof -
  obtain xs y where "mgr = xs @ [y]" using assms(2) by (cases mgr rule: rev_cases) auto
  moreover have "i = length xs" using assms(2) calculation by simp
  ultimately show ?thesis using assms(1) lock_at_append [of "[s]" xs k n] by simp
qed

lemma mgr_ok_prefix:
  assumes "mgr_ok (mgr @ zs)" "mgr \<noteq> [] \<Longrightarrow> sl_socket (last mgr) \<noteq> None"
  shows "mgr_ok mgr"
  unfolding mgr_ok_def
proof (intro conjI impI allI)
  show "sl_socket (mgr ! k) \<noteq> Some t" if "i < length mgr" "k < length mgr" "i \<noteq> k" "sl_socket (mgr ! i) = Some t" for i k t
  proof -
    have "mgr ! i = (mgr @ zs) ! i" "mgr ! k = (mgr @ zs) ! k" "i < length (mgr @ zs)" "k < length (mgr @ zs)"
      using that by (simp_all add: nth_append)
    then show ?thesis using assms(1) that(3,4) unfolding mgr_ok_def by metis
  qed
qed (use assms in \<open>auto simp: mgr_ok_def\<close>)

text \<open>Dropping the released locks at the end of the locks of a socket.\<close>

lemma pop_released_at:
  assumes ls: "ls = ls1 @ ys @ [l]" and ys: "\<forall>y\<in>set ys. li_released y" and x: "\<not> li_released x" and j: "j + 1 = length ls"
  shows "(n < length ls1 \<and> ls1 ! n = x) \<longleftrightarrow> (n < length ls \<and> ls ! n = x \<and> n \<noteq> j)"
proof -
  have same: "ls ! n = ls1 ! n" "n < length ls" "n \<noteq> j" if "n < length ls1"
    using that ls j by (simp_all add: nth_append)
  have "li_released (ls ! n)" if "\<not> n < length ls1" "n < length ls" "n \<noteq> j"
  proof -
    have "n - length ls1 < length ys" using that ls j by simp
    moreover from this have "ls ! n = ys ! (n - length ls1)" using that(1) ls by (simp add: nth_append)
    ultimately show ?thesis using ys by simp
  qed
  then show ?thesis using same x by (cases "n < length ls1") auto
qed

lemma remove_lock_slot:
  assumes ok: "mgr_ok mgr" and at: "lock_at mgr i j = Some l" and last: "j + 1 = length (sl_locks (mgr ! i))"
  defines "ls1 \<equiv> pop_while li_released (butlast (sl_locks (mgr ! i)))"
  shows "\<not> li_released x \<Longrightarrow> (n < length ls1 \<and> ls1 ! n = x) \<longleftrightarrow> (lock_at mgr i n = Some x \<and> n \<noteq> j)"
    and "ls1 \<noteq> [] \<Longrightarrow> slot_ok ((mgr ! i)\<lparr>sl_locks := ls1\<rparr>)"
proof -
  have i: "i < length mgr" using lock_at_slot [OF at] by simp
  have s: "slot_ok (mgr ! i)" by (rule mgr_ok_slot [OF ok i])
  define ls where "ls = sl_locks (mgr ! i)"
  have ne: "ls \<noteq> []" using last by (auto simp: ls_def)
  obtain ys where ys: "butlast ls = ls1 @ ys" "\<forall>y\<in>set ys. li_released y"
    using pop_while_append [of "butlast ls" li_released] unfolding ls1_def ls_def by blast
  then have split: "ls = ls1 @ ys @ [List.last ls]" using append_butlast_last_id [OF ne] by (metis append_assoc)
  show "\<not> li_released x \<Longrightarrow> (n < length ls1 \<and> ls1 ! n = x) \<longleftrightarrow> (lock_at mgr i n = Some x \<and> n \<noteq> j)"
    using pop_released_at [OF split ys(2), of x j n] last i by (auto simp: lock_at_def ls_def)
  show "slot_ok ((mgr ! i)\<lparr>sl_locks := ls1\<rparr>)" if "ls1 \<noteq> []"
  proof -
    have "\<not> li_released (List.last ls1)" using that pop_while_last [of li_released "butlast ls"] unfolding ls1_def ls_def by blast
    moreover have "set ls1 \<subseteq> set ls" using split by (metis set_append sup_ge1)
    moreover have "sl_socket (mgr ! i) \<noteq> None" using s ne by (simp add: slot_ok_def ls_def)
    ultimately show ?thesis using s that by (auto simp: slot_ok_def ls_def)
  qed
qed


text \<open>How \<open>remove_lock\<close> changes the manager, up to locks that are released already.\<close>

definition removed :: "lock_manager \<Rightarrow> nat \<Rightarrow> nat \<Rightarrow> lock_manager \<Rightarrow> bool" where
  "removed mgr i j mgr1 \<longleftrightarrow>
     mgr_ok mgr1 \<and> length mgr1 \<le> length mgr \<and>
     (\<forall>k n x. \<not> li_released x \<longrightarrow> (lock_at mgr1 k n = Some x \<longleftrightarrow> lock_at mgr k n = Some x \<and> (k, n) \<noteq> (i, j))) \<and>
     (\<forall>k < length mgr1. sl_server (mgr1 ! k) = sl_server (mgr ! k) \<and>
        (sl_locks (mgr1 ! k) \<noteq> [] \<longrightarrow> sl_socket (mgr1 ! k) = sl_socket (mgr ! k)))"

lemma removed_update:
  assumes ok: "mgr_ok mgr" and i: "i < length mgr" and s: "slot_ok s" "sl_locks s \<noteq> []"
    "sl_socket s = sl_socket (mgr ! i)" "sl_server s = sl_server (mgr ! i)"
    and at: "\<And>n x. \<not> li_released x \<Longrightarrow> (n < length (sl_locks s) \<and> sl_locks s ! n = x) \<longleftrightarrow> (lock_at mgr i n = Some x \<and> n \<noteq> j)"
  shows "removed mgr i j (mgr[i := s])"
proof -
  have "sl_socket s \<noteq> None" using s(1,2) by (simp add: slot_ok_def)
  then have "mgr_ok (mgr[i := s])" using mgr_ok_update [OF ok i s(1) _ s(3)] by simp
  moreover have "lock_at (mgr[i := s]) k n = Some x \<longleftrightarrow> lock_at mgr k n = Some x \<and> (k, n) \<noteq> (i, j)" if "\<not> li_released x" for k n x
    using at [OF that, of n] by (auto simp: lock_at_update [OF i])
  ultimately show ?thesis using s(3,4) i unfolding removed_def by (auto simp: nth_list_update)
qed

lemma removed_empty:
  assumes ok: "mgr_ok mgr" and i: "i + 1 < length mgr" and s: "sl_locks s = []" "sl_socket s = None" "sl_server s = sl_server (mgr ! i)"
    and at: "\<And>n x. \<not> li_released x \<Longrightarrow> \<not> (lock_at mgr i n = Some x \<and> n \<noteq> j)"
  shows "removed mgr i j (mgr[i := s])"
proof -
  have "\<forall>x\<in>set (mgr[i := s]). slot_ok x"
    using ok s set_update_subset_insert [of mgr i s] by (auto simp: mgr_ok_def slot_ok_def)
  moreover have ne: "mgr \<noteq> []" using i by auto
  moreover have "last (mgr[i := s]) = last mgr" using i ne by (simp add: last_list_update)
  moreover have "sl_socket (mgr[i := s] ! n) = Some t \<Longrightarrow> sl_socket (mgr ! n) = Some t" if "n < length mgr" for n t
    using that s(2) by (cases "n = i") simp_all
  ultimately have "mgr_ok (mgr[i := s])" using ok unfolding mgr_ok_def length_list_update by metis
  moreover have "lock_at (mgr[i := s]) k n = Some x \<longleftrightarrow> lock_at mgr k n = Some x \<and> (k, n) \<noteq> (i, j)" if "\<not> li_released x" for k n x
    using at [OF that, of n] i s(1) by (auto simp: lock_at_update)
  ultimately show ?thesis using s i unfolding removed_def by (auto simp: nth_list_update)
qed

lemma removed_last:
  assumes ok: "mgr_ok mgr" and i: "i + 1 = length mgr"
    and at: "\<And>n x. \<not> li_released x \<Longrightarrow> \<not> (lock_at mgr i n = Some x \<and> n \<noteq> j)"
  shows "removed mgr i j (pop_while (\<lambda>s. sl_socket s = None) (butlast mgr))"
proof -
  define mgr1 where "mgr1 = pop_while (\<lambda>s. sl_socket s = None) (butlast mgr)"
  define s where "s = (mgr ! i)\<lparr>sl_locks := []\<rparr>"
  obtain zs where zs: "butlast mgr = mgr1 @ zs" "\<forall>z\<in>set zs. sl_socket z = None"
    using pop_while_append [of "butlast mgr" "\<lambda>s. sl_socket s = None"] unfolding mgr1_def by blast
  have ne: "mgr \<noteq> []" using i by auto
  have mgr: "mgr = mgr1 @ zs @ [last mgr]" using append_butlast_last_id [OF ne] zs(1) by (metis append_assoc)
  have "set zs \<subseteq> set mgr" using mgr by (metis set_append Un_upper1 Un_upper2 subset_trans)
  then have empty: "\<forall>z\<in>set zs. sl_locks z = []" using ok zs(2) by (auto simp: mgr_ok_def slot_ok_def)
  have "mgr_ok mgr1"
  proof (rule mgr_ok_prefix)
    show "mgr_ok (mgr1 @ zs @ [last mgr])" using ok mgr by simp
    show "mgr1 \<noteq> [] \<Longrightarrow> sl_socket (last mgr1) \<noteq> None"
      using pop_while_last [of "\<lambda>s. sl_socket s = None" "butlast mgr"] unfolding mgr1_def by blast
  qed
  moreover have "lock_at mgr1 k n = (if k = i then None else lock_at mgr k n)" for k n
  proof -
    have "lock_at mgr1 k n = lock_at (butlast mgr) k n" using lock_at_append [OF empty, of mgr1] zs(1) by simp
    also have "\<dots> = lock_at (mgr[i := s]) k n" by (rule lock_at_empty [OF _ i]) (simp add: s_def)
    also have "\<dots> = (if k = i then None else lock_at mgr k n)" using i by (simp add: lock_at_update s_def)
    finally show ?thesis .
  qed
  moreover have "mgr1 ! k = mgr ! k" if "k < length mgr1" for k using that mgr by (metis nth_append)
  moreover have "length mgr1 \<le> length mgr" using mgr by (metis length_append le_add1)
  ultimately show ?thesis using at unfolding removed_def mgr1_def [symmetric] by auto
qed

lemma remove_lock_ok:
  assumes ok: "mgr_ok mgr" and at: "lock_at mgr i j = Some l"
  shows "removed mgr i j (remove_lock i j mgr)"
proof -
  have i: "i < length mgr" "j < length (sl_locks (mgr ! i))" using at by (auto simp: lock_at_def split: if_splits)
  have s: "slot_ok (mgr ! i)" by (rule mgr_ok_slot [OF ok i(1)])
  define ls where "ls = sl_locks (mgr ! i)"
  show ?thesis
  proof (cases "j + 1 = length ls")
    case True
    define ls1 where "ls1 = pop_while li_released (butlast ls)"
    note r = remove_lock_slot [OF ok at True [unfolded ls_def], folded ls_def, folded ls1_def]
    show ?thesis
    proof (cases "ls1 = []")
      case empty: True
      then have "\<not> (lock_at mgr i n = Some x \<and> n \<noteq> j)" if "\<not> li_released x" for n x using r(1) [OF that, of n] by simp
      note e = this
      show ?thesis
      proof (cases "i + 1 = length mgr")
        case l: True
        then show ?thesis using removed_last [OF ok l e] True empty by (simp add: remove_lock_def Let_def ls_def ls1_def)
      next
        case False
        then show ?thesis
          using removed_empty [OF ok _ _ _ _ e, where s = "(mgr ! i)\<lparr>sl_locks := [], sl_socket := None\<rparr>"] True empty i(1)
          by (simp add: remove_lock_def Let_def ls_def ls1_def)
      qed
    next
      case False
      then show ?thesis
        using removed_update [OF ok i(1) r(2)] r(1) True by (simp add: remove_lock_def Let_def ls_def ls1_def)
    qed
  next
    case False
    define ls1 where "ls1 = ls[j := (ls ! j)\<lparr>li_waiting := False, li_released := True\<rparr>]"
    have "ls \<noteq> []" using i(2) by (auto simp: ls_def)
    moreover from this have "j \<noteq> length ls - 1" using False by (cases ls) simp_all
    ultimately have "last ls1 = last ls" by (simp add: ls1_def last_list_update)
    then have "slot_ok ((mgr ! i)\<lparr>sl_locks := ls1\<rparr>)"
      using s i(2) set_update_subset_insert [of ls j "(ls ! j)\<lparr>li_waiting := False, li_released := True\<rparr>"]
      by (auto simp: slot_ok_def ls_def ls1_def)
    moreover have "(n < length ls1 \<and> ls1 ! n = x) \<longleftrightarrow> (lock_at mgr i n = Some x \<and> n \<noteq> j)" if "\<not> li_released x" for n x
      using that i by (cases "n = j") (auto simp: ls1_def ls_def lock_at_def)
    ultimately have "removed mgr i j (mgr[i := (mgr ! i)\<lparr>sl_locks := ls1\<rparr>])"
      using i(2) by (intro removed_update [OF ok i(1)]) (auto simp: ls1_def ls_def)
    then show ?thesis using False by (simp add: remove_lock_def Let_def ls_def ls1_def)
  qed
qed

end
