(* ===== verification/Op_Locks_System.thy ===== *)
theory Op_Locks_System
  imports Op_Locks_Inv
begin

text \<open>
  The invariant of the lock manager together with the lock objects of its clients and the events on their
  way, and its preservation by every step.
\<close>

subsection \<open>Obtaining locks that wait\<close>

lemma obtain_slot_other: "sl_socket (mgr ! k) \<noteq> Some socket \<Longrightarrow> obtain_slot lib socket k (b, mgr) = (b, mgr)"
  by (simp add: obtain_slot_def)

lemma fold_obtain_other:
  "\<forall>k\<in>set ks. sl_socket (mgr ! k) \<noteq> Some socket \<Longrightarrow> fold (obtain_slot lib socket) ks (b, mgr) = (b, mgr)"
  by (induction ks) (simp_all add: obtain_slot_other)

lemma obtain_slot_sockets:
  "sl_socket (snd (obtain_slot lib socket i (b, mgr)) ! k) = sl_socket (mgr ! k)"
  by (cases "i < length mgr"; cases "k = i") (simp_all add: obtain_slot_def nth_list_update list_update_beyond)

lemma ObtainWaiting_slot:
  assumes ok: "mgr_ok mgr" and i: "i < length mgr" "sl_socket (mgr ! i) = Some socket"
  shows "ObtainWaiting lib socket mgr = obtain_slot lib socket i (False, mgr)"
proof -
  obtain b mgr1 where o: "obtain_slot lib socket i (False, mgr) = (b, mgr1)" by fastforce
  have other: "sl_socket (mgr ! k) \<noteq> Some socket" if "k < length mgr" "k \<noteq> i" for k
    using ok i that unfolding mgr_ok_def by blast
  have "[0..<length mgr] = [0..<i] @ i # [Suc i..<length mgr]"
    using i(1) upt_add_eq_append [of 0 i "length mgr - i"] by (simp add: upt_conv_Cons)
  moreover have "fold (obtain_slot lib socket) [0..<i] (False, mgr) = (False, mgr)"
    using other i(1) by (intro fold_obtain_other) auto
  moreover have "fold (obtain_slot lib socket) [Suc i..<length mgr] (b, mgr1) = (b, mgr1)"
    using other obtain_slot_sockets [of lib socket i False mgr] o by (intro fold_obtain_other) auto
  ultimately show ?thesis by (simp add: ObtainWaiting_def o)
qed

lemma ObtainWaiting_none:
  assumes "\<forall>k < length mgr. sl_socket (mgr ! k) \<noteq> Some socket"
  shows "ObtainWaiting lib socket mgr = (False, mgr)"
  using assms by (simp add: ObtainWaiting_def fold_obtain_other)

definition granted :: "'a fzlib_scheme \<Rightarrow> lock_manager \<Rightarrow> nat \<Rightarrow> lock_info \<Rightarrow> lock_info" where
  "granted lib mgr i l = (if li_waiting l \<and> can_obtain lib mgr i l then l\<lparr>li_waiting := False\<rparr> else l)"

lemma granted_simps [simp]:
  "li_released (granted lib mgr i l) = li_released l" "blocks lib other (granted lib mgr i l) = blocks lib other l"
  by (simp_all add: granted_def)

lemma obtain_slot_ok:
  fixes lib :: "'a fzlib_scheme" and b :: bool
  assumes ok: "mgr_ok mgr" and i: "i < length mgr" "sl_socket (mgr ! i) = Some socket"
  defines "mgr1 \<equiv> snd (obtain_slot lib socket i (b, mgr))"
  shows "mgr_ok mgr1" "length mgr1 = length mgr"
    "sl_socket (mgr1 ! k) = sl_socket (mgr ! k)" "sl_server (mgr1 ! k) = sl_server (mgr ! k)"
    "lock_at mgr1 k n = (if k = i then map_option (granted lib mgr i) (lock_at mgr i n) else lock_at mgr k n)"
    "can_obtain lib mgr1 k l \<Longrightarrow> can_obtain lib mgr k l"
proof -
  define s where "s = (mgr ! i)\<lparr>sl_locks := map (granted lib mgr i) (sl_locks (mgr ! i))\<rparr>"
  have mgr1: "mgr1 = mgr[i := s]" using i(2) by (simp add: mgr1_def obtain_slot_def s_def granted_def [abs_def])
  have s: "slot_ok (mgr ! i)" by (rule mgr_ok_slot [OF ok i(1)])
  have "slot_ok s" using s by (auto simp: slot_ok_def s_def last_map granted_def)
  then show "mgr_ok mgr1" unfolding mgr1 using i by (intro mgr_ok_update [OF ok i(1)]) (simp_all add: s_def)
  show "length mgr1 = length mgr" by (simp add: mgr1)
  show "sl_socket (mgr1 ! k) = sl_socket (mgr ! k)" "sl_server (mgr1 ! k) = sl_server (mgr ! k)"
    using i(1) by (cases "k = i"; simp add: mgr1 s_def)+
  show at: "lock_at mgr1 k n = (if k = i then map_option (granted lib mgr i) (lock_at mgr i n) else lock_at mgr k n)" for k n
    unfolding mgr1 lock_at_update [OF i(1)] using i(1) by (auto simp: s_def lock_at_def)
  show "can_obtain lib mgr k l" if c: "can_obtain lib mgr1 k l"
    unfolding can_obtain_at
  proof (intro allI impI)
    fix n j other
    assume n: "n \<noteq> k" "lock_at mgr n j = Some other"
    have "blocks lib other l \<Longrightarrow> granted lib mgr i other = other" using blocks_active by (auto simp: granted_def)
    then have "blocks lib other l \<Longrightarrow> lock_at mgr1 n j = Some other" using n(2) at [of n j] by auto
    then show "\<not> blocks lib other l" using c n(1) unfolding can_obtain_at by blast
  qed
qed


subsection \<open>The invariant of the system\<close>

text \<open>No two connections to a server hold locks that exclude each other.\<close>

definition exclusive :: "'a fzlib_scheme \<Rightarrow> lock_manager \<Rightarrow> bool" where
  "exclusive lib mgr \<longleftrightarrow>
     (\<forall>i j k n a b. i \<noteq> k \<longrightarrow> lock_at mgr i j = Some a \<longrightarrow> lock_at mgr k n = Some b \<longrightarrow>
        \<not> li_waiting a \<longrightarrow> \<not> li_released a \<longrightarrow> server_eq (sl_server (mgr ! i)) (sl_server (mgr ! k)) \<longrightarrow> \<not> blocks lib b a)"

text \<open>A lock that waits though nothing blocks it has an event on its way.\<close>

definition woken :: "'a fzlib_scheme \<Rightarrow> lock_manager \<Rightarrow> nat option list \<Rightarrow> bool" where
  "woken lib mgr events \<longleftrightarrow>
     (\<forall>i j l. lock_at mgr i j = Some l \<longrightarrow> li_waiting l \<longrightarrow> can_obtain lib mgr i l \<longrightarrow> sl_socket (mgr ! i) \<in> set events)"

text \<open>The valid lock objects are in one-to-one correspondence with the locks that are not released.\<close>

definition handles_ok :: "lock_manager \<Rightarrow> (nat \<Rightarrow> op_lock) \<Rightarrow> bool" where
  "handles_ok mgr vars \<longleftrightarrow>
     (\<forall>v. ol_mgr (vars v) \<longrightarrow> (\<exists>l. lock_at mgr (ol_socket (vars v)) (ol_lock (vars v)) = Some l \<and> \<not> li_released l)) \<and>
     (\<forall>v w. ol_mgr (vars v) \<longrightarrow> ol_mgr (vars w) \<longrightarrow> ol_socket (vars v) = ol_socket (vars w) \<longrightarrow> ol_lock (vars v) = ol_lock (vars w) \<longrightarrow> v = w) \<and>
     (\<forall>i j l. lock_at mgr i j = Some l \<longrightarrow> \<not> li_released l \<longrightarrow> (\<exists>v. ol_mgr (vars v) \<and> ol_socket (vars v) = i \<and> ol_lock (vars v) = j))"

definition system_ok :: "'a fzlib_scheme \<Rightarrow> lock_system \<Rightarrow> bool" where
  "system_ok lib s \<longleftrightarrow>
     mgr_ok (sys_mgr s) \<and> exclusive lib (sys_mgr s) \<and> woken lib (sys_mgr s) (sys_events s) \<and>
     handles_ok (sys_mgr s) (sys_vars s) \<and> None \<notin> set (sys_events s)"

lemma server_eq_sym: "server_eq a b \<longleftrightarrow> server_eq b a"
  by (auto simp: server_eq_def)

subsubsection \<open>Taking\<close>

lemma locked_exclusive:
  assumes L: "locked lib mgr lock info mgr2" and ex: "exclusive lib mgr"
  shows "exclusive lib mgr2"
  unfolding exclusive_def
proof (intro allI impI)
  fix k1 j1 k2 j2 a b
  assume ne: "k1 \<noteq> k2" and a: "lock_at mgr2 k1 j1 = Some a" and b: "lock_at mgr2 k2 j2 = Some b"
    and act: "\<not> li_waiting a" "\<not> li_released a" and sv: "server_eq (sl_server (mgr2 ! k1)) (sl_server (mgr2 ! k2))"
  have srv: "sl_server (mgr2 ! k) = sl_server (mgr ! k)" if "lock_at mgr k j = Some x" for k j x
    using L lock_at_slot [OF that] by (simp add: locked_def)
  have w: "\<not> blocks lib other info"
    if "\<not> li_waiting info" "k \<noteq> ol_socket lock" "lock_at mgr k j = Some other" "server_eq (sl_server (mgr2 ! k)) (sl_server (mgr2 ! ol_socket lock))" for k j other
    using L that srv [OF that(3)] unfolding locked_def by metis
  consider (olds) "lock_at mgr k1 j1 = Some a" "lock_at mgr k2 j2 = Some b"
    | (new_a) "k1 = ol_socket lock" "a = info" "lock_at mgr k2 j2 = Some b"
    | (new_b) "k2 = ol_socket lock" "b = info" "lock_at mgr k1 j1 = Some a"
    using a b L ne by (auto simp: locked_def split: if_splits)
  then show "\<not> blocks lib b a"
  proof cases
    case olds
    then show ?thesis using ex ne act sv srv [OF olds(1)] srv [OF olds(2)] unfolding exclusive_def by metis
  next
    case new_a
    then show ?thesis using w [OF _ _ new_a(3)] ne act sv server_eq_sym by metis
  next
    case new_b
    show ?thesis
    proof
      assume bl: "blocks lib b a"
      then have "blocks lib a info" "\<not> li_waiting info" using blocks_sym [of b a lib] blocks_active [OF bl] act new_b(2) by auto
      then show False using w [OF _ _ new_b(3)] ne new_b(1) sv by metis
    qed
  qed
qed

lemma locked_woken:
  assumes L: "locked lib mgr lock info mgr2" and wk: "woken lib mgr events"
  shows "woken lib mgr2 events"
  unfolding woken_def
proof (intro allI impI)
  fix k j l assume l: "lock_at mgr2 k j = Some l" "li_waiting l" "can_obtain lib mgr2 k l"
  have "lock_at mgr2 k j = Some x" if "lock_at mgr k j = Some x" for k j x using that L by (auto simp: locked_def)
  then have c: "can_obtain lib mgr k l" using l(3) unfolding can_obtain_at by blast
  show "sl_socket (mgr2 ! k) \<in> set events"
  proof (cases "k = ol_socket lock \<and> j = ol_lock lock")
    case True
    then have "l = info" using l(1) L by (simp add: locked_def)
    then show ?thesis using c l(2) True L by (auto simp: locked_def)
  next
    case False
    then have k: "lock_at mgr k j = Some l" using l(1) L by (simp add: locked_def split: if_splits)
    then have "sl_socket (mgr2 ! k) = sl_socket (mgr ! k)" using L lock_at_slot by (simp add: locked_def)
    then show ?thesis using wk l(2) c k unfolding woken_def by metis
  qed
qed

lemma locked_handles:
  assumes L: "locked lib mgr lock info mgr2" and h: "handles_ok mgr vars" and v: "\<not> ol_mgr (vars v)"
  shows "handles_ok mgr2 (vars(v := lock))"
proof -
  have free: "lock_at mgr (ol_socket lock) (ol_lock lock) = None"
    and at: "lock_at mgr2 k j = (if k = ol_socket lock \<and> j = ol_lock lock then Some info else lock_at mgr k j)"
    and lock: "ol_mgr lock" "\<not> li_released info" for k j
    using L by (simp_all add: locked_def)
  have h1: "\<exists>l. lock_at mgr (ol_socket (vars w)) (ol_lock (vars w)) = Some l \<and> \<not> li_released l" if "ol_mgr (vars w)" for w
    using h that by (simp add: handles_ok_def)
  have fresh: "\<not> (ol_socket (vars w) = ol_socket lock \<and> ol_lock (vars w) = ol_lock lock)" if "ol_mgr (vars w)" for w
    using h1 [OF that] free by auto
  have "\<exists>l. lock_at mgr2 (ol_socket ((vars(v := lock)) w)) (ol_lock ((vars(v := lock)) w)) = Some l \<and> \<not> li_released l"
    if "ol_mgr ((vars(v := lock)) w)" for w
    using that h1 [of w] lock(2) at free by (cases "w = v") auto
  moreover have "w = u" if "ol_mgr ((vars(v := lock)) w)" "ol_mgr ((vars(v := lock)) u)"
      "ol_socket ((vars(v := lock)) w) = ol_socket ((vars(v := lock)) u)" "ol_lock ((vars(v := lock)) w) = ol_lock ((vars(v := lock)) u)" for w u
    using that fresh h unfolding handles_ok_def by (cases "w = v"; cases "u = v") auto
  moreover have "\<exists>w. ol_mgr ((vars(v := lock)) w) \<and> ol_socket ((vars(v := lock)) w) = i \<and> ol_lock ((vars(v := lock)) w) = j"
    if l: "lock_at mgr2 i j = Some l" "\<not> li_released l" for i j l
  proof (cases "i = ol_socket lock \<and> j = ol_lock lock")
    case True
    then show ?thesis using lock(1) by (intro exI [of _ v]) simp
  next
    case False
    then have "lock_at mgr i j = Some l" using l(1) at [of i j] by (auto split: if_splits)
    then obtain w where w: "ol_mgr (vars w)" "ol_socket (vars w) = i" "ol_lock (vars w) = j" using h l(2) unfolding handles_ok_def by blast
    then show ?thesis using v by (intro exI [of _ w]) auto
  qed
  ultimately show ?thesis unfolding handles_ok_def by blast
qed

lemma system_ok_acquire:
  assumes ok: "system_ok lib s" and v: "\<not> ol_mgr (sys_vars s v)"
  shows "system_ok lib (acquire lib v socket server reason path inclusive s)"
proof -
  obtain lock mgr2 where L: "Lock lib socket server reason path inclusive (sys_mgr s) = (lock, mgr2)" by fastforce
  then obtain info where i: "locked lib (sys_mgr s) lock info mgr2" using Lock_ok ok unfolding system_ok_def by blast
  have "mgr_ok mgr2" using i by (simp add: locked_def)
  then show ?thesis using ok locked_exclusive [OF i] locked_woken [OF i] locked_handles [OF i, where vars = "sys_vars s" and v = v] v
    by (simp add: system_ok_def acquire_def L)
qed

subsubsection \<open>Releasing\<close>

lemma removed_exclusive:
  assumes R: "removed mgr i j mgr1" and ex: "exclusive lib mgr"
  shows "exclusive lib mgr1"
  unfolding exclusive_def
proof (intro allI impI notI)
  fix k1 j1 k2 j2 a b
  assume h: "k1 \<noteq> k2" "lock_at mgr1 k1 j1 = Some a" "lock_at mgr1 k2 j2 = Some b" "\<not> li_waiting a" "\<not> li_released a"
    "server_eq (sl_server (mgr1 ! k1)) (sl_server (mgr1 ! k2))" "blocks lib b a"
  have "\<not> li_released b" using blocks_active [OF h(7)] by simp
  then have "lock_at mgr k1 j1 = Some a" "lock_at mgr k2 j2 = Some b" using R h(2,3,5) by (simp_all add: removed_def)
  moreover have "sl_server (mgr1 ! k1) = sl_server (mgr ! k1)" "sl_server (mgr1 ! k2) = sl_server (mgr ! k2)"
    using R lock_at_slot [OF h(2)] lock_at_slot [OF h(3)] by (simp_all add: removed_def)
  ultimately show False using ex h unfolding exclusive_def by metis
qed

lemma removed_woken:
  assumes R: "removed mgr i j mgr1" and wk: "woken lib mgr events" and l: "lock_at mgr i j = Some l"
  shows "woken lib mgr1 (events @ (if li_waiting l then [] else Wakeup mgr1))"
  unfolding woken_def
proof (intro allI impI)
  fix k n x assume x: "lock_at mgr1 k n = Some x" "li_waiting x" "can_obtain lib mgr1 k x"
  have k: "k < length mgr1" "x \<in> set (sl_locks (mgr1 ! k))" using lock_at_slot [OF x(1)] by simp_all
  show "sl_socket (mgr1 ! k) \<in> set (events @ (if li_waiting l then [] else Wakeup mgr1))"
  proof (cases "li_waiting l")
    case True
    have "slot_ok (mgr1 ! k)" using R k(1) mgr_ok_slot by (simp add: removed_def)
    then have nr: "\<not> li_released x" using k(2) x(2) by (auto simp: slot_ok_def)
    then have old: "lock_at mgr k n = Some x" using R x(1) by (simp add: removed_def)
    have "can_obtain lib mgr k x"
      unfolding can_obtain_at
    proof (intro allI impI notI)
      fix k' n' other assume o: "k' \<noteq> k" "lock_at mgr k' n' = Some other" "blocks lib other x"
      have "\<not> li_released other" "(k', n') \<noteq> (i, j)" using blocks_active [OF o(3)] True l o(2) by auto
      then have "lock_at mgr1 k' n' = Some other" using R o(2) by (simp add: removed_def)
      then show False using x(3) o(1,3) unfolding can_obtain_at by blast
    qed
    then have "sl_socket (mgr ! k) \<in> set events" using wk old x(2) unfolding woken_def by blast
    moreover have "sl_socket (mgr1 ! k) = sl_socket (mgr ! k)" using R k by (auto simp: removed_def)
    ultimately show ?thesis by simp
  next
    case False
    then show ?thesis using k x(2) by (auto simp: Wakeup_def)
  qed
qed

lemma removed_handles:
  assumes R: "removed mgr (ol_socket (vars v)) (ol_lock (vars v)) mgr1" and h: "handles_ok mgr vars" and v: "ol_mgr (vars v)"
  shows "handles_ok mgr1 (vars(v := (vars v)\<lparr>ol_mgr := False\<rparr>))"
proof -
  have at: "lock_at mgr1 k n = Some x \<longleftrightarrow> lock_at mgr k n = Some x \<and> (k, n) \<noteq> (ol_socket (vars v), ol_lock (vars v))"
    if "\<not> li_released x" for k n x
    using R that by (simp add: removed_def)
  let ?vars = "vars(v := (vars v)\<lparr>ol_mgr := False\<rparr>)"
  have "\<exists>l. lock_at mgr1 (ol_socket (?vars w)) (ol_lock (?vars w)) = Some l \<and> \<not> li_released l" if "ol_mgr (?vars w)" for w
  proof -
    have w: "w \<noteq> v" "ol_mgr (vars w)" using that by (auto split: if_splits)
    then obtain l where "lock_at mgr (ol_socket (vars w)) (ol_lock (vars w)) = Some l" "\<not> li_released l"
      using h unfolding handles_ok_def by blast
    moreover have "(ol_socket (vars w), ol_lock (vars w)) \<noteq> (ol_socket (vars v), ol_lock (vars v))"
      using h w v unfolding handles_ok_def by blast
    ultimately show ?thesis using at w(1) by auto
  qed
  moreover have "w = u" if "ol_mgr (?vars w)" "ol_mgr (?vars u)" "ol_socket (?vars w) = ol_socket (?vars u)" "ol_lock (?vars w) = ol_lock (?vars u)" for w u
    using that h unfolding handles_ok_def by (cases "w = v"; cases "u = v") auto
  moreover have "\<exists>w. ol_mgr (?vars w) \<and> ol_socket (?vars w) = i \<and> ol_lock (?vars w) = j" if l: "lock_at mgr1 i j = Some l" "\<not> li_released l" for i j l
  proof -
    have "lock_at mgr i j = Some l" "(i, j) \<noteq> (ol_socket (vars v), ol_lock (vars v))" using l at by blast+
    then obtain w where "ol_mgr (vars w)" "ol_socket (vars w) = i" "ol_lock (vars w) = j" "w \<noteq> v"
      using h l(2) unfolding handles_ok_def by blast
    then show ?thesis by (intro exI [of _ w]) simp
  qed
  ultimately show ?thesis unfolding handles_ok_def by blast
qed

lemma Wakeup_sockets: "mgr_ok mgr \<Longrightarrow> None \<notin> set (Wakeup mgr)"
  by (auto simp: Wakeup_def mgr_ok_def slot_ok_def)

lemma system_ok_release:
  assumes ok: "system_ok lib s"
  shows "\<exists>s1. release v s = Some s1 \<and> system_ok lib s1 \<and> \<not> ol_mgr (sys_vars s1 v) \<and> (\<forall>w. w \<noteq> v \<longrightarrow> sys_vars s1 w = sys_vars s w)"
proof (cases "ol_mgr (sys_vars s v)")
  case True
  define mgr where "mgr = sys_mgr s"
  let ?i = "ol_socket (sys_vars s v)" and ?j = "ol_lock (sys_vars s v)"
  have m: "mgr_ok mgr" "exclusive lib mgr" "woken lib mgr (sys_events s)" "handles_ok mgr (sys_vars s)" "None \<notin> set (sys_events s)"
    using ok by (simp_all add: system_ok_def mgr_def)
  obtain l where l: "lock_at mgr ?i ?j = Some l" using m(4) True unfolding handles_ok_def by blast
  then have u: "Unlock (sys_vars s v) mgr = Some (if li_waiting l then [] else Wakeup (remove_lock ?i ?j mgr), remove_lock ?i ?j mgr)"
    by (auto simp: Unlock_def lock_at_def Let_def split: if_splits)
  define mgr1 where "mgr1 = remove_lock ?i ?j mgr"
  have R: "removed mgr ?i ?j mgr1" unfolding mgr1_def by (rule remove_lock_ok [OF m(1) l])
  then have ok1: "mgr_ok mgr1" by (simp add: removed_def)
  let ?s = "s\<lparr>sys_mgr := mgr1, sys_events := sys_events s @ (if li_waiting l then [] else Wakeup mgr1),
      sys_vars := (sys_vars s)(v := (sys_vars s v)\<lparr>ol_mgr := False\<rparr>)\<rparr>"
  have "release v s = Some ?s" using True u by (simp add: release_def mgr_def mgr1_def)
  moreover have "system_ok lib ?s"
    using ok1 removed_exclusive [OF R m(2)] removed_woken [OF R m(3) l] removed_handles [OF R m(4) True] m(5) Wakeup_sockets [OF ok1]
    by (simp add: system_ok_def split: if_splits)
  ultimately show ?thesis by auto
qed (use ok in \<open>simp add: release_def\<close>)

subsubsection \<open>Moving and waking\<close>

lemma system_ok_move:
  assumes ok: "system_ok lib s"
  shows "\<exists>s1. move_lock v w s = Some s1 \<and> system_ok lib s1"
proof (cases "v = w")
  case False
  obtain s1 where s1: "release w s = Some s1" "system_ok lib s1" "\<not> ol_mgr (sys_vars s1 w)"
    using system_ok_release [OF ok, of w] by blast
  let ?vars = "(sys_vars s1)(w := sys_vars s1 v, v := (sys_vars s1 v)\<lparr>ol_mgr := False\<rparr>)"
  define p where "p x = (if x = w then v else if x = v then w else x)" for x
  have h: "handles_ok (sys_mgr s1) (sys_vars s1)" using s1(2) by (simp add: system_ok_def)
  have vars: "ol_mgr (?vars x) = ol_mgr (sys_vars s1 (p x))" "ol_mgr (?vars x) \<Longrightarrow> ?vars x = sys_vars s1 (p x)" for x
    using False s1(3) by (auto simp: p_def)
  have p: "p (p x) = x" "p x = p y \<longleftrightarrow> x = y" for x y by (auto simp: p_def)
  have "\<exists>l. lock_at (sys_mgr s1) (ol_socket (?vars x)) (ol_lock (?vars x)) = Some l \<and> \<not> li_released l" if "ol_mgr (?vars x)" for x
    using h that vars [of x] unfolding handles_ok_def by metis
  moreover have "x = y" if "ol_mgr (?vars x)" "ol_mgr (?vars y)" "ol_socket (?vars x) = ol_socket (?vars y)" "ol_lock (?vars x) = ol_lock (?vars y)" for x y
    using h that vars [of x] vars [of y] p(2) [of x y] unfolding handles_ok_def by metis
  moreover have "\<exists>x. ol_mgr (?vars x) \<and> ol_socket (?vars x) = i \<and> ol_lock (?vars x) = j"
    if "lock_at (sys_mgr s1) i j = Some l" "\<not> li_released l" for i j l
    using h that vars p(1) unfolding handles_ok_def by metis
  ultimately have "handles_ok (sys_mgr s1) ?vars" unfolding handles_ok_def by blast
  then show ?thesis using s1(1,2) False by (simp add: move_lock_def system_ok_def)
qed (use ok in \<open>simp add: move_lock_def\<close>)

lemma obtain_exclusive:
  fixes lib :: "'a fzlib_scheme" and b :: bool
  assumes ok: "mgr_ok mgr" and i: "i < length mgr" "sl_socket (mgr ! i) = Some socket" and ex: "exclusive lib mgr"
  defines "mgr1 \<equiv> snd (obtain_slot lib socket i (b, mgr))"
  shows "exclusive lib mgr1"
  unfolding exclusive_def
proof (intro allI impI notI)
  note o = obtain_slot_ok [OF ok i, where lib = lib and b = b, folded mgr1_def]
  fix k1 j1 k2 j2 x y
  assume h: "k1 \<noteq> k2" "lock_at mgr1 k1 j1 = Some x" "lock_at mgr1 k2 j2 = Some y" "\<not> li_waiting x" "\<not> li_released x"
    "server_eq (sl_server (mgr1 ! k1)) (sl_server (mgr1 ! k2))" "blocks lib y x"
  have old: "\<not> blocks lib b a" if "lock_at mgr k1 j1 = Some a" "lock_at mgr k2 j2 = Some b" "\<not> li_waiting a" "\<not> li_released a" for a b
    using ex that h(1,6) unfolding exclusive_def o(4) by blast
  have grant: "\<not> blocks lib a b" if "can_obtain lib mgr i b" "lock_at mgr k n = Some a" "k \<noteq> i" for a b k n
    using that unfolding can_obtain_at by blast
  consider "k1 = i" | "k2 = i" | "k1 \<noteq> i" "k2 \<noteq> i" by blast
  then show False
  proof cases
    case 1
    then obtain a where a: "lock_at mgr k1 j1 = Some a" "x = granted lib mgr i a" using h(2) o(5) by auto
    have y: "lock_at mgr k2 j2 = Some y" using 1 h(1,3) o(5) by simp
    show False using old [OF a(1) y] grant [OF _ y] a(2) h(1,4,5,7) 1 by (auto simp: granted_def split: if_splits)
  next
    case 2
    then obtain c where c: "lock_at mgr k2 j2 = Some c" "y = granted lib mgr i c" using h(3) o(5) by auto
    have x: "lock_at mgr k1 j1 = Some x" using 2 h(1,2) o(5) by simp
    have "blocks lib x y" using blocks_sym [of y x lib] blocks_active [OF h(7)] h(4,5,7) by blast
    then have "blocks lib x c" using c(2) by simp
    then show False using old [OF x c(1)] grant [OF _ x] c(2) h(1,4,5,7) 2 by (auto simp: granted_def split: if_splits)
  next
    case 3
    then show False using old h o(5) by simp
  qed
qed

lemma obtain_woken:
  fixes lib :: "'a fzlib_scheme" and b :: bool
  assumes ok: "mgr_ok mgr" and i: "i < length mgr" "sl_socket (mgr ! i) = Some socket"
    and wk: "woken lib mgr events" and ev: "set events = insert (Some socket) (set ev)"
  defines "mgr1 \<equiv> snd (obtain_slot lib socket i (b, mgr))"
  shows "woken lib mgr1 ev"
  unfolding woken_def
proof (intro allI impI)
  note o = obtain_slot_ok [OF ok i, where lib = lib and b = b, folded mgr1_def]
  fix k n l assume l: "lock_at mgr1 k n = Some l" "li_waiting l" "can_obtain lib mgr1 k l"
  have c: "can_obtain lib mgr k l" by (rule o(6) [OF l(3)])
  show "sl_socket (mgr1 ! k) \<in> set ev"
  proof (cases "k = i")
    case True
    then obtain a where a: "lock_at mgr i n = Some a" "l = granted lib mgr i a" using l(1) o(5) by auto
    then have "l = a" "\<not> can_obtain lib mgr i a" using l(2) by (auto simp: granted_def split: if_splits)
    then show ?thesis using c True by simp
  next
    case False
    then have k: "lock_at mgr k n = Some l" using l(1) o(5) by simp
    then have "sl_socket (mgr ! k) \<in> set events" using wk l(2) c unfolding woken_def by blast
    moreover have "sl_socket (mgr ! k) \<noteq> Some socket" using ok i False lock_at_slot [OF k] unfolding mgr_ok_def by metis
    ultimately show ?thesis using ev o(3) by simp
  qed
qed

lemma obtain_handles:
  fixes lib :: "'a fzlib_scheme" and b :: bool
  assumes ok: "mgr_ok mgr" and i: "i < length mgr" "sl_socket (mgr ! i) = Some socket" and h: "handles_ok mgr vars"
  defines "mgr1 \<equiv> snd (obtain_slot lib socket i (b, mgr))"
  shows "handles_ok mgr1 vars"
proof -
  note o = obtain_slot_ok [OF ok i, where lib = lib and b = b, folded mgr1_def]
  have "(\<exists>l. lock_at mgr1 k n = Some l \<and> \<not> li_released l) \<longleftrightarrow> (\<exists>l. lock_at mgr k n = Some l \<and> \<not> li_released l)" for k n
    unfolding o(5) by auto
  then show ?thesis using h unfolding handles_ok_def by metis
qed

lemma system_ok_deliver:
  assumes ok: "system_ok lib s" and n: "n < length (sys_events s)" "sys_events s ! n = Some socket"
  shows "system_ok lib (deliver lib n socket s)"
proof -
  define mgr where "mgr = sys_mgr s"
  define ev where "ev = take n (sys_events s) @ drop (Suc n) (sys_events s)"
  have m: "mgr_ok mgr" "exclusive lib mgr" "woken lib mgr (sys_events s)" "handles_ok mgr (sys_vars s)" "None \<notin> set (sys_events s)"
    using ok by (simp_all add: system_ok_def mgr_def)
  have split: "sys_events s = take n (sys_events s) @ Some socket # drop (Suc n) (sys_events s)"
    using id_take_nth_drop [OF n(1)] n(2) by simp
  then have evs: "set (sys_events s) = insert (Some socket) (set ev)" unfolding ev_def by (metis Un_insert_right list.simps(15) set_append)
  show ?thesis
  proof (cases "\<exists>i < length mgr. sl_socket (mgr ! i) = Some socket")
    case False
    then have "snd (ObtainWaiting lib socket mgr) = mgr" using ObtainWaiting_none [of mgr socket lib] by auto
    moreover have "woken lib mgr ev"
      unfolding woken_def
    proof (intro allI impI)
      fix i j l assume "lock_at mgr i j = Some l" "li_waiting l" "can_obtain lib mgr i l"
      then show "sl_socket (mgr ! i) \<in> set ev" using m(3) False evs lock_at_slot unfolding woken_def by (metis insertE)
    qed
    ultimately show ?thesis using m evs by (simp add: system_ok_def deliver_def mgr_def ev_def)
  next
    case True
    then obtain i where i: "i < length mgr" "sl_socket (mgr ! i) = Some socket" by blast
    define mgr1 where "mgr1 = snd (obtain_slot lib socket i (False, mgr))"
    note o = obtain_slot_ok [OF m(1) i, where lib = lib and b = False, folded mgr1_def]
    have mgr1: "snd (ObtainWaiting lib socket mgr) = mgr1" by (simp add: ObtainWaiting_slot [OF m(1) i] mgr1_def)
    have "exclusive lib mgr1" unfolding mgr1_def by (rule obtain_exclusive [OF m(1) i m(2)])
    moreover have "woken lib mgr1 ev" unfolding mgr1_def by (rule obtain_woken [OF m(1) i m(3) evs])
    moreover have "handles_ok mgr1 (sys_vars s)" unfolding mgr1_def by (rule obtain_handles [OF m(1) i m(4)])
    ultimately show ?thesis using m evs o(1) mgr1 by (simp add: system_ok_def deliver_def mgr_def ev_def)
  qed
qed

subsubsection \<open>Every reachable system\<close>

lemma initial_ok: "system_ok lib initial_system"
  by (simp add: system_ok_def initial_system_def mgr_ok_def exclusive_def woken_def handles_ok_def lock_at_def null_lock_def)

lemma lock_step_ok: "lock_step lib s s1 \<Longrightarrow> system_ok lib s \<Longrightarrow> \<exists>t. s1 = Some t \<and> system_ok lib t"
proof (induction rule: lock_step.induct)
  case (step_acquire s v socket server reason path inclusive)
  then show ?case using system_ok_acquire by blast
next
  case (step_release s v)
  then show ?case using system_ok_release by blast
next
  case (step_move s v w)
  then show ?case using system_ok_move by blast
next
  case (step_deliver n s socket)
  then show ?case using system_ok_deliver by blast
next
  case (step_null n s)
  then show ?case by (metis nth_mem system_ok_def)
qed

lemma lock_reach_ok: "lock_reach lib s \<Longrightarrow> \<exists>t. s = Some t \<and> system_ok lib t"
proof (induction rule: lock_reach.induct)
  case reach_start
  show ?case using initial_ok by blast
next
  case (reach_step s s1)
  then show ?case using lock_step_ok by blast
qed

end
