(* ===== verification/Op_Locks_Props.thy ===== *)
theory Op_Locks_Props
  imports Op_Locks_System Common_Parent
begin

text \<open>What the locks promise to the operations that take them (\<^verbatim>\<open>engine/oplock_manager.cpp\<close>).\<close>

subsection \<open>Claims\<close>

lemma waiting_lock:
  assumes "waiting lock mgr = Some b" "ol_mgr lock"
  obtains l where "lock_at mgr (ol_socket lock) (ol_lock lock) = Some l" "li_waiting l = b"
    "l = sl_locks (mgr ! ol_socket lock) ! ol_lock lock"
  using assms by (auto simp: waiting_def Waiting_def lock_at_def split: if_splits)

text \<open>
  C3: Two connections to a server never both hold a lock for the same reason if the paths are equal or
  if one path is below the other and the lock above includes its subdirectories.
\<close>

theorem locks_exclusive:
  assumes "lock_reach lib (Some s)"
    and "ol_mgr (sys_vars s v)" "ol_mgr (sys_vars s w)" "ol_socket (sys_vars s v) \<noteq> ol_socket (sys_vars s w)"
    and "waiting (sys_vars s v) (sys_mgr s) = Some False" "waiting (sys_vars s w) (sys_mgr s) = Some False"
    and "server_eq (sl_server (sys_mgr s ! ol_socket (sys_vars s v))) (sl_server (sys_mgr s ! ol_socket (sys_vars s w)))"
    and "a = sl_locks (sys_mgr s ! ol_socket (sys_vars s v)) ! ol_lock (sys_vars s v)"
    and "b = sl_locks (sys_mgr s ! ol_socket (sys_vars s w)) ! ol_lock (sys_vars s w)"
    and "li_reason a = li_reason b"
  shows "li_path a \<noteq> li_path b \<and> \<not> (li_inclusive a \<and> IsParentOf lib (li_path a) (li_path b) False False)"
proof -
  have ok: "exclusive lib (sys_mgr s)" "handles_ok (sys_mgr s) (sys_vars s)"
    using lock_reach_ok [OF assms(1)] by (auto simp: system_ok_def)
  have a: "lock_at (sys_mgr s) (ol_socket (sys_vars s v)) (ol_lock (sys_vars s v)) = Some a" "\<not> li_waiting a"
    using waiting_lock [OF assms(5,2)] assms(8) by auto
  have b: "lock_at (sys_mgr s) (ol_socket (sys_vars s w)) (ol_lock (sys_vars s w)) = Some b" "\<not> li_waiting b"
    using waiting_lock [OF assms(6,3)] assms(9) by auto
  have "\<not> li_released a" "\<not> li_released b" using ok(2) assms(2,3) a(1) b(1) unfolding handles_ok_def by force+
  moreover have "\<not> blocks lib b a" using ok(1) assms(4,7) a b(1) calculation(1) unfolding exclusive_def by blast
  ultimately show ?thesis using assms(10) a(2) b(2) by (auto simp: blocks_def path_eq_iff)
qed

text \<open>
  C5: Whatever the clients of the manager do, no assertion on the positions in a lock object fails and no
  event is sent through a null pointer; the objects can be asked whether they wait at any time.
\<close>

theorem locks_never_fail:
  assumes "lock_reach lib s"
  shows "\<exists>t. s = Some t \<and> (\<forall>v. waiting (sys_vars t v) (sys_mgr t) \<noteq> None)"
proof -
  obtain t where t: "s = Some t" "handles_ok (sys_mgr t) (sys_vars t)"
    using lock_reach_ok [OF assms] by (auto simp: system_ok_def)
  have "waiting (sys_vars t v) (sys_mgr t) \<noteq> None" for v
    using t(2) unfolding handles_ok_def waiting_def Waiting_def lock_at_def by (auto split: if_splits)
  then show ?thesis using t(1) by blast
qed

text \<open>
  C9: No wakeup is lost. If a lock waits and no lock of another connection stands in its way any more, an
  event is on its way to the connection, and handling it grants the lock.
\<close>

theorem locks_woken:
  assumes "lock_reach lib (Some s)" "ol_mgr (sys_vars s v)" "waiting (sys_vars s v) (sys_mgr s) = Some True"
    and "can_obtain lib (sys_mgr s) (ol_socket (sys_vars s v))
      (sl_locks (sys_mgr s ! ol_socket (sys_vars s v)) ! ol_lock (sys_vars s v))"
  shows "\<exists>n socket. n < length (sys_events s) \<and> sys_events s ! n = Some socket \<and>
    waiting (sys_vars s v) (sys_mgr (deliver lib n socket s)) = Some False"
proof -
  define i j where "i = ol_socket (sys_vars s v)" and "j = ol_lock (sys_vars s v)"
  have ok: "mgr_ok (sys_mgr s)" "woken lib (sys_mgr s) (sys_events s)" "None \<notin> set (sys_events s)"
    using lock_reach_ok [OF assms(1)] by (auto simp: system_ok_def)
  obtain l where l: "lock_at (sys_mgr s) i j = Some l" "li_waiting l" "can_obtain lib (sys_mgr s) i l"
    using waiting_lock [OF assms(3,2)] assms(4) by (auto simp: i_def j_def)
  then have "sl_socket (sys_mgr s ! i) \<in> set (sys_events s)" using ok(2) unfolding woken_def by blast
  then obtain n socket where n: "n < length (sys_events s)" "sys_events s ! n = Some socket" "sl_socket (sys_mgr s ! i) = Some socket"
    using ok(3) by (metis in_set_conv_nth option.exhaust)
  have i: "i < length (sys_mgr s)" using lock_at_slot [OF l(1)] by simp
  have "lock_at (sys_mgr (deliver lib n socket s)) i j = Some (l\<lparr>li_waiting := False\<rparr>)"
    using obtain_slot_ok(5) [OF ok(1) i n(3), of lib False i j] l
    by (simp add: deliver_def ObtainWaiting_slot [OF ok(1) i n(3)] granted_def)
  then have "waiting (sys_vars s v) (sys_mgr (deliver lib n socket s)) = Some False"
    using assms(2) by (auto simp: waiting_def Waiting_def lock_at_def i_def j_def split: if_splits)
  then show ?thesis using n by blast
qed

text \<open>C31: When no lock object is left, the manager is empty: nothing is kept for connections that are gone.\<close>

theorem locks_released:
  assumes "lock_reach lib (Some s)" "\<forall>v. \<not> ol_mgr (sys_vars s v)"
  shows "sys_mgr s = []"
proof (rule ccontr)
  assume ne: "sys_mgr s \<noteq> []"
  let ?i = "length (sys_mgr s) - 1"
  let ?ls = "sl_locks (sys_mgr s ! ?i)"
  have ok: "mgr_ok (sys_mgr s)" "handles_ok (sys_mgr s) (sys_vars s)"
    using lock_reach_ok [OF assms(1)] by (auto simp: system_ok_def)
  have i: "?i < length (sys_mgr s)" "sys_mgr s ! ?i = last (sys_mgr s)" using ne by (simp_all add: last_conv_nth)
  have "sl_socket (sys_mgr s ! ?i) \<noteq> None" using ok(1) ne i(2) by (simp add: mgr_ok_def)
  then have ls: "?ls \<noteq> []" "\<not> li_released (last ?ls)" using mgr_ok_slot [OF ok(1) i(1)] by (auto simp: slot_ok_def)
  then have "lock_at (sys_mgr s) ?i (length ?ls - 1) = Some (last ?ls)" using i(1) by (simp add: lock_at_def last_conv_nth)
  then show False using ok(2) ls(2) assms(2) unfolding handles_ok_def by blast
qed

text \<open>
  A lock that waits is not granted while a connection to a different server holds a lock on an equal path,
  although a lock taken afresh would not wait for that one.
\<close>

definition plain_lock :: "locking_reason \<Rightarrow> server_path \<Rightarrow> bool \<Rightarrow> lock_info" where
  "plain_lock r p w = \<lparr>li_path = p, li_reason = r, li_inclusive = False, li_waiting = w, li_released = False\<rparr>"

lemma plain_lock_simps [simp]:
  "li_path (plain_lock r p w) = p" "li_reason (plain_lock r p w) = r" "li_waiting (plain_lock r p w) = w"
  "\<not> li_inclusive (plain_lock r p w)" "\<not> li_released (plain_lock r p w)"
  by (simp_all add: plain_lock_def)

lemma plain_blocks: "blocks lib (plain_lock r p False) (plain_lock r p w)"
  by (simp add: blocks_def path_eq_iff)

lemma obtain_ignores_server:
  fixes r :: locking_reason and p :: server_path
  assumes "\<not> server_eq here elsewhere" "x \<noteq> y"
  defines "other \<equiv> \<lparr>sl_server = elsewhere, sl_socket = Some y, sl_locks = [plain_lock r p False]\<rparr>"
  shows "fst (ObtainWaiting lib x [other, \<lparr>sl_server = here, sl_socket = Some x, sl_locks = [plain_lock r p True]\<rparr>]) = False"
    "snd (Lock lib x here r p False [other]) = [other, \<lparr>sl_server = here, sl_socket = Some x, sl_locks = [plain_lock r p False]\<rparr>]"
proof -
  have "\<not> can_obtain lib [other, \<lparr>sl_server = here, sl_socket = Some x, sl_locks = [plain_lock r p True]\<rparr>] 1 (plain_lock r p True)"
    using plain_blocks by (auto simp: can_obtain_def other_def intro!: exI [of _ 0])
  then show "fst (ObtainWaiting lib x [other, \<lparr>sl_server = here, sl_socket = Some x, sl_locks = [plain_lock r p True]\<rparr>]) = False"
    using assms(2) by (simp add: ObtainWaiting_def obtain_slot_def other_def upt_rec)
  have "\<not> server_eq elsewhere here" using assms(1) server_eq_sym by simp
  then show "snd (Lock lib x here r p False [other]) = [other, \<lparr>sl_server = here, sl_socket = Some x, sl_locks = [plain_lock r p False]\<rparr>]"
    using assms(2) by (simp add: Lock_def get_or_create_def other_def plain_lock_def)
qed

subsection \<open>Examples\<close>

text \<open>Connection 2 waits for connection 1, which then gives up its lock.\<close>

definition one_lock :: lock_system where
  "one_lock = acquire ascii_lib 0 1 empty_server reason_list (unix_path [L ''a'']) False initial_system"

definition two_locks :: lock_system where
  "two_locks = acquire ascii_lib 1 2 empty_server reason_list (unix_path [L ''a'']) False one_lock"

definition side_locks :: lock_system where
  "side_locks = acquire ascii_lib 1 2 empty_server reason_list (unix_path [L ''b'']) False one_lock"

lemma one_lock_reach: "lock_reach ascii_lib (Some one_lock)"
  unfolding one_lock_def by (intro reach_step [OF reach_start step_acquire]) (simp add: initial_system_def null_lock_def)

lemma one_lock_vars: "ol_mgr (sys_vars one_lock v) \<longleftrightarrow> v = 0"
  by (simp add: one_lock_def acquire_def initial_system_def null_lock_def Lock_def get_or_create_def)

lemma two_locks_reach: "lock_reach ascii_lib (Some two_locks)" "lock_reach ascii_lib (Some side_locks)"
  unfolding two_locks_def side_locks_def by (intro reach_step [OF one_lock_reach step_acquire], simp add: one_lock_vars)+

theorem locks_exclusive_witness:
  "li_path (sl_locks (sys_mgr side_locks ! 0) ! 0) \<noteq> li_path (sl_locks (sys_mgr side_locks ! 1) ! 0)"
proof -
  have "sys_vars side_locks 0 = \<lparr>ol_mgr = True, ol_socket = 0, ol_lock = 0\<rparr>"
    "sys_vars side_locks 1 = \<lparr>ol_mgr = True, ol_socket = 1, ol_lock = 0\<rparr>" by code_simp+
  moreover have "waiting (sys_vars side_locks 0) (sys_mgr side_locks) = Some False"
    "waiting (sys_vars side_locks 1) (sys_mgr side_locks) = Some False"
    "server_eq (sl_server (sys_mgr side_locks ! 0)) (sl_server (sys_mgr side_locks ! 1))"
    "li_reason (sl_locks (sys_mgr side_locks ! 0) ! 0) = li_reason (sl_locks (sys_mgr side_locks ! 1) ! 0)" by code_simp+
  ultimately show ?thesis using locks_exclusive [OF two_locks_reach(2), of 0 1] by simp
qed

theorem locks_never_fail_witness:
  "waiting (sys_vars two_locks 1) (sys_mgr two_locks) \<noteq> None"
  using locks_never_fail [OF two_locks_reach(1)] by simp

theorem locks_woken_witness:
  "\<exists>s n socket. release 0 two_locks = Some s \<and> sys_events s ! n = Some socket \<and>
     waiting (sys_vars s 1) (sys_mgr (deliver ascii_lib n socket s)) = Some False"
proof -
  have "case release 0 two_locks of None \<Rightarrow> False | Some s \<Rightarrow> ol_mgr (sys_vars s 1) \<and>
      waiting (sys_vars s 1) (sys_mgr s) = Some True \<and>
      can_obtain ascii_lib (sys_mgr s) (ol_socket (sys_vars s 1)) (sl_locks (sys_mgr s ! ol_socket (sys_vars s 1)) ! ol_lock (sys_vars s 1))"
    by code_simp
  then obtain s where s: "release 0 two_locks = Some s" "ol_mgr (sys_vars s 1)" "waiting (sys_vars s 1) (sys_mgr s) = Some True"
    "can_obtain ascii_lib (sys_mgr s) (ol_socket (sys_vars s 1)) (sl_locks (sys_mgr s ! ol_socket (sys_vars s 1)) ! ol_lock (sys_vars s 1))"
    by (auto split: option.splits)
  have "lock_reach ascii_lib (Some s)" using reach_step [OF two_locks_reach(1) step_release [of _ _ 0]] s(1) by simp
  then show ?thesis using locks_woken [OF _ s(2-4)] s(1) by blast
qed

theorem locks_released_witness: "\<exists>s. release 0 one_lock = Some s \<and> sys_mgr s = []"
proof -
  obtain s where s: "release 0 one_lock = Some s" "\<not> ol_mgr (sys_vars s 0)" "\<forall>w. w \<noteq> 0 \<longrightarrow> sys_vars s w = sys_vars one_lock w"
    using system_ok_release [of ascii_lib one_lock 0] lock_reach_ok [OF one_lock_reach] by auto
  have "\<not> ol_mgr (sys_vars s v)" for v using s(2,3) one_lock_vars by (cases "v = 0") auto
  moreover have "lock_reach ascii_lib (Some s)" using reach_step [OF one_lock_reach step_release [of _ _ 0]] s(1) by simp
  ultimately show ?thesis using locks_released s(1) by blast
qed

end
