(* ===== verification/Ftp_Reply.thy ===== *)
theory Ftp_Reply
  imports Path_Roundtrip
begin

text \<open>
  How the replies of an FTP server reach the operations (\<^verbatim>\<open>OnReceive\<close>, \<^verbatim>\<open>ParseLine\<close> and \<^verbatim>\<open>GetReplyCode\<close> of
  \<^verbatim>\<open>engine/ftp/ftpcontrolsocket.cpp\<close>, \<^verbatim>\<open>ConvToLocal\<close> and \<^verbatim>\<open>ParsePwdReply\<close> of \<^verbatim>\<open>engine/controlsocket.cpp\<close>).
  Bytes are numbers below 256. The results of the operations are the constants of \<^verbatim>\<open>include/commands.h\<close>.
\<close>

unbundle bit_operations_syntax

subsection \<open>Results\<close>

definition FZ_REPLY_OK :: int where "FZ_REPLY_OK = 0x0000"
definition FZ_REPLY_WOULDBLOCK :: int where "FZ_REPLY_WOULDBLOCK = 0x0001"
definition FZ_REPLY_ERROR :: int where "FZ_REPLY_ERROR = 0x0002"
definition FZ_REPLY_CRITICALERROR :: int where "FZ_REPLY_CRITICALERROR = 0x0006"
definition FZ_REPLY_CANCELED :: int where "FZ_REPLY_CANCELED = 0x000A"
definition FZ_REPLY_DISCONNECTED :: int where "FZ_REPLY_DISCONNECTED = 0x0040"
definition FZ_REPLY_INTERNALERROR :: int where "FZ_REPLY_INTERNALERROR = 0x0082"
definition FZ_REPLY_TIMEOUT :: int where "FZ_REPLY_TIMEOUT = 0x0802"
definition FZ_REPLY_LINKNOTDIR :: int where "FZ_REPLY_LINKNOTDIR = 0x4002"
definition FZ_REPLY_CONTINUE :: int where "FZ_REPLY_CONTINUE = 0x8000"
definition FZ_REPLY_ERROR_NOTFOUND :: int where "FZ_REPLY_ERROR_NOTFOUND = 0x10002"

lemmas reply_codes = FZ_REPLY_OK_def FZ_REPLY_WOULDBLOCK_def FZ_REPLY_ERROR_def FZ_REPLY_CRITICALERROR_def
  FZ_REPLY_CANCELED_def FZ_REPLY_DISCONNECTED_def FZ_REPLY_INTERNALERROR_def FZ_REPLY_TIMEOUT_def
  FZ_REPLY_LINKNOTDIR_def FZ_REPLY_CONTINUE_def FZ_REPLY_ERROR_NOTFOUND_def

text \<open>The test \<^verbatim>\<open>res & flag\<close>.\<close>

definition has_flag :: "int \<Rightarrow> int \<Rightarrow> bool" where
  "has_flag res flag \<longleftrightarrow> res AND flag \<noteq> 0"

subsection \<open>Lines\<close>

text \<open>The conversions of libfilezilla and of the converter that the application provides.\<close>

record fzconv =
  from_utf8 :: "nat list \<Rightarrow> wstring"               \<comment> \<open>\<^verbatim>\<open>fz::to_wstring_from_utf8\<close>, empty if the bytes are no UTF-8\<close>
  conv_to_local :: "wstring \<Rightarrow> nat list \<Rightarrow> wstring"  \<comment> \<open>\<^verbatim>\<open>CustomEncodingConverterBase::toLocal\<close>\<close>

text \<open>The result has the new value of \<^verbatim>\<open>m_useUTF8\<close>.\<close>

definition ConvToLocal :: "'a fzconv_scheme \<Rightarrow> cserver \<Rightarrow> bool \<Rightarrow> nat list \<Rightarrow> wstring \<times> bool" where
  "ConvToLocal conv server useUTF8 buffer =
     (if buffer = [] then ([], useUTF8)
      else if useUTF8 \<and> from_utf8 conv buffer \<noteq> [] then (from_utf8 conv buffer, True)
      else
        let utf8 = (useUTF8 \<and> srv_encodingType server = ENCODING_UTF8)
        in if srv_encodingType server = ENCODING_CUSTOM \<and> conv_to_local conv (srv_customEncoding server) buffer \<noteq> []
           then (conv_to_local conv (srv_customEncoding server) buffer, utf8)
           else (buffer, utf8))"

text \<open>
  The inner loop of \<^verbatim>\<open>OnReceive\<close> over the receive buffer from position \<open>i\<close>: \<open>handle\<close> gets the bytes of a
  line, and the loop is left if that closed the connection.
\<close>

definition line_end :: "nat \<Rightarrow> bool" where
  "line_end p \<longleftrightarrow> p = 13 \<or> p = 10 \<or> p = 0"

function scan :: "(nat list \<Rightarrow> 's \<Rightarrow> 's) \<Rightarrow> ('s \<Rightarrow> bool) \<Rightarrow> nat \<Rightarrow> nat list \<Rightarrow> 's \<Rightarrow> nat list \<times> 's" where
  "scan handle closed i buf s =
     (if i < length buf then
        if line_end (buf ! i) then
          if i = 0 then scan handle closed 0 (drop 1 buf) s
          else let s1 = handle (take i buf) s
               in if closed s1 then (drop (i + 1) buf, s1) else scan handle closed 0 (drop (i + 1) buf) s1
        else scan handle closed (i + 1) buf s
      else (buf, s))"
  by pat_completeness auto

termination
  by (relation "measure (\<lambda>(handle, closed, i, buf, s). 2 * length buf - i)") auto

declare scan.simps [simp del]

text \<open>What the socket holds: bytes that arrived, nothing at the moment, or an error or the end of the connection.\<close>

datatype arrival = Data "nat list" | Again | Failed

definition arrival_size :: "arrival list \<Rightarrow> nat" where
  "arrival_size as = sum_list (map (\<lambda>a. case a of Data bytes \<Rightarrow> Suc (length bytes) | _ \<Rightarrow> 1) as)"

lemma arrival_size_simps [simp]:
  "arrival_size (Data bytes # rs) = Suc (length bytes) + arrival_size rs"
  by (simp add: arrival_size_def)

text \<open>
  \<^verbatim>\<open>OnReceive\<close> for what successive reads find; a read takes no more bytes than there is room in the buffer.
  \<open>close\<close> is \<^verbatim>\<open>DoClose\<close>.
\<close>

function OnReceive ::
  "(nat list \<Rightarrow> 's \<Rightarrow> 's) \<Rightarrow> ('s \<Rightarrow> bool) \<Rightarrow> ('s \<Rightarrow> 's) \<Rightarrow> arrival list \<Rightarrow> nat list \<Rightarrow> 's \<Rightarrow> nat list \<times> 's" where
  "OnReceive handle closed close [] buf s = (buf, s)"
| "OnReceive handle closed close (Again # rs) buf s = (buf, s)"
| "OnReceive handle closed close (Failed # rs) buf s = (buf, close s)"
| "OnReceive handle closed close (Data bytes # rs) buf s =
     (let toRead = 65536 - length buf; read = take toRead bytes; rest = drop toRead bytes
      in if read = [] then (buf, close s)
         else case scan handle closed (length buf) (buf @ read) s of
           (buf1, s1) \<Rightarrow>
             if closed s1 then (buf1, s1)
             else if length buf1 = 65536 then (buf1, close s1)
             else OnReceive handle closed close (if rest = [] then rs else Data rest # rs) buf1 s1)"
  by pat_completeness auto

termination
  by (relation "measure (\<lambda>(handle, closed, close, rs, buf, s). arrival_size rs)") auto

declare OnReceive.simps(4) [simp del]

text \<open>\<^verbatim>\<open>m_MultilineResponseCode\<close> and \<^verbatim>\<open>m_MultilineResponseLines\<close>.\<close>

record reply_state =
  rs_code :: wstring
  rs_lines :: "wstring list"

definition no_reply :: reply_state where
  "no_reply = \<lparr>rs_code = [], rs_lines = []\<rparr>"

text \<open>
  \<^verbatim>\<open>ParseLine\<close> outside of a logon. The result is the line that \<^verbatim>\<open>ParseResponse\<close> is called with, if the reply
  is complete, and the state after the call.
\<close>

definition ParseLine :: "wstring \<Rightarrow> reply_state \<Rightarrow> wstring option \<times> reply_state" where
  "ParseLine line r =
     (if length line > 3 then
        if rs_code r \<noteq> [] then
          if take 4 line = rs_code r then (Some line, no_reply)
          else (None, r\<lparr>rs_lines := rs_lines r @ [line]\<rparr>)
        else if line ! 3 = 45 then (None, \<lparr>rs_code = take 3 line @ [32], rs_lines = rs_lines r @ [line]\<rparr>)
        else (Some line, r)
      else (None, r))"

definition GetReplyCode :: "wstring \<Rightarrow> int" where
  "GetReplyCode response =
     (if response = [] then 0
      else if response ! 0 < 48 \<or> response ! 0 > 57 then 0
      else int (response ! 0) - 48)"

subsection \<open>The reply to PWD\<close>

definition find_ch :: "wchar \<Rightarrow> wstring \<Rightarrow> nat option" where
  "find_ch c s = find_idx (\<lambda>x. x = c) s"

definition rfind_ch :: "wchar \<Rightarrow> wstring \<Rightarrow> nat option" where
  "rfind_ch c s = rfind_idx (\<lambda>x. x = c) s"

text \<open>The positions of the quotes if there are two of them.\<close>

definition quotes :: "wchar \<Rightarrow> wstring \<Rightarrow> (nat \<times> nat) option" where
  "quotes q reply =
     (case (find_ch q reply, rfind_ch q reply) of
        (Some pos1, Some pos2) \<Rightarrow> if pos1 \<ge> pos2 then None else Some (pos1, pos2)
      | _ \<Rightarrow> None)"

definition pwd_path :: "'a fzlib_scheme \<Rightarrow> wstring \<Rightarrow> wstring" where
  "pwd_path lib reply =
     (case (if quotes 34 reply = None then quotes 39 reply else quotes 34 reply) of
        None \<Rightarrow>
          (case find_ch 32 reply of
             None \<Rightarrow> []
           | Some pos1 \<Rightarrow>
               let reply1 = drop (pos1 + 1) reply
               in case find_ch 32 reply1 of None \<Rightarrow> reply1 | Some pos2 \<Rightarrow> take pos2 reply1)
      | Some (pos1, pos2) \<Rightarrow>
          replace_substrings lib (take (pos2 - pos1 - 1) (drop (pos1 + 1) reply)) [34, 34] [34])"

text \<open>The result has the new value of \<^verbatim>\<open>currentPath_\<close>.\<close>

definition ParsePwdReply ::
  "'a fzlib_scheme \<Rightarrow> cserver \<Rightarrow> wstring \<Rightarrow> server_path \<Rightarrow> server_path \<Rightarrow> bool \<times> server_path" where
  "ParsePwdReply lib server reply defaultPath currentPath =
     (let path = pwd_path lib reply;
          cur = snd (SetType currentPath (srv_type server))
      in case (if path = [] then (False, cur) else case SetPath cur path False of (ok, p, _) \<Rightarrow> (ok, p)) of
           (ok, p) \<Rightarrow>
             if ok then (True, p)
             else if \<not> path_empty defaultPath then (True, defaultPath)
             else (False, p))"

end
