(* ===== verification/Ftp_Reply_Props.thy ===== *)
theory Ftp_Reply_Props
  imports Ftp_Reply
begin

text \<open>
  The lines that \<^verbatim>\<open>OnReceive\<close> hands on are those of the bytes received, however they are cut into pieces, and
  the replies assembled from them are those that were sent.
\<close>

subsection \<open>Lines\<close>

text \<open>The bytes cut at the line ends, and what follows the last of them.\<close>

fun split_lines :: "nat list \<Rightarrow> nat list \<Rightarrow> nat list list \<times> nat list" where
  "split_lines cur [] = ([], cur)"
| "split_lines cur (b # bs) =
     (if line_end b then
        case split_lines [] bs of (ls, rest) \<Rightarrow> (if cur = [] then ls else cur # ls, rest)
      else split_lines (cur @ [b]) bs)"

text \<open>Handling lines in turn until the connection is closed.\<close>

fun handle_until :: "('l \<Rightarrow> 's \<Rightarrow> 's) \<Rightarrow> ('s \<Rightarrow> bool) \<Rightarrow> 'l list \<Rightarrow> 's \<Rightarrow> 's" where
  "handle_until handle closed [] s = s"
| "handle_until handle closed (l # ls) s =
     (let s1 = handle l s in if closed s1 then s1 else handle_until handle closed ls s1)"

lemma handle_until_append:
  "handle_until handle closed (xs @ ys) s =
     (let s1 = handle_until handle closed xs s in if xs \<noteq> [] \<and> closed s1 then s1 else handle_until handle closed ys s1)"
  by (induction xs arbitrary: s) (auto simp: Let_def)

lemma split_lines_append:
  "split_lines cur (xs @ ys) =
     (case split_lines cur xs of (ls, rest) \<Rightarrow> case split_lines rest ys of (ls', rest') \<Rightarrow> (ls @ ls', rest'))"
  by (induction cur xs rule: split_lines.induct) (auto split: prod.splits)

lemma split_lines_rest: "\<forall>x\<in>set cur. \<not> line_end x \<Longrightarrow> \<forall>x\<in>set (snd (split_lines cur bs)). \<not> line_end x"
proof (induction bs arbitrary: cur)
  case (Cons b bs)
  show ?case
  proof (cases "line_end b")
    case True
    then have "snd (split_lines cur (b # bs)) = snd (split_lines [] bs)" by (simp add: case_prod_beta)
    then show ?thesis using Cons.IH [of "[]"] by (metis empty_iff empty_set)
  next
    case False
    then have "split_lines cur (b # bs) = split_lines (cur @ [b]) bs" by simp
    then show ?thesis using Cons.IH [of "cur @ [b]"] Cons.prems False by (metis Un_iff empty_iff insert_iff list.set(1,2) set_append)
  qed
qed simp

lemma scan_split:
  "\<forall>b\<in>set cur. \<not> line_end b \<Longrightarrow>
   snd (scan handle closed (length cur) (cur @ bs) s) = handle_until handle closed (fst (split_lines cur bs)) s \<and>
   (fst (split_lines cur bs) = [] \<or> \<not> closed (handle_until handle closed (fst (split_lines cur bs)) s) \<longrightarrow>
      fst (scan handle closed (length cur) (cur @ bs) s) = snd (split_lines cur bs))"
proof (induction cur bs arbitrary: s rule: split_lines.induct)
  case (1 cur)
  show ?case by (simp add: scan.simps)
next
  case (2 cur b bs)
  show ?case
  proof (cases "line_end b")
    case False
    have "scan handle closed (length cur) (cur @ b # bs) s = scan handle closed (length (cur @ [b])) ((cur @ [b]) @ bs) s"
      using False by (subst scan.simps) (simp add: nth_append)
    then show ?thesis using 2(2) [OF False, of s] 2(3) False by simp
  next
    case True
    have IH: "snd (scan handle closed 0 bs s) = handle_until handle closed (fst (split_lines [] bs)) s \<and>
        (fst (split_lines [] bs) = [] \<or> \<not> closed (handle_until handle closed (fst (split_lines [] bs)) s) \<longrightarrow>
         fst (scan handle closed 0 bs s) = snd (split_lines [] bs))" for s
      using 2(1) [OF True, of s] by simp
    have "scan handle closed (length cur) (cur @ b # bs) s =
        (if cur = [] then scan handle closed 0 bs s
         else if closed (handle cur s) then (bs, handle cur s) else scan handle closed 0 bs (handle cur s))"
      using True by (subst scan.simps) (simp add: nth_append Let_def)
    then show ?thesis using IH [of s] IH [of "handle cur s"] True by (auto simp: Let_def split: prod.splits)
  qed
qed

lemma split_lines_cur:
  "\<forall>l\<in>set (fst (split_lines cur ys)). length l < n \<Longrightarrow> length (snd (split_lines cur ys)) < n \<Longrightarrow> length cur < n"
proof (induction ys arbitrary: cur)
  case (Cons b ys)
  show ?case
  proof (cases "line_end b")
    case True
    then show ?thesis using Cons.prems by (cases "cur = []") (simp_all add: case_prod_beta)
  next
    case False
    then show ?thesis using Cons.IH [of "cur @ [b]"] Cons.prems by simp
  qed
qed simp

lemma split_lines_prefix:
  assumes "\<forall>l\<in>set (fst (split_lines cur (xs @ ys))). length l < n" "length (snd (split_lines cur (xs @ ys))) < n"
  shows "length (snd (split_lines cur xs)) < n"
  using assms split_lines_cur [of "snd (split_lines cur xs)" ys n] by (simp add: split_lines_append case_prod_beta)

definition arrived :: "arrival list \<Rightarrow> nat list" where
  "arrived rs = concat (map (\<lambda>a. case a of Data bytes \<Rightarrow> bytes | _ \<Rightarrow> []) rs)"

definition only_data :: "arrival list \<Rightarrow> bool" where
  "only_data rs \<longleftrightarrow> (\<forall>a\<in>set rs. \<exists>bytes. a = Data bytes \<and> bytes \<noteq> [])"

lemma OnReceive_step:
  assumes data: "only_data (Data bytes # rs)" and buf: "\<forall>b\<in>set buf. \<not> line_end b" and op: "\<not> closed s"
    and short: "\<forall>l\<in>set (fst (split_lines buf (arrived (Data bytes # rs)))). length l < 65536"
      "length (snd (split_lines buf (arrived (Data bytes # rs)))) < 65536"
    and later: "\<And>rs' buf s. arrival_size rs' < arrival_size (Data bytes # rs) \<Longrightarrow> only_data rs' \<Longrightarrow> \<forall>b\<in>set buf. \<not> line_end b \<Longrightarrow>
      \<not> closed s \<Longrightarrow> \<forall>l\<in>set (fst (split_lines buf (arrived rs'))). length l < 65536 \<Longrightarrow>
      length (snd (split_lines buf (arrived rs'))) < 65536 \<Longrightarrow>
      snd (OnReceive handle closed close rs' buf s) = handle_until handle closed (fst (split_lines buf (arrived rs'))) s \<and>
      (\<not> closed (handle_until handle closed (fst (split_lines buf (arrived rs'))) s) \<longrightarrow>
       fst (OnReceive handle closed close rs' buf s) = snd (split_lines buf (arrived rs')))"
  shows "snd (OnReceive handle closed close (Data bytes # rs) buf s) =
      handle_until handle closed (fst (split_lines buf (arrived (Data bytes # rs)))) s \<and>
    (\<not> closed (handle_until handle closed (fst (split_lines buf (arrived (Data bytes # rs)))) s) \<longrightarrow>
     fst (OnReceive handle closed close (Data bytes # rs) buf s) = snd (split_lines buf (arrived (Data bytes # rs))))"
proof -
  define read rest more where "read = take (65536 - length buf) bytes" and "rest = drop (65536 - length buf) bytes"
    and "more = (if rest = [] then rs else Data rest # rs)"
  define ls buf1 where "ls = fst (split_lines buf read)" and "buf1 = snd (split_lines buf read)"
  define s1 where "s1 = handle_until handle closed ls s"
  have split: "arrived (Data bytes # rs) = read @ arrived more" by (simp add: arrived_def read_def rest_def more_def)
  have len: "length buf < 65536"
    using split_lines_cur [of buf "arrived (Data bytes # rs)" 65536] short by simp
  have r: "read \<noteq> []" using len data by (simp add: read_def only_data_def)
  have pre: "length buf1 < 65536"
    using split_lines_prefix [of buf read "arrived more" 65536] short split by (simp add: buf1_def)
  have sc: "snd (scan handle closed (length buf) (buf @ read) s) = s1"
    "ls = [] \<or> \<not> closed s1 \<Longrightarrow> fst (scan handle closed (length buf) (buf @ read) s) = buf1"
    using scan_split [OF buf, of handle closed read s] by (simp_all add: s1_def ls_def buf1_def)
  have both: "split_lines buf (arrived (Data bytes # rs)) =
      (ls @ fst (split_lines buf1 (arrived more)), snd (split_lines buf1 (arrived more)))"
    by (simp add: split split_lines_append ls_def buf1_def case_prod_beta)
  have on: "OnReceive handle closed close (Data bytes # rs) buf s =
      (case scan handle closed (length buf) (buf @ read) s of (b, t) \<Rightarrow>
         if closed t then (b, t) else if length b = 65536 then (b, close t) else OnReceive handle closed close more b t)"
    unfolding OnReceive.simps(4) [of handle closed close bytes] Let_def read_def [symmetric] rest_def [symmetric] more_def [symmetric]
    using r by simp
  show ?thesis
  proof (cases "closed s1")
    case True
    then have "ls \<noteq> []" using op by (auto simp: s1_def)
    then have "handle_until handle closed (fst (split_lines buf (arrived (Data bytes # rs)))) s = s1"
      using True by (simp add: both handle_until_append s1_def [symmetric])
    moreover have "snd (OnReceive handle closed close (Data bytes # rs) buf s) = s1"
      unfolding on using True sc(1) by (auto simp: case_prod_beta)
    ultimately show ?thesis using True by simp
  next
    case False
    have on1: "OnReceive handle closed close (Data bytes # rs) buf s = OnReceive handle closed close more buf1 s1"
      unfolding on using False sc pre by (auto simp: case_prod_beta)
    have "arrival_size more < arrival_size (Data bytes # rs)" using r by (auto simp: more_def rest_def read_def)
    moreover have "only_data more" using data by (simp add: only_data_def more_def)
    moreover have "\<forall>b\<in>set buf1. \<not> line_end b" unfolding buf1_def by (rule split_lines_rest [OF buf])
    moreover have "\<forall>l\<in>set (fst (split_lines buf1 (arrived more))). length l < 65536"
      "length (snd (split_lines buf1 (arrived more))) < 65536" using short both by simp_all
    ultimately have IH: "snd (OnReceive handle closed close more buf1 s1) = handle_until handle closed (fst (split_lines buf1 (arrived more))) s1 \<and>
      (\<not> closed (handle_until handle closed (fst (split_lines buf1 (arrived more))) s1) \<longrightarrow>
       fst (OnReceive handle closed close more buf1 s1) = snd (split_lines buf1 (arrived more)))"
      using later False by blast
    show ?thesis unfolding on1 using IH False by (simp add: both handle_until_append s1_def [symmetric])
  qed
qed

lemma OnReceive_lines:
  assumes "only_data rs" "\<forall>b\<in>set buf. \<not> line_end b" "\<not> closed s"
    "\<forall>l\<in>set (fst (split_lines buf (arrived rs))). length l < 65536" "length (snd (split_lines buf (arrived rs))) < 65536"
  shows "snd (OnReceive handle closed close rs buf s) = handle_until handle closed (fst (split_lines buf (arrived rs))) s \<and>
    (\<not> closed (handle_until handle closed (fst (split_lines buf (arrived rs))) s) \<longrightarrow>
     fst (OnReceive handle closed close rs buf s) = snd (split_lines buf (arrived rs)))"
  using assms
proof (induction "arrival_size rs" arbitrary: rs buf s rule: less_induct)
  case (less arr)
  show ?case
  proof (cases arr)
    case Nil
    then show ?thesis by (simp add: arrived_def)
  next
    case (Cons a rs)
    then obtain bytes where arr: "arr = Data bytes # rs" "bytes \<noteq> []" using less.prems(1) by (auto simp: only_data_def)
    show ?thesis unfolding arr(1)
      by (rule OnReceive_step [OF less.prems [unfolded arr(1)] less.hyps [unfolded arr(1)]])
  qed
qed

subsection \<open>Several notifications\<close>

text \<open>
  The socket calls \<^verbatim>\<open>OnReceive\<close> each time that bytes arrive, until the connection is closed. The buffer is
  kept from one call to the next.
\<close>

fun receive_all ::
  "(nat list \<Rightarrow> 's \<Rightarrow> 's) \<Rightarrow> ('s \<Rightarrow> bool) \<Rightarrow> ('s \<Rightarrow> 's) \<Rightarrow> arrival list list \<Rightarrow> nat list \<Rightarrow> 's \<Rightarrow> nat list \<times> 's" where
  "receive_all handle closed close [] buf s = (buf, s)"
| "receive_all handle closed close (rs # events) buf s =
     (if closed s then (buf, s)
      else case OnReceive handle closed close rs buf s of (buf1, s1) \<Rightarrow> receive_all handle closed close events buf1 s1)"

text \<open>A call finds bytes in one or more reads, then the read would block.\<close>

definition until_again :: "arrival list \<Rightarrow> bool" where
  "until_again rs \<longleftrightarrow> rs \<noteq> [] \<and> last rs = Again \<and> only_data (butlast rs)"

lemma OnReceive_again:
  "only_data rs \<Longrightarrow> OnReceive handle closed close (rs @ [Again]) buf s = OnReceive handle closed close rs buf s"
proof (induction "arrival_size rs" arbitrary: rs buf s rule: less_induct)
  case (less arr)
  show ?case
  proof (cases arr)
    case (Cons a rs)
    then obtain bytes where arr: "arr = Data bytes # rs" "bytes \<noteq> []" using less.prems by (auto simp: only_data_def)
    define rest where "rest = drop (65536 - length buf) bytes"
    define more where "more = (if rest = [] then rs else Data rest # rs)"
    have more: "(if rest = [] then rs @ [Again] else Data rest # rs @ [Again]) = more @ [Again]" by (simp add: more_def)
    show ?thesis
    proof (cases "take (65536 - length buf) bytes = []")
      case False
      then have "arrival_size more < arrival_size arr" by (auto simp: more_def rest_def arr)
      moreover have "only_data more" using less.prems by (simp add: only_data_def more_def arr)
      ultimately have IH: "OnReceive handle closed close (more @ [Again]) b t = OnReceive handle closed close more b t" for b t
        using less.hyps by blast
      show ?thesis
        unfolding arr(1) append_Cons OnReceive.simps(4) Let_def rest_def [symmetric] more more_def [symmetric] IH by (rule refl)
    qed (simp add: arr OnReceive.simps(4))
  qed simp
qed

lemma arrived_again: "arrived (rs @ [Again]) = arrived rs"
  by (simp add: arrived_def)

lemma receive_all_lines:
  assumes "\<forall>rs\<in>set events. until_again rs" "\<forall>b\<in>set buf. \<not> line_end b" "\<not> closed s"
    and "split_lines buf (concat (map arrived events)) = (ls, rest)" "\<forall>l\<in>set ls. length l < 65536" "length rest < 65536"
  shows "snd (receive_all handle closed close events buf s) = handle_until handle closed ls s \<and>
    (closed (handle_until handle closed ls s) \<or> fst (receive_all handle closed close events buf s) = rest)"
  using assms
proof (induction events arbitrary: buf s ls)
  case (Cons rs events)
  define ds where "ds = butlast rs"
  have rs: "rs = ds @ [Again]" "only_data ds"
    using Cons.prems(1) append_butlast_last_id [of rs] by (auto simp: until_again_def ds_def)
  obtain l1 buf1 where s1: "split_lines buf (arrived ds) = (l1, buf1)" by fastforce
  obtain l2 where s2: "split_lines buf1 (concat (map arrived events)) = (l2, rest)" and ls: "ls = l1 @ l2"
    using Cons.prems(4) s1 rs by (auto simp: arrived_again split_lines_append split: prod.splits)
  have "length buf1 < 65536" using split_lines_cur [of buf1 "concat (map arrived events)" 65536] Cons.prems(5,6) s2 ls by simp
  then have on: "snd (OnReceive handle closed close rs buf s) = handle_until handle closed l1 s"
    "\<not> closed (handle_until handle closed l1 s) \<Longrightarrow> fst (OnReceive handle closed close rs buf s) = buf1"
    using OnReceive_lines [of ds buf closed s handle close] rs(2) Cons.prems(2,3,5) s1 ls
    by (simp_all add: rs(1) OnReceive_again [OF rs(2)])
  have no_end: "\<forall>b\<in>set buf1. \<not> line_end b" using split_lines_rest [OF Cons.prems(2), of "arrived ds"] s1 by simp
  show ?case
  proof (cases "closed (handle_until handle closed l1 s)")
    case True
    then have "l1 \<noteq> []" using Cons.prems(3) by auto
    then have "handle_until handle closed ls s = handle_until handle closed l1 s" using True by (simp add: ls handle_until_append)
    moreover have "snd (receive_all handle closed close (rs # events) buf s) = handle_until handle closed l1 s"
      using on(1) True Cons.prems(3) by (cases events) (auto split: prod.splits)
    ultimately show ?thesis using True by simp
  next
    case False
    then have "receive_all handle closed close (rs # events) buf s = receive_all handle closed close events buf1 (handle_until handle closed l1 s)"
      using on Cons.prems(3) by (auto split: prod.splits)
    moreover have "handle_until handle closed ls s = handle_until handle closed l2 (handle_until handle closed l1 s)"
      using False by (simp add: ls handle_until_append)
    ultimately show ?thesis
      using Cons.IH [of buf1 "handle_until handle closed l1 s" l2] no_end False s2 Cons.prems(1,5,6) ls by simp
  qed
qed simp

subsection \<open>Replies\<close>

text \<open>
  A reply as a server sends it: one line, or several of which the first has a hyphen behind the code and
  the last one the code and a space.
\<close>

datatype reply = Single wstring | Multi wstring "wstring list" wstring

fun reply_lines :: "reply \<Rightarrow> wstring list" where
  "reply_lines (Single line) = [line]"
| "reply_lines (Multi first lines final) = first # lines @ [final]"

fun final_line :: "reply \<Rightarrow> wstring" where
  "final_line (Single line) = line"
| "final_line (Multi first lines final) = final"

fun reply_ok :: "reply \<Rightarrow> bool" where
  "reply_ok (Single line) \<longleftrightarrow> length line > 3 \<and> line ! 3 \<noteq> 45"
| "reply_ok (Multi first lines final) \<longleftrightarrow>
     length first > 3 \<and> first ! 3 = 45 \<and> take 4 final = take 3 first @ [32] \<and>
     (\<forall>line\<in>set lines. take 4 line \<noteq> take 3 first @ [32])"

text \<open>What is handed to the operations for a line as it arrives, in the encoding of the connection.\<close>

definition take_line ::
  "'a fzconv_scheme \<Rightarrow> cserver \<Rightarrow> nat list \<Rightarrow> bool \<times> reply_state \<times> wstring list \<Rightarrow> bool \<times> reply_state \<times> wstring list" where
  "take_line conv server bytes =
     (\<lambda>(utf8, r, responses).
        case ConvToLocal conv server utf8 bytes of
          (line, utf8') \<Rightarrow> case ParseLine line r of (resp, r') \<Rightarrow> (utf8', r', responses @ (case resp of None \<Rightarrow> [] | Some x \<Rightarrow> [x])))"

text \<open>The lines as text; a line that is no UTF-8 can change the encoding for those that follow.\<close>

fun decode :: "'a fzconv_scheme \<Rightarrow> cserver \<Rightarrow> bool \<Rightarrow> nat list list \<Rightarrow> wstring list \<times> bool" where
  "decode conv server utf8 [] = ([], utf8)"
| "decode conv server utf8 (l # ls) =
     (case ConvToLocal conv server utf8 l of
        (line, utf8') \<Rightarrow> case decode conv server utf8' ls of (lines, utf8'') \<Rightarrow> (line # lines, utf8''))"

text \<open>The same without the conversion.\<close>

definition take_text :: "wstring \<Rightarrow> reply_state \<times> wstring list \<Rightarrow> reply_state \<times> wstring list" where
  "take_text line =
     (\<lambda>(r, responses). case ParseLine line r of (resp, r') \<Rightarrow> (r', responses @ (case resp of None \<Rightarrow> [] | Some x \<Rightarrow> [x])))"

lemma fold_take_line:
  "fold (take_line conv server) ls (utf8, x) = (snd (decode conv server utf8 ls), fold take_text (fst (decode conv server utf8 ls)) x)"
  by (induction ls arbitrary: utf8 x) (simp_all add: take_line_def take_text_def case_prod_beta)

lemma decode_take: "fst (decode conv server utf8 (take k ls)) = take k (fst (decode conv server utf8 ls))"
  by (induction ls arbitrary: k utf8) (auto simp: take_Cons case_prod_beta split: nat.split)

lemma fold_take_text_out: "\<exists>more. snd (fold take_text ls (r, out)) = out @ more"
proof (induction ls arbitrary: r out)
  case (Cons l ls)
  obtain r1 o1 where "take_text l (r, out) = (r1, out @ o1)" by (auto simp: take_text_def case_prod_beta)
  then show ?case using Cons.IH [of r1 "out @ o1"] by auto
qed simp

lemma fold_middle:
  "length code = 4 \<Longrightarrow> \<forall>line\<in>set lines. take 4 line \<noteq> code \<Longrightarrow>
    \<exists>kept. fold take_text lines (\<lparr>rs_code = code, rs_lines = ls\<rparr>, out) = (\<lparr>rs_code = code, rs_lines = kept\<rparr>, out)"
proof (induction lines arbitrary: ls)
  case (Cons line lines)
  have "code \<noteq> []" using Cons.prems(1) by auto
  then have "\<exists>k. take_text line (\<lparr>rs_code = code, rs_lines = ls\<rparr>, out) = (\<lparr>rs_code = code, rs_lines = k\<rparr>, out)"
    using Cons.prems(2) by (simp add: take_text_def ParseLine_def)
  then show ?case using Cons.IH [OF Cons.prems(1)] Cons.prems(2) by auto
qed simp

lemma fold_reply:
  assumes "reply_ok r"
  shows "fold take_text (reply_lines r) (no_reply, out) = (no_reply, out @ [final_line r])"
proof (cases r)
  case (Single line)
  then show ?thesis using assms by (simp add: take_text_def ParseLine_def no_reply_def)
next
  case (Multi first lines final)
  let ?code = "take 3 first @ [32]"
  have len: "length ?code = 4" "\<forall>line\<in>set lines. take 4 line \<noteq> ?code" using assms Multi by auto
  obtain kept where k: "fold take_text lines (\<lparr>rs_code = ?code, rs_lines = [first]\<rparr>, out) = (\<lparr>rs_code = ?code, rs_lines = kept\<rparr>, out)"
    using fold_middle [OF len] by blast
  have "take_text first (no_reply, out) = (\<lparr>rs_code = ?code, rs_lines = [first]\<rparr>, out)"
    using assms Multi by (simp add: take_text_def ParseLine_def no_reply_def)
  moreover have "length final > 3"
  proof -
    have "take 4 final = ?code" using assms Multi by simp
    then have "length (take 4 final) = 4" using len(1) by metis
    then show ?thesis by simp
  qed
  ultimately show ?thesis using assms Multi k by (simp add: take_text_def ParseLine_def)
qed

lemma fold_replies:
  "\<forall>r\<in>set rs. reply_ok r \<Longrightarrow> fold take_text (concat (map reply_lines rs)) (no_reply, out) = (no_reply, out @ map final_line rs)"
  by (induction rs arbitrary: out) (simp_all add: fold_reply)

lemma handle_until_fold:
  "\<exists>k. handle_until handle closed ls s = fold handle (take k ls) s \<and> (closed (fold handle (take k ls) s) \<or> take k ls = ls)"
proof (induction ls arbitrary: s)
  case (Cons l ls)
  show ?case
  proof (cases "closed (handle l s)")
    case True
    then show ?thesis by (intro exI [of _ 1]) simp
  next
    case False
    obtain k where "handle_until handle closed ls (handle l s) = fold handle (take k ls) (handle l s)"
      "closed (fold handle (take k ls) (handle l s)) \<or> take k ls = ls" using Cons.IH by blast
    then show ?thesis using False by (intro exI [of _ "Suc k"]) simp
  qed
qed simp


subsection \<open>The reply to PWD\<close>

lemma replace_doubled: "replace_all [c, c] [c] (concat (map (\<lambda>x. if x = c then [c, c] else [x]) s)) = s"
proof (induction s)
  case (Cons x s)
  show ?case
  proof (cases "x = c")
    case False
    then have "take (length [c, c]) (x # t) \<noteq> [c, c]" for t by (cases t) auto
    then show ?thesis using False Cons.IH by simp
  qed (use Cons.IH in simp)
qed simp

lemma quotes_around:
  assumes "q \<notin> set pre" "q \<notin> set post"
  shows "quotes q (pre @ q # s @ q # post) = Some (length pre, length pre + 1 + length s)"
proof -
  have "find_ch q (pre @ q # s @ q # post) = Some (length pre)"
  proof -
    have "\<forall>x\<in>set pre. \<not> x = q" using assms(1) by auto
    then show ?thesis using find_idx_append_None [of pre "\<lambda>x. x = q" "q # s @ q # post"] by (simp add: find_ch_def)
  qed
  moreover have "rfind_ch q (pre @ q # s @ q # post) = Some (length pre + 1 + length s)"
  proof -
    have "rfind_idx (\<lambda>x. x = q) post = None" using assms(2) by (auto simp: rfind_idx_None)
    then show ?thesis using rfind_idx_append [of "\<lambda>x. x = q" "pre @ q # s" "q # post"] by (simp add: rfind_ch_def)
  qed
  ultimately show ?thesis by (simp add: quotes_def)
qed

lemma SetPath_path_of:
  assumes "path_of s t = p" "m_data p \<noteq> None" "t \<noteq> DEFAULT" "m_type c = t"
  shows "SetPath c s False = (True, p, s)" "s \<noteq> []"
proof -
  show ne: "s \<noteq> []" using assms(1,2) by (auto simp: path_of_def SetPath_def)
  obtain ok q u where q: "ChangePath \<lparr>m_data = None, m_type = t\<rparr> s False = (ok, q, u)" by (metis prod.exhaust)
  have "q = p" using assms(1,3) ne q by (simp add: path_of_def SetPath_def)
  moreover have ok using q \<open>q = p\<close> assms(2) by (auto simp: ChangePath_def clear_path_def split: option.splits)
  ultimately show "SetPath c s False = (True, p, s)" using assms(3,4) ne q by (simp add: SetPath_def)
qed

text \<open>The type by which \<^verbatim>\<open>ParsePwdReply\<close> reads a path: that of the server or of the current path, or the one that the string shows.\<close>

definition type_in_force :: "cserver \<Rightarrow> server_path \<Rightarrow> wstring \<Rightarrow> server_type" where
  "type_in_force server cur s =
     (let t = m_type (snd (SetType cur (srv_type server))) in if t = DEFAULT then detect_type s False else t)"

lemma detect_type_known: "detect_type s f \<noteq> DEFAULT"
  by (simp add: detect_type_def split: option.splits)

lemma SetPath_in_force:
  assumes "s \<noteq> []"
  shows "SetPath (snd (SetType cur (srv_type server))) s False = SetPath \<lparr>m_data = None, m_type = type_in_force server cur s\<rparr> s False"
  using assms detect_type_known [of s False] by (simp add: SetPath_def type_in_force_def Let_def)

lemma SetPath_type:
  assumes "SetPath \<lparr>m_data = None, m_type = t\<rparr> s False = (True, p, u)" "t \<noteq> DEFAULT"
  shows "m_type p = t \<and> path_of s t = p"
  using assms by (auto simp: SetPath_def path_of_def ChangePath_def split: prod.splits option.splits if_splits dest: DoChangePath_type)

lemma detect_unix:
  assumes "s \<noteq> []" "hd s = 47"
  shows "detect_type s False = (if find_sub [58, 91] s \<noteq> None \<and> last s = 93 then VMS else UNIX)"
proof -
  have l: "rfind_idx (\<lambda>c. c = 93) s = Some i \<Longrightarrow> Suc i = length s \<longleftrightarrow> last s = 93" for i
    using assms(1) rfind_idx_SomeD [of "\<lambda>c. c = 93" s i] rfind_idx_snoc [of "\<lambda>c. c = 93" 93 "butlast s"]
    by (metis One_nat_def append_butlast_last_id diff_Suc_1 last_conv_nth length_butlast option.inject Suc_pred length_greater_0_conv)
  have n: "rfind_idx (\<lambda>c. c = 93) s = None \<Longrightarrow> last s \<noteq> 93"
    using assms(1) last_in_set [of s] by (auto simp: rfind_idx_None)
  have "at s 0 = 47" using assms by (cases s) (simp_all add: at_def)
  then show ?thesis using l n by (auto simp: detect_type_def is_letter_def MVS_QUOTE_def split: option.split)
qed

lemma GetPath_unix_first:
  assumes "m_type p = UNIX" "wf_path p" "\<not> path_empty p"
  shows "GetPath lib p \<noteq> [] \<and> hd (GetPath lib p) = 47"
  using assms by (cases "segments_of p")
    (auto simp: GetPath_def path_empty_def wf_path_def wf_data_def prefix_ok_def segments_of_def print_segments_def prefix_str_def enclosure_def)

text \<open>The reply names the path between quotes, with its own quotes doubled.\<close>

definition quoted :: "wstring \<Rightarrow> wstring" where
  "quoted s = [34] @ concat (map (\<lambda>c. if c = 34 then [34, 34] else [c]) s) @ [34]"

text \<open>
  C32: When a server names a well-formed, non-empty directory in its reply to \<^verbatim>\<open>PWD\<close>, between quotes, with the quotes in the name
  doubled and no quotes before or behind, the current path becomes that directory if it is read by the right type and is
  not one of the MVS paths that have no printed form. Without a default path to fall back to, it does so only then. On a server whose type is
  not known, and with no current path yet, the type is guessed: a Unix directory is understood exactly if its name does
  not contain \<^verbatim>\<open>:[\<close> and end with a bracket, which makes it look like one of VMS.
\<close>

theorem pwd_reply_roundtrip:
  assumes "replace_substrings_all lib" "wf_path p" "m_type p \<noteq> DEFAULT" "\<not> path_empty p" "34 \<notin> set before" "34 \<notin> set after"
  shows "let result = ParsePwdReply lib server (before @ quoted (GetPath lib p) @ after) dflt cur;
      understood = (type_in_force server cur (GetPath lib p) = m_type p \<and> (m_type p = MVS \<longrightarrow> mvs_printable (get_data p)))
    in (understood \<longrightarrow> result = (True, p)) \<and>
    (path_empty dflt \<longrightarrow> (result = (True, p) \<longleftrightarrow> understood)) \<and>
    (m_type p = UNIX \<and> srv_type server = DEFAULT \<and> path_empty cur \<longrightarrow>
      (understood \<longleftrightarrow> \<not> (find_sub [58, 91] (GetPath lib p) \<noteq> None \<and> last (GetPath lib p) = 93)))"
proof -
  let ?s = "GetPath lib p" and ?t = "type_in_force server cur (GetPath lib p)"
  define result where "result = ParsePwdReply lib server (before @ quoted ?s @ after) dflt cur"
  define understood where "understood \<longleftrightarrow> ?t = m_type p \<and> (m_type p = MVS \<longrightarrow> mvs_printable (get_data p))"
  have path: "pwd_path lib (before @ quoted ?s @ after) = ?s"
    using assms(1) quotes_around [OF assms(5,6), of "concat (map (\<lambda>c. if c = 34 then [34, 34] else [c]) ?s)"]
    by (simp add: pwd_path_def quoted_def replace_substrings_all_def replace_doubled)
  have ne: "?s \<noteq> []" by (rule GetPath_nonempty [OF replace_substrings_all_char [OF assms(1)] assms(2,4)])
  have t: "?t \<noteq> DEFAULT" using detect_type_known [of ?s False] by (simp add: type_in_force_def Let_def)
  obtain ok q u where q: "SetPath \<lparr>m_data = None, m_type = ?t\<rparr> ?s False = (ok, q, u)" using prod_cases3 by blast
  have r: "result = (if ok then (True, q) else if \<not> path_empty dflt then (True, dflt) else (False, q))"
    unfolding result_def ParsePwdReply_def path Let_def SetPath_in_force [OF ne] q using ne by simp
  have rt: "path_of ?s (m_type p) = p \<longleftrightarrow> (m_type p = MVS \<longrightarrow> mvs_printable (get_data p))"
    using path_roundtrip_iff [OF replace_substrings_all_char [OF assms(1)] assms(2-4)] by blast
  have "ok \<and> q = p \<longleftrightarrow> understood"
  proof
    assume "ok \<and> q = p"
    then show understood using SetPath_type [of ?t ?s p u] q t rt by (auto simp: understood_def)
  next
    assume u: understood
    then have "m_data p \<noteq> None" "path_of ?s ?t = p" using assms(4) rt by (auto simp: understood_def path_empty_def)
    then show "ok \<and> q = p" using SetPath_path_of(1) [of ?s ?t p "\<lparr>m_data = None, m_type = ?t\<rparr>"] t q by simp
  qed
  moreover have "understood \<longleftrightarrow> \<not> (find_sub [58, 91] ?s \<noteq> None \<and> last ?s = 93)"
    if "m_type p = UNIX" "srv_type server = DEFAULT" "path_empty cur"
    using detect_unix [of ?s] GetPath_unix_first [OF that(1) assms(2,4), of lib] that
    by (auto simp: understood_def type_in_force_def SetType_def)
  ultimately show ?thesis using r unfolding Let_def understood_def [symmetric] result_def [symmetric] by auto
qed

subsection \<open>Examples\<close>

text \<open>UTF-8 of two bytes for the one character used here, and no UTF-8 if another byte is not ASCII.\<close>

fun small_utf8 :: "nat list \<Rightarrow> wstring" where
  "small_utf8 [] = []"
| "small_utf8 (b # bs) =
     (if b < 128 then b # small_utf8 bs
      else case bs of c # cs \<Rightarrow> if b = 195 \<and> c = 169 then 233 # small_utf8 cs else [] | [] \<Rightarrow> [])"

definition small_conv :: fzconv where
  "small_conv = \<lparr>from_utf8 = small_utf8, conv_to_local = (\<lambda>e s. s)\<rparr>"

definition two_replies :: "reply list" where
  "two_replies = [Multi (L ''211-Caf'' @ [233]) [L '' MDTM''] (L ''211 End''), Single (L ''250 ok'')]"

text \<open>Two notifications, the first of which ends within a line and within a character.\<close>

definition two_events :: "arrival list list" where
  "two_events = [[Data (L ''211-''), Data (L ''Caf'' @ [195]), Again],
     [Data ([169, 13, 10] @ L '' MDTM'' @ [13]), Data ([10] @ L ''211 End'' @ [13, 10] @ L ''250 ok'' @ [13, 10] @ L ''22''), Again]]"


definition quoted_dir :: server_path where
  "quoted_dir = \<lparr>m_data = Some \<lparr>m_segments = [L ''a'' @ [34], L ''b''], m_prefix = None\<rparr>, m_type = UNIX\<rparr>"

theorem pwd_reply_roundtrip_witness:
  "ParsePwdReply ascii_lib empty_server (L ''257 '' @ quoted (GetPath ascii_lib quoted_dir) @ L '' is cwd'') empty_path empty_path =
     (True, quoted_dir)"
proof -
  have "wf_path quoted_dir" "m_type quoted_dir = UNIX" "\<not> path_empty quoted_dir" "srv_type empty_server = DEFAULT" "path_empty empty_path"
    by (simp_all add: quoted_dir_def wf_path_def wf_data_def segs_ok_def seg_ok_def prefix_ok_def path_empty_def empty_path_def empty_server_def)
  moreover have "find_sub [58, 91] (GetPath ascii_lib quoted_dir) = None" by code_simp
  ultimately show ?thesis
    using pwd_reply_roundtrip [of ascii_lib quoted_dir "L ''257 ''" "L '' is cwd''" empty_server empty_path empty_path] by (simp add: Let_def)
qed

end
