(* ===== verification/Capabilities.thy ===== *)
theory Capabilities
  imports Server_Props
begin

text \<open>
  What is known about the features of a server (\<^verbatim>\<open>engine/servercapabilities.{h,cpp}\<close>). The map of the
  servers is a list in the order of their keys.
\<close>

datatype capabilities = cap_unknown | cap_yes | cap_no

datatype capabilityNames =
    resume2GBbug | resume4GBbug | syst_command | feat_command | clnt_command | utf8_command | mlsd_command
  | opst_mlst_command | mfmt_command | mdtm_command | size_command | mode_z_support | tvfs_support
  | list_hidden_support | rest_stream | epsv_command | inferred_timezone_offset | auth_tls_command
  | auth_ssl_command | tls_resumption

record t_cap =
  tc_cap :: capabilities
  tc_option :: wstring
  tc_number :: int

type_synonym server_caps = "capabilityNames \<rightharpoonup> t_cap"
type_synonym capability_map = "(cserver \<times> server_caps) list"

definition get_cap :: "capabilityNames \<Rightarrow> server_caps \<Rightarrow> capabilities" where
  "get_cap name caps = (case caps name of None \<Rightarrow> cap_unknown | Some t \<Rightarrow> tc_cap t)"

text \<open>The value that the overloads with an output argument leave in it, given the old one.\<close>

definition get_cap_option :: "capabilityNames \<Rightarrow> wstring \<Rightarrow> server_caps \<Rightarrow> wstring" where
  "get_cap_option name old caps =
     (case caps name of None \<Rightarrow> old | Some t \<Rightarrow> if tc_cap t = cap_yes then tc_option t else old)"

definition get_cap_number :: "capabilityNames \<Rightarrow> int \<Rightarrow> server_caps \<Rightarrow> int" where
  "get_cap_number name old caps =
     (case caps name of None \<Rightarrow> old | Some t \<Rightarrow> if tc_cap t = cap_yes then tc_number t else old)"

text \<open>\<^const>\<open>None\<close> is a failed assertion.\<close>

definition set_cap_option :: "capabilityNames \<Rightarrow> capabilities \<Rightarrow> wstring \<Rightarrow> server_caps \<Rightarrow> server_caps option" where
  "set_cap_option name cap opt caps =
     (if cap = cap_yes \<or> opt = [] then Some (caps(name \<mapsto> \<lparr>tc_cap = cap, tc_option = opt, tc_number = 0\<rparr>)) else None)"

definition set_cap_number :: "capabilityNames \<Rightarrow> capabilities \<Rightarrow> int \<Rightarrow> server_caps \<Rightarrow> server_caps option" where
  "set_cap_number name cap n caps =
     (if cap = cap_yes \<or> n = 0 then Some (caps(name \<mapsto> \<lparr>tc_cap = cap, tc_option = [], tc_number = n\<rparr>)) else None)"

definition caps_of :: "cserver \<Rightarrow> capability_map \<Rightarrow> server_caps" where
  "caps_of server m = (case omap_find server_less server m of None \<Rightarrow> Map.empty | Some caps \<Rightarrow> caps)"

definition GetCapability :: "cserver \<Rightarrow> capabilityNames \<Rightarrow> capability_map \<Rightarrow> capabilities" where
  "GetCapability server name m =
     (case omap_find server_less server m of None \<Rightarrow> cap_unknown | Some caps \<Rightarrow> get_cap name caps)"

definition GetCapability_option :: "cserver \<Rightarrow> capabilityNames \<Rightarrow> wstring \<Rightarrow> capability_map \<Rightarrow> wstring" where
  "GetCapability_option server name old m =
     (case omap_find server_less server m of None \<Rightarrow> old | Some caps \<Rightarrow> get_cap_option name old caps)"

definition GetCapability_number :: "cserver \<Rightarrow> capabilityNames \<Rightarrow> int \<Rightarrow> capability_map \<Rightarrow> int" where
  "GetCapability_number server name old m =
     (case omap_find server_less server m of None \<Rightarrow> old | Some caps \<Rightarrow> get_cap_number name old caps)"

definition SetCapability_option ::
  "cserver \<Rightarrow> capabilityNames \<Rightarrow> capabilities \<Rightarrow> wstring \<Rightarrow> capability_map \<Rightarrow> capability_map option" where
  "SetCapability_option server name cap opt m =
     map_option (\<lambda>caps. omap_set server_less server caps m) (set_cap_option name cap opt (caps_of server m))"

definition SetCapability_number ::
  "cserver \<Rightarrow> capabilityNames \<Rightarrow> capabilities \<Rightarrow> int \<Rightarrow> capability_map \<Rightarrow> capability_map option" where
  "SetCapability_number server name cap n m =
     map_option (\<lambda>caps. omap_set server_less server caps m) (set_cap_number name cap n (caps_of server m))"

text \<open>The call without an option.\<close>

definition SetCapability :: "cserver \<Rightarrow> capabilityNames \<Rightarrow> capabilities \<Rightarrow> capability_map \<Rightarrow> capability_map" where
  "SetCapability server name cap m =
     omap_set server_less server
       ((caps_of server m)(name \<mapsto> \<lparr>tc_cap = cap, tc_option = [], tc_number = 0\<rparr>)) m"

lemma SetCapability_default: "SetCapability_option server name cap [] m = Some (SetCapability server name cap m)"
  by (simp add: SetCapability_option_def SetCapability_def set_cap_option_def)

subsection \<open>Setting and reading\<close>

definition set_caps :: "cserver \<Rightarrow> capabilityNames \<Rightarrow> t_cap \<Rightarrow> capability_map \<Rightarrow> capability_map" where
  "set_caps server name t m = omap_set server_less server ((caps_of server m)(name \<mapsto> t)) m"

lemma caps_of_set:
  assumes "omap_ok server_less m"
  shows "caps_of server' (set_caps server name t m) =
    (if eqv server_less server server' then (caps_of server m)(name \<mapsto> t) else caps_of server' m)"
  using servers.omap_find_set [OF assms, of server' server "(caps_of server m)(name \<mapsto> t)"]
  by (auto simp: set_caps_def caps_of_def)

lemma caps_of_eqv: "omap_ok server_less m \<Longrightarrow> eqv server_less server server' \<Longrightarrow> caps_of server m = caps_of server' m"
  using servers.omap_find_eqv [where k = server and k' = server' and m = m] by (simp add: caps_of_def)

lemma GetCapability_caps: "GetCapability server name m = get_cap name (caps_of server m)"
  "GetCapability_option server name opt m = get_cap_option name opt (caps_of server m)"
  "GetCapability_number server name old m = get_cap_number name old (caps_of server m)"
  by (simp_all add: GetCapability_def GetCapability_option_def GetCapability_number_def caps_of_def get_cap_def get_cap_option_def
      get_cap_number_def split: option.split)

lemma SetCapability_caps:
  "SetCapability_option server name cap opt m =
     (if cap = cap_yes \<or> opt = [] then Some (set_caps server name \<lparr>tc_cap = cap, tc_option = opt, tc_number = 0\<rparr> m) else None)"
  "SetCapability_number server name cap n m =
     (if cap = cap_yes \<or> n = 0 then Some (set_caps server name \<lparr>tc_cap = cap, tc_option = [], tc_number = n\<rparr> m) else None)"
  by (simp_all add: SetCapability_option_def SetCapability_number_def set_cap_option_def set_cap_number_def set_caps_def)

text \<open>Everything that can be read for a capability: its value, and what the two overloads leave in their output argument.\<close>

definition read_capability :: "cserver \<Rightarrow> capabilityNames \<Rightarrow> wstring \<Rightarrow> int \<Rightarrow> capability_map \<Rightarrow> capabilities \<times> wstring \<times> int" where
  "read_capability server name opt n m = (GetCapability server name m, GetCapability_option server name opt m, GetCapability_number server name n m)"

lemma read_set_caps:
  assumes "omap_ok server_less m"
  shows "read_capability server' name' opt' n' (set_caps server name t m) =
    (if eqv server_less server server' \<and> name' = name then
       (tc_cap t, if tc_cap t = cap_yes then tc_option t else opt', if tc_cap t = cap_yes then tc_number t else n')
     else read_capability server' name' opt' n' m)"
  using caps_of_eqv [OF assms, of server server']
  by (auto simp: read_capability_def GetCapability_caps caps_of_set [OF assms] get_cap_def get_cap_option_def get_cap_number_def)



end
