(* ===== verification/Ftp_Data.thy ===== *)
theory Ftp_Data
  imports Ftp_Reply Op_Locks Path_Cache Directory_Cache Capabilities "HOL-Library.Monad_Syntax"
begin

text \<open>
  The data of the operations of an FTP connection (\<^verbatim>\<open>engine/ftp/*.h\<close>) and the state of the control socket they
  work on (\<^verbatim>\<open>engine/controlsocket.h\<close>, \<^verbatim>\<open>engine/ftp/ftpcontrolsocket.h\<close>). Logon, raw transfers and file transfers
  are operations of other modules; here they are only named.
\<close>

subsection \<open>The data of the operations\<close>

datatype cwd_state = cwd_init | cwd_pwd | cwd_cwd | cwd_pwd_cwd | cwd_cwd_subdir | cwd_pwd_subdir

record cwd_op =
  cw_state :: cwd_state
  cw_tryMkdOnFail :: bool
  cw_link_discovery :: bool
  cw_path :: server_path
  cw_subDir :: wstring
  cw_target :: server_path
  cw_tried_cdup :: bool

datatype mkd_state = mkd_init | mkd_findparent | mkd_mkdsub | mkd_cwdsub | mkd_tryfull

text \<open>The last element of \<^verbatim>\<open>segments_\<close> is the head of the list.\<close>

record mkd_op =
  mk_state :: mkd_state
  mk_path :: server_path
  mk_currentMkdPath :: server_path
  mk_commonParent :: server_path
  mk_segments :: "wstring list"

datatype rmd_state = rmd_init | rmd_waitcwd | rmd_rmd

record rmd_op =
  rm_state :: rmd_state
  rm_path :: server_path
  rm_fullPath :: server_path
  rm_subDir :: wstring
  rm_omitPath :: bool

datatype del_state = del_init | del_waitcwd | del_del

text \<open>The last element of \<^verbatim>\<open>files_\<close> is the head of the list. A clock that is not set is \<^const>\<open>None\<close>.\<close>

record del_op =
  dl_state :: del_state
  dl_path :: server_path
  dl_files :: "wstring list"
  dl_omitPath :: bool
  dl_time :: "int option"
  dl_needSendListing :: bool
  dl_deleteFailed :: bool

datatype rename_state = rename_init | rename_waitcwd | rename_rnfrom | rename_rnto

record rename_op =
  rn_state :: rename_state
  rn_fromPath :: server_path
  rn_fromFile :: wstring
  rn_toPath :: server_path
  rn_toFile :: wstring
  rn_useAbsolute :: bool

datatype chmod_state = chmod_init | chmod_waitcwd | chmod_chmod

record chmod_op =
  ch_state :: chmod_state
  ch_path :: server_path
  ch_file :: wstring
  ch_permission :: wstring
  ch_useAbsolute :: bool

datatype list_state = list_init | list_waitcwd | list_waitlock | list_waittransfer | list_mdtm

datatype TransferEndReason =
    reason_none | reason_successful | reason_timeout | reason_transfer_failure | reason_transfer_failure_critical
  | reason_pre_transfer_command_failure | reason_transfer_command_failure_immediate | reason_transfer_command_failure
  | reason_failure | reason_failed_resumetest | reason_failed_tls_resumption

record list_op =
  lo_state :: list_state
  lo_dir :: server_path
  lo_subDir :: wstring
  lo_link :: bool
  lo_fallback :: bool
  lo_refresh :: bool
  lo_listing :: listing
  lo_viewHiddenCheck :: bool
  lo_viewHidden :: bool
  lo_mdtm_index :: nat
  lo_time_before_locking :: int
  lo_transferEndReason :: TransferEndReason
  lo_commandSent :: bool

datatype other_op = Logon bool | RawTransfer wstring | FileTransfer bool

datatype op_data =
    Cwd cwd_op | Mkd mkd_op | Rmd rmd_op | Del del_op | Ren rename_op | Chm chmod_op | Raw wstring | Lst list_op
  | Other other_op

text \<open>An operation with the variable that is its \<^verbatim>\<open>opLock_\<close>.\<close>

record operation =
  op_data :: op_data
  op_var :: nat

subsection \<open>The connection\<close>

datatype ftp_output = Sent wstring | Listing server_path bool bool | InvalidDirs cserver server_path | Finished int

text \<open>
  A control socket with what the engines share: the caches, the locks and the capabilities. The top of the
  stack of operations is the head of the list. \<open>fs_next\<close> is the next lock variable.
\<close>

record ftp =
  fs_id :: nat
  fs_server :: cserver
  fs_path :: server_path
  fs_ops :: "operation list"
  fs_invalidate :: bool
  fs_response :: wstring
  fs_pending :: int
  fs_skip :: int
  fs_connected :: bool
  fs_lastTypeBinary :: int
  fs_dirs :: dir_cache
  fs_paths :: path_cache
  fs_locks :: lock_system
  fs_caps :: capability_map
  fs_next :: nat
  fs_out :: "ftp_output list"

text \<open>
  What a handler finds: the time, whether a command can be converted to the charset of the server,
  whether the socket can be written, the option to view hidden files, the listing that the parser makes of
  the data received, and the date and time functions of the library.
\<close>

record ftp_env =
  env_now :: int
  env_conv :: "wstring \<Rightarrow> bool"
  env_write :: bool
  env_hidden :: bool
  env_parse :: "server_path \<Rightarrow> listing"
  env_datetime :: "wstring \<Rightarrow> int option"
  env_has_date :: "direntry \<Rightarrow> bool"
  env_has_time :: "direntry \<Rightarrow> bool"
  env_has_seconds :: "direntry \<Rightarrow> bool"
  env_add_time :: "int \<Rightarrow> int \<Rightarrow> int"         \<comment> \<open>\<^verbatim>\<open>fz::datetime::operator+=\<close> of a duration in milliseconds, \<^verbatim>\<open>operator-=\<close> of its opposite\<close>
  env_seconds_between :: "int \<Rightarrow> int \<Rightarrow> int"  \<comment> \<open>\<^verbatim>\<open>fz::duration::get_seconds\<close> of the difference of two dates\<close>

definition server_valid :: "cserver \<Rightarrow> bool" where
  "server_valid server \<longleftrightarrow> srv_host server \<noteq> []"

definition emit :: "ftp_output \<Rightarrow> ftp \<Rightarrow> ftp" where
  "emit x w = w\<lparr>fs_out := fs_out w @ [x]\<rparr>"

text \<open>\<^verbatim>\<open>CRealControlSocket::Send\<close>.\<close>

definition real_send :: "ftp_env \<Rightarrow> wstring \<Rightarrow> ftp \<Rightarrow> int \<times> ftp" where
  "real_send env cmd w =
     (if \<not> fs_connected w then (FZ_REPLY_INTERNALERROR, w)
      else if \<not> env_write env then (FZ_REPLY_ERROR OR FZ_REPLY_DISCONNECTED, w)
      else (FZ_REPLY_WOULDBLOCK, emit (Sent cmd) w))"

text \<open>The result of \<^verbatim>\<open>Send\<close> is assigned to a \<^verbatim>\<open>bool\<close>.\<close>

definition SendCommand :: "ftp_env \<Rightarrow> wstring \<Rightarrow> ftp \<Rightarrow> int \<times> ftp" where
  "SendCommand env cmd w =
     (if \<not> env_conv env cmd then (FZ_REPLY_ERROR, w)
      else case real_send env cmd w of
        (r, w1) \<Rightarrow>
          let res = (r \<noteq> 0)
          in (if res then FZ_REPLY_WOULDBLOCK else FZ_REPLY_ERROR, if res then w1\<lparr>fs_pending := fs_pending w1 + 1\<rparr> else w1))"

definition SendDirectoryListingNotification :: "server_path \<Rightarrow> bool \<Rightarrow> ftp \<Rightarrow> ftp" where
  "SendDirectoryListingNotification path failed w =
     (if \<not> server_valid (fs_server w) then w
      else emit (Listing path
        (case fs_ops w of [op] \<Rightarrow> (case op_data op of Lst _ \<Rightarrow> True | _ \<Rightarrow> False) | _ \<Rightarrow> False) failed) w)"

definition InvalidateCurrentWorkingDirs :: "server_path \<Rightarrow> ftp \<Rightarrow> ftp" where
  "InvalidateCurrentWorkingDirs path w =
     (if \<not> server_valid (fs_server w) then w else emit (InvalidDirs (fs_server w) path) w)"

text \<open>A lookup in the path cache, which counts hits and misses.\<close>

definition lookup_path :: "'a fzlib_scheme \<Rightarrow> server_path \<Rightarrow> wstring \<Rightarrow> ftp \<Rightarrow> server_path \<times> ftp" where
  "lookup_path lib path subdir w =
     (case pc_Lookup lib (fs_server w) path subdir (fs_paths w) of (p, c) \<Rightarrow> (p, w\<lparr>fs_paths := c\<rparr>))"

definition store_path :: "'a fzlib_scheme \<Rightarrow> server_path \<Rightarrow> wstring \<Rightarrow> ftp \<Rightarrow> ftp option" where
  "store_path lib source subdir w =
     map_option (\<lambda>c. w\<lparr>fs_paths := c\<rparr>) (pc_Store lib (fs_server w) (fs_path w) source subdir (fs_paths w))"

definition store_listing :: "'a fzlib_scheme \<Rightarrow> ftp_env \<Rightarrow> listing \<Rightarrow> ftp \<Rightarrow> ftp option" where
  "store_listing lib env l w =
     map_option (\<lambda>c. w\<lparr>fs_dirs := c\<rparr>) (Store lib (env_now env) l (fs_server w) (fs_dirs w))"

text \<open>\<^verbatim>\<open>if (!opLock_) { opLock_ = controlSocket_.Lock(reason, path); }\<close>\<close>

definition take_lock :: "'a fzlib_scheme \<Rightarrow> nat \<Rightarrow> locking_reason \<Rightarrow> server_path \<Rightarrow> ftp \<Rightarrow> ftp" where
  "take_lock lib v reason path w =
     (if ol_mgr (sys_vars (fs_locks w) v) then w
      else w\<lparr>fs_locks := acquire lib v (fs_id w) (fs_server w) reason path False (fs_locks w)\<rparr>)"

definition lock_waits :: "nat \<Rightarrow> ftp \<Rightarrow> bool option" where
  "lock_waits v w = waiting (sys_vars (fs_locks w) v) (sys_mgr (fs_locks w))"

text \<open>
  What a handler returns: its result, the operation, the connection, and the operations it pushed, top
  first. The stack in the connection is still the one from before.
\<close>

type_synonym 'd outcome = "(int \<times> 'd \<times> ftp \<times> op_data list) option"

definition ok_code :: "ftp \<Rightarrow> bool" where
  "ok_code w \<longleftrightarrow> GetReplyCode (fs_response w) = 2 \<or> GetReplyCode (fs_response w) = 3"

definition send_as :: "ftp_env \<Rightarrow> wstring \<Rightarrow> 'd \<Rightarrow> ftp \<Rightarrow> 'd outcome" where
  "send_as env cmd d w = (case SendCommand env cmd w of (res, w1) \<Rightarrow> Some (res, d, w1, []))"

end
