(* ===== verification/Ftp_Ops.thy ===== *)
theory Ftp_Ops
  imports Ftp_Data
begin

text \<open>
  The operations of an FTP connection but for listings (\<^verbatim>\<open>engine/ftp/{cwd,mkd,rmd,delete,rename,chmod,rawcommand}.cpp\<close>):
  their \<^verbatim>\<open>Send\<close>, \<^verbatim>\<open>ParseResponse\<close>, \<^verbatim>\<open>SubcommandResult\<close> and \<^verbatim>\<open>Reset\<close>. A handler gives \<^const>\<open>None\<close> if it fails an
  assertion or reads a vector out of range.
\<close>

subsection \<open>Changing the directory\<close>

text \<open>The data that \<^verbatim>\<open>ChangeDir\<close> pushes on top of the operations \<open>ops\<close>.\<close>

definition ChangeDir :: "server_path \<Rightarrow> wstring \<Rightarrow> bool \<Rightarrow> operation list \<Rightarrow> op_data option" where
  "ChangeDir path subDir link_discovery ops =
     (let upload = (case ops of op # _ \<Rightarrow> (case op_data op of Other (FileTransfer download) \<Rightarrow> \<not> download | _ \<Rightarrow> False) | [] \<Rightarrow> False)
      in if upload \<and> subDir \<noteq> [] then None
         else Some (Cwd \<lparr>cw_state = cwd_init, cw_tryMkdOnFail = upload, cw_link_discovery = link_discovery, cw_path = path,
           cw_subDir = subDir, cw_target = empty_path, cw_tried_cdup = False\<rparr>))"

definition Mkdir :: "server_path \<Rightarrow> op_data" where
  "Mkdir path = Mkd \<lparr>mk_state = mkd_init, mk_path = path, mk_currentMkdPath = empty_path, mk_commonParent = empty_path,
     mk_segments = []\<rparr>"

definition cwd_start :: "'a fzlib_scheme \<Rightarrow> cwd_op \<Rightarrow> ftp \<Rightarrow> int \<times> cwd_op \<times> ftp" where
  "cwd_start lib d w =
     (let path = (if m_type (cw_path d) = DEFAULT then snd (SetType (cw_path d) (srv_type (fs_server w))) else cw_path d);
          d = d\<lparr>cw_path := path\<rparr>; current = fs_path w
      in if path_empty path then
           if path_empty current then (FZ_REPLY_CONTINUE, d\<lparr>cw_state := cwd_pwd\<rparr>, w) else (FZ_REPLY_OK, d, w)
         else if cw_subDir d \<noteq> [] then
           (case lookup_path lib path (cw_subDir d) w of
              (target, w1) \<Rightarrow>
                if \<not> path_empty target then
                  if path_eq current target then (FZ_REPLY_OK, d\<lparr>cw_target := target\<rparr>, w1)
                  else (FZ_REPLY_CONTINUE, d\<lparr>cw_target := target, cw_path := target, cw_subDir := [], cw_state := cwd_cwd\<rparr>, w1)
                else
                  (case lookup_path lib path [] w1 of
                     (target2, w2) \<Rightarrow>
                       if path_eq current path \<or> \<not> path_empty target2 \<and> path_eq target2 current
                       then (FZ_REPLY_CONTINUE, d\<lparr>cw_target := clear_path target2, cw_state := cwd_cwd_subdir\<rparr>, w2)
                       else (FZ_REPLY_CONTINUE, d\<lparr>cw_target := target2, cw_state := cwd_cwd\<rparr>, w2)))
         else
           (case lookup_path lib path [] w of
              (target, w1) \<Rightarrow>
                if path_eq current path \<or> \<not> path_empty target \<and> path_eq target current
                then (FZ_REPLY_OK, d\<lparr>cw_target := target\<rparr>, w1)
                else (FZ_REPLY_CONTINUE, d\<lparr>cw_target := target, cw_state := cwd_cwd\<rparr>, w1)))"

definition clear_current :: "ftp \<Rightarrow> ftp" where
  "clear_current w = w\<lparr>fs_path := clear_path (fs_path w)\<rparr>"

text \<open>The current path is cleared before the command is sent.\<close>

definition cwd_Send :: "'a fzlib_scheme \<Rightarrow> ftp_env \<Rightarrow> nat \<Rightarrow> cwd_op \<Rightarrow> ftp \<Rightarrow> cwd_op outcome" where
  "cwd_Send lib env v d w =
     (case cw_state d of
        cwd_init \<Rightarrow> (case cwd_start lib d w of (res, d1, w1) \<Rightarrow> Some (res, d1, w1, []))
      | cwd_cwd \<Rightarrow>
          let w1 = (if cw_tryMkdOnFail d then take_lock lib v reason_mkdir (cw_path d) w else w)
          in do {
            waits \<leftarrow> lock_waits v w1;
            if waits then Some (FZ_REPLY_WOULDBLOCK, d\<lparr>cw_tryMkdOnFail := False\<rparr>, w1, [])
            else send_as env (L ''CWD '' @ GetPath lib (cw_path d)) d (clear_current w1)
          }
      | cwd_cwd_subdir \<Rightarrow>
          if cw_subDir d = [] then Some (FZ_REPLY_INTERNALERROR, d, w, [])
          else if cw_subDir d = L ''..'' \<and> \<not> cw_tried_cdup d then send_as env (L ''CDUP'') d (clear_current w)
          else send_as env (L ''CWD '' @ FormatSubdir lib (cw_path d) (cw_subDir d)) d (clear_current w)
      | _ \<Rightarrow> send_as env (L ''PWD'') d w)"

text \<open>\<^verbatim>\<open>ParsePwdReply\<close> on the current path of the connection.\<close>

definition parse_pwd :: "'a fzlib_scheme \<Rightarrow> server_path \<Rightarrow> ftp \<Rightarrow> bool \<times> ftp" where
  "parse_pwd lib defaultPath w =
     (case ParsePwdReply lib (fs_server w) (fs_response w) defaultPath (fs_path w) of (ok, p) \<Rightarrow> (ok, w\<lparr>fs_path := p\<rparr>))"

definition cwd_known :: "'a fzlib_scheme \<Rightarrow> cwd_op \<Rightarrow> ftp \<Rightarrow> cwd_op outcome" where
  "cwd_known lib d w =
     do {
       w1 \<leftarrow> if path_empty (cw_target d) then store_path lib (cw_path d) [] w else Some w;
       if cw_subDir d = [] then Some (FZ_REPLY_OK, d, w1, [])
       else Some (FZ_REPLY_CONTINUE, d\<lparr>cw_state := cwd_cwd_subdir\<rparr>, w1, [])
     }"

definition assumed_path :: "cwd_op \<Rightarrow> server_path" where
  "assumed_path d =
     (if cw_subDir d = L ''..'' then
        if \<not> HasParent (cw_path d) then clear_path (cw_path d) else GetParent (cw_path d)
      else snd (AddSegment (cw_path d) (cw_subDir d)))"

definition cwd_known_subdir :: "'a fzlib_scheme \<Rightarrow> cwd_op \<Rightarrow> ftp \<Rightarrow> cwd_op outcome" where
  "cwd_known_subdir lib d w =
     do {
       w1 \<leftarrow> if path_empty (cw_target d) then store_path lib (cw_path d) (cw_subDir d) w else Some w;
       Some (FZ_REPLY_OK, d, w1, [])
     }"

definition cwd_ParseResponse :: "'a fzlib_scheme \<Rightarrow> cwd_op \<Rightarrow> ftp \<Rightarrow> cwd_op outcome" where
  "cwd_ParseResponse lib d w =
     (case cw_state d of
        cwd_init \<Rightarrow> Some (FZ_REPLY_CONTINUE, d, w, [])
      | cwd_pwd \<Rightarrow>
          if \<not> ok_code w then Some (FZ_REPLY_ERROR, d, w, [])
          else (case parse_pwd lib empty_path w of
            (ok, w1) \<Rightarrow> Some (if ok then FZ_REPLY_OK else FZ_REPLY_ERROR, d, w1, []))
      | cwd_cwd \<Rightarrow>
          if \<not> ok_code w then
            if cw_tryMkdOnFail d then Some (FZ_REPLY_CONTINUE, d\<lparr>cw_tryMkdOnFail := False\<rparr>, w, [Mkdir (cw_path d)])
            else Some (FZ_REPLY_ERROR, d, w, [])
          else if path_empty (cw_target d) then Some (FZ_REPLY_CONTINUE, d\<lparr>cw_state := cwd_pwd_cwd\<rparr>, w, [])
          else
            let w1 = w\<lparr>fs_path := cw_target d\<rparr>
            in if cw_subDir d = [] then Some (FZ_REPLY_OK, d, w1, [])
               else Some (FZ_REPLY_CONTINUE, d\<lparr>cw_target := clear_path (cw_target d), cw_state := cwd_cwd_subdir\<rparr>, w1, [])
      | cwd_pwd_cwd \<Rightarrow>
          if \<not> ok_code w then cwd_known lib d (w\<lparr>fs_path := cw_path d\<rparr>)
          else (case parse_pwd lib (cw_path d) w of
            (ok, w1) \<Rightarrow> if ok then cwd_known lib d w1 else Some (FZ_REPLY_ERROR, d, w1, []))
      | cwd_cwd_subdir \<Rightarrow>
          if \<not> ok_code w then
            if cw_subDir d = L ''..'' \<and> \<not> cw_tried_cdup d \<and> take 2 (fs_response w) = L ''50'' then
              Some (FZ_REPLY_CONTINUE, d\<lparr>cw_tried_cdup := True\<rparr>, w, [])
            else if cw_link_discovery d then Some (FZ_REPLY_LINKNOTDIR, d, w, [])
            else Some (FZ_REPLY_ERROR, d, w, [])
          else Some (FZ_REPLY_CONTINUE, d\<lparr>cw_state := cwd_pwd_subdir\<rparr>, w, [])
      | cwd_pwd_subdir \<Rightarrow>
          let assumedPath = assumed_path d
          in if \<not> ok_code w then
               if \<not> path_empty assumedPath then cwd_known_subdir lib d (w\<lparr>fs_path := assumedPath\<rparr>)
               else Some (FZ_REPLY_ERROR, d, w, [])
             else (case parse_pwd lib assumedPath w of
               (ok, w1) \<Rightarrow> if ok then cwd_known_subdir lib d w1 else Some (FZ_REPLY_ERROR, d, w1, [])))"

definition cwd_SubcommandResult :: "cwd_op \<Rightarrow> ftp \<Rightarrow> cwd_op outcome" where
  "cwd_SubcommandResult d w = Some (FZ_REPLY_CONTINUE, d, w, [])"

subsection \<open>Creating directories\<close>

definition mkd_start :: "'a fzlib_scheme \<Rightarrow> mkd_op \<Rightarrow> ftp \<Rightarrow> int \<times> mkd_op" where
  "mkd_start lib d w =
     (let current = fs_path w; path = mk_path d
      in if \<not> path_empty current \<and> (path_eq current path \<or> IsSubdirOf lib current path False False) then (FZ_REPLY_OK, d)
         else
           let d1 = (if path_empty current then d
                     else if IsParentOf lib current path False False then d\<lparr>mk_commonParent := current\<rparr>
                     else d\<lparr>mk_commonParent := GetCommonParent lib path current\<rparr>)
           in if \<not> HasParent path then (FZ_REPLY_CONTINUE, d1\<lparr>mk_state := mkd_tryfull\<rparr>)
              else
                let d2 = d1\<lparr>mk_currentMkdPath := GetParent path, mk_segments := GetLastSegment path # mk_segments d1\<rparr>
                in (FZ_REPLY_CONTINUE, d2\<lparr>mk_state := if path_eq (GetParent path) current then mkd_mkdsub else mkd_findparent\<rparr>))"

definition mkd_Send :: "'a fzlib_scheme \<Rightarrow> ftp_env \<Rightarrow> nat \<Rightarrow> mkd_op \<Rightarrow> ftp \<Rightarrow> mkd_op outcome" where
  "mkd_Send lib env v d w =
     (let w1 = take_lock lib v reason_mkdir (mk_path d) w
      in do {
        waits \<leftarrow> lock_waits v w1;
        if waits then Some (FZ_REPLY_WOULDBLOCK, d, w1, [])
        else case mk_state d of
          mkd_init \<Rightarrow> (case mkd_start lib d w1 of (res, d1) \<Rightarrow> Some (res, d1, w1, []))
        | mkd_mkdsub \<Rightarrow> (case mk_segments d of [] \<Rightarrow> None | s # _ \<Rightarrow> send_as env (L ''MKD '' @ s) d w1)
        | mkd_tryfull \<Rightarrow> send_as env (L ''MKD '' @ GetPath lib (mk_path d)) d w1
        | _ \<Rightarrow> send_as env (L ''CWD '' @ GetPath lib (mk_currentMkdPath d)) d (clear_current w1)
      })"

text \<open>\<^verbatim>\<open>response.find(pattern) != npos\<close>\<close>

fun contains :: "wstring \<Rightarrow> wstring \<Rightarrow> bool" where
  "contains pat [] = (pat = [])"
| "contains pat (c # s) = (take (length pat) (c # s) = pat \<or> contains pat s)"

definition already_exists :: "'a fzlib_scheme \<Rightarrow> mkd_op \<Rightarrow> ftp \<Rightarrow> bool" where
  "already_exists lib d w =
     (let response = str_tolower_ascii lib (drop 4 (fs_response w));
          p = str_tolower_ascii lib (GetPath lib (mk_path d))
      in \<not> (response \<noteq> L ''directory already exists'' \<and>
            (contains (L ''already exists'') p \<or> \<not> contains (L ''already exists'') response) \<and>
            (contains (L ''file exists'') p \<or> \<not> contains (L ''file exists'') response)))"

text \<open>The directory was created, or the server says that it is there.\<close>

definition mkd_made :: "'a fzlib_scheme \<Rightarrow> ftp_env \<Rightarrow> mkd_op \<Rightarrow> ftp \<Rightarrow> mkd_op outcome" where
  "mkd_made lib env d w =
     (case mk_segments d of
        [] \<Rightarrow> Some (FZ_REPLY_INTERNALERROR, d, w, [])
      | s # ss \<Rightarrow>
          (case (if ok_code w then (FZ_REPLY_OK, w)
                 else case LookupFile_dir lib (env_now env) (fs_server w) (mk_currentMkdPath d) s (fs_dirs w) of
                   ((found, _), c) \<Rightarrow>
                     (case found of Some (entry, _) \<Rightarrow> if is_dir entry then FZ_REPLY_OK else FZ_REPLY_ERROR | None \<Rightarrow> FZ_REPLY_OK,
                      w\<lparr>fs_dirs := c\<rparr>)) of
             (result, w1) \<Rightarrow>
               let w2 = w1\<lparr>fs_dirs := snd (UpdateFile lib (env_now env) (fs_server w1) (mk_currentMkdPath d) s True ft_dir (-1) [] (fs_dirs w1))\<rparr>;
                   w3 = SendDirectoryListingNotification (mk_currentMkdPath d) False w2;
                   d1 = d\<lparr>mk_currentMkdPath := snd (AddSegment (mk_currentMkdPath d) s), mk_segments := ss\<rparr>
               in if ss = [] \<or> result \<noteq> FZ_REPLY_OK then Some (result, d1, w3, [])
                  else Some (FZ_REPLY_CONTINUE, d1\<lparr>mk_state := mkd_cwdsub\<rparr>, w3, [])))"

definition mkd_ParseResponse :: "'a fzlib_scheme \<Rightarrow> ftp_env \<Rightarrow> mkd_op \<Rightarrow> ftp \<Rightarrow> mkd_op outcome" where
  "mkd_ParseResponse lib env d w =
     (case mk_state d of
        mkd_init \<Rightarrow> Some (FZ_REPLY_INTERNALERROR, d, w, [])
      | mkd_findparent \<Rightarrow>
          if ok_code w then
            Some (FZ_REPLY_CONTINUE, d\<lparr>mk_state := mkd_mkdsub\<rparr>, w\<lparr>fs_path := mk_currentMkdPath d\<rparr>, [])
          else if path_eq (mk_currentMkdPath d) (mk_commonParent d) then Some (FZ_REPLY_CONTINUE, d\<lparr>mk_state := mkd_tryfull\<rparr>, w, [])
          else if HasParent (mk_currentMkdPath d) then
            Some (FZ_REPLY_CONTINUE, d\<lparr>mk_segments := GetLastSegment (mk_currentMkdPath d) # mk_segments d,
              mk_currentMkdPath := GetParent (mk_currentMkdPath d)\<rparr>, w, [])
          else Some (FZ_REPLY_CONTINUE, d\<lparr>mk_state := mkd_tryfull\<rparr>, w, [])
      | mkd_mkdsub \<Rightarrow>
          if \<not> ok_code w \<and> length (fs_response w) < 4 then None
          else if \<not> ok_code w \<and> \<not> already_exists lib d w then Some (FZ_REPLY_INTERNALERROR, d\<lparr>mk_state := mkd_tryfull\<rparr>, w, [])
          else mkd_made lib env d w
      | mkd_cwdsub \<Rightarrow>
          if ok_code w then
            Some (FZ_REPLY_CONTINUE, d\<lparr>mk_state := mkd_mkdsub\<rparr>, w\<lparr>fs_path := mk_currentMkdPath d\<rparr>, [])
          else Some (FZ_REPLY_CONTINUE, d\<lparr>mk_state := mkd_tryfull\<rparr>, w, [])
      | mkd_tryfull \<Rightarrow> Some (if ok_code w then FZ_REPLY_OK else FZ_REPLY_ERROR, d, w, []))"

subsection \<open>Removing directories\<close>

definition RemoveDir_op :: "server_path \<Rightarrow> wstring \<Rightarrow> op_data" where
  "RemoveDir_op path subDir = Rmd \<lparr>rm_state = rmd_init, rm_path = path, rm_fullPath = path, rm_subDir = subDir, rm_omitPath = True\<rparr>"

definition rmd_Send :: "'a fzlib_scheme \<Rightarrow> ftp_env \<Rightarrow> rmd_op \<Rightarrow> ftp \<Rightarrow> rmd_op outcome" where
  "rmd_Send lib env d w =
     (case rm_state d of
        rmd_init \<Rightarrow>
          do {
            cwd \<leftarrow> ChangeDir (rm_path d) [] False (fs_ops w);
            Some (FZ_REPLY_CONTINUE, d\<lparr>rm_state := rmd_waitcwd\<rparr>, w, [cwd])
          }
      | rmd_rmd \<Rightarrow>
          (case lookup_path lib (rm_path d) (rm_subDir d) w of
             (found, w1) \<Rightarrow>
               if path_empty found \<and> \<not> fst (AddSegment (rm_path d) (rm_subDir d)) then Some (FZ_REPLY_ERROR, d, w1, [])
               else
                 let path = (if path_empty found then snd (AddSegment (rm_path d) (rm_subDir d)) else found);
                     w2 = w1\<lparr>fs_dirs := snd (InvalidateFile lib (env_now env) (fs_server w1) (rm_path d) (rm_subDir d) (fs_dirs w1))\<rparr>;
                     w3 = w2\<lparr>fs_paths := pc_InvalidatePath lib (fs_server w2) (rm_path d) (rm_subDir d) (fs_paths w2)\<rparr>;
                     w4 = InvalidateCurrentWorkingDirs path w3
                 in if rm_omitPath d then send_as env (L ''RMD '' @ rm_subDir d) d w4
                    else case AddSegment (rm_fullPath d) (rm_subDir d) of
                      (ok, full) \<Rightarrow>
                        let d1 = d\<lparr>rm_fullPath := full\<rparr>
                        in if \<not> ok then Some (FZ_REPLY_ERROR, d1, w4, [])
                           else send_as env (L ''RMD '' @ GetPath lib full) d1 w4)
      | rmd_waitcwd \<Rightarrow> Some (FZ_REPLY_INTERNALERROR, d, w, []))"

definition rmd_ParseResponse :: "'a fzlib_scheme \<Rightarrow> ftp_env \<Rightarrow> rmd_op \<Rightarrow> ftp \<Rightarrow> rmd_op outcome" where
  "rmd_ParseResponse lib env d w =
     (if \<not> ok_code w then Some (FZ_REPLY_ERROR, d, w, [])
      else
        let w1 = snd (lookup_path lib (rm_path d) (rm_subDir d) w);
            w2 = w1\<lparr>fs_dirs := RemoveDir lib (env_now env) (fs_server w1) (rm_path d) (rm_subDir d) (fs_dirs w1)\<rparr>
        in Some (FZ_REPLY_OK, d, SendDirectoryListingNotification (rm_path d) False w2, []))"

definition rmd_SubcommandResult :: "int \<Rightarrow> rmd_op \<Rightarrow> ftp \<Rightarrow> rmd_op outcome" where
  "rmd_SubcommandResult prevResult d w =
     (if rm_state d = rmd_waitcwd then
        let d1 = (if prevResult \<noteq> FZ_REPLY_OK then d\<lparr>rm_omitPath := False\<rparr> else d\<lparr>rm_path := fs_path w\<rparr>)
        in Some (FZ_REPLY_CONTINUE, d1\<lparr>rm_state := rmd_rmd\<rparr>, w, [])
      else Some (FZ_REPLY_INTERNALERROR, d, w, []))"

subsection \<open>Deleting files\<close>

definition Delete_op :: "server_path \<Rightarrow> wstring list \<Rightarrow> op_data" where
  "Delete_op path files = Del \<lparr>dl_state = del_init, dl_path = path, dl_files = rev files, dl_omitPath = True, dl_time = None,
     dl_needSendListing = False, dl_deleteFailed = False\<rparr>"

definition del_Send :: "'a fzlib_scheme \<Rightarrow> ftp_env \<Rightarrow> del_op \<Rightarrow> ftp \<Rightarrow> del_op outcome" where
  "del_Send lib env d w =
     (case dl_state d of
        del_init \<Rightarrow>
          do {
            cwd \<leftarrow> ChangeDir (dl_path d) [] False (fs_ops w);
            Some (FZ_REPLY_CONTINUE, d\<lparr>dl_state := del_waitcwd\<rparr>, w, [cwd])
          }
      | del_del \<Rightarrow>
          (case dl_files d of
             [] \<Rightarrow> None
           | file # _ \<Rightarrow>
               if file = [] then Some (FZ_REPLY_INTERNALERROR, d, w, [])
               else
                 let filename = FormatFilename lib (dl_path d) file (dl_omitPath d)
                 in if filename = [] then Some (FZ_REPLY_ERROR, d, w, [])
                    else send_as env (L ''DELE '' @ filename) d
                      (w\<lparr>fs_dirs := snd (InvalidateFile lib (env_now env) (fs_server w) (dl_path d) file (fs_dirs w))\<rparr>))
      | del_waitcwd \<Rightarrow> Some (FZ_REPLY_INTERNALERROR, d, w, []))"

definition del_ParseResponse :: "'a fzlib_scheme \<Rightarrow> ftp_env \<Rightarrow> del_op \<Rightarrow> ftp \<Rightarrow> del_op outcome" where
  "del_ParseResponse lib env d w =
     (case dl_files d of
        [] \<Rightarrow> None
      | file # files \<Rightarrow>
          (case (if \<not> ok_code w then (d\<lparr>dl_deleteFailed := True\<rparr>, w)
                 else
                   let w1 = w\<lparr>fs_dirs := snd (RemoveFile lib (env_now env) (fs_server w) (dl_path d) file (fs_dirs w))\<rparr>;
                       notify = (case dl_time d of None \<Rightarrow> False | Some t \<Rightarrow> (env_now env - t) div 1000 \<ge> 1)
                   in if notify then (d\<lparr>dl_time := Some (env_now env), dl_needSendListing := False\<rparr>,
                        SendDirectoryListingNotification (dl_path d) False w1)
                      else (d\<lparr>dl_needSendListing := True\<rparr>, w1)) of
             (d1, w1) \<Rightarrow>
               Some (if files \<noteq> [] then FZ_REPLY_CONTINUE else if dl_deleteFailed d1 then FZ_REPLY_ERROR else FZ_REPLY_OK,
                     d1\<lparr>dl_files := files\<rparr>, w1, [])))"

definition del_SubcommandResult :: "ftp_env \<Rightarrow> int \<Rightarrow> del_op \<Rightarrow> ftp \<Rightarrow> del_op outcome" where
  "del_SubcommandResult env prevResult d w =
     (if dl_state d = del_waitcwd then
        let d1 = d\<lparr>dl_state := del_del\<rparr>;
            d2 = (if prevResult \<noteq> FZ_REPLY_OK then d1\<lparr>dl_omitPath := False\<rparr> else d1)
        in Some (FZ_REPLY_CONTINUE, d2\<lparr>dl_time := Some (env_now env)\<rparr>, w, [])
      else Some (FZ_REPLY_INTERNALERROR, d, w, []))"

definition del_Reset :: "int \<Rightarrow> del_op \<Rightarrow> ftp \<Rightarrow> ftp" where
  "del_Reset result d w =
     (if dl_needSendListing d \<and> \<not> has_flag result FZ_REPLY_DISCONNECTED
      then SendDirectoryListingNotification (dl_path d) False w else w)"

subsection \<open>Renaming\<close>

definition Rename_op :: "server_path \<Rightarrow> wstring \<Rightarrow> server_path \<Rightarrow> wstring \<Rightarrow> op_data" where
  "Rename_op fromPath fromFile toPath toFile = Ren \<lparr>rn_state = rename_init, rn_fromPath = fromPath, rn_fromFile = fromFile,
     rn_toPath = toPath, rn_toFile = toFile, rn_useAbsolute = False\<rparr>"

definition rename_Send :: "'a fzlib_scheme \<Rightarrow> ftp_env \<Rightarrow> rename_op \<Rightarrow> ftp \<Rightarrow> rename_op outcome" where
  "rename_Send lib env d w =
     (case rn_state d of
        rename_init \<Rightarrow>
          do {
            cwd \<leftarrow> ChangeDir (rn_fromPath d) [] False (fs_ops w);
            Some (FZ_REPLY_CONTINUE, d\<lparr>rn_state := rename_waitcwd\<rparr>, w, [cwd])
          }
      | rename_rnfrom \<Rightarrow> send_as env (L ''RNFR '' @ FormatFilename lib (rn_fromPath d) (rn_fromFile d) (\<not> rn_useAbsolute d)) d w
      | rename_rnto \<Rightarrow>
          let server = fs_server w;
              c1 = snd (InvalidateFile lib (env_now env) server (rn_fromPath d) (rn_fromFile d) (fs_dirs w));
              c2 = snd (InvalidateFile lib (env_now env) server (rn_toPath d) (rn_toFile d) c1)
          in (case lookup_path lib (rn_fromPath d) (rn_fromFile d) (w\<lparr>fs_dirs := c2\<rparr>) of
                (found, w1) \<Rightarrow>
                  let path = (if path_empty found then snd (AddSegment (rn_fromPath d) (rn_fromFile d)) else found);
                      w2 = InvalidateCurrentWorkingDirs path w1;
                      p1 = pc_InvalidatePath lib server (rn_fromPath d) (rn_fromFile d) (fs_paths w2);
                      p2 = pc_InvalidatePath lib server (rn_toPath d) (rn_toFile d) p1
                  in send_as env (L ''RNTO '' @ FormatFilename lib (rn_toPath d) (rn_toFile d)
                       (\<not> rn_useAbsolute d \<and> path_eq (rn_fromPath d) (rn_toPath d))) d (w2\<lparr>fs_paths := p2\<rparr>))
      | rename_waitcwd \<Rightarrow> Some (FZ_REPLY_INTERNALERROR, d, w, []))"

definition rename_ParseResponse :: "'a fzlib_scheme \<Rightarrow> ftp_env \<Rightarrow> rename_op \<Rightarrow> ftp \<Rightarrow> rename_op outcome" where
  "rename_ParseResponse lib env d w =
     (if \<not> ok_code w then Some (FZ_REPLY_ERROR, d, w, [])
      else if rn_state d = rename_rnfrom then Some (FZ_REPLY_CONTINUE, d\<lparr>rn_state := rename_rnto\<rparr>, w, [])
      else
        let w1 = w\<lparr>fs_dirs := Rename lib (env_now env) (fs_server w) (rn_fromPath d) (rn_fromFile d) (rn_toPath d) (rn_toFile d) (fs_dirs w)\<rparr>;
            w2 = SendDirectoryListingNotification (rn_fromPath d) False w1;
            w3 = (if \<not> path_eq (rn_fromPath d) (rn_toPath d) then SendDirectoryListingNotification (rn_toPath d) False w2 else w2)
        in Some (FZ_REPLY_OK, d, w3, []))"

definition rename_SubcommandResult :: "int \<Rightarrow> rename_op \<Rightarrow> ftp \<Rightarrow> rename_op outcome" where
  "rename_SubcommandResult prevResult d w =
     (if rn_state d = rename_waitcwd then
        Some (FZ_REPLY_CONTINUE, d\<lparr>rn_useAbsolute := (if prevResult \<noteq> FZ_REPLY_OK then True else rn_useAbsolute d), rn_state := rename_rnfrom\<rparr>, w, [])
      else Some (FZ_REPLY_INTERNALERROR, d, w, []))"

subsection \<open>Changing permissions\<close>

definition Chmod_op :: "server_path \<Rightarrow> wstring \<Rightarrow> wstring \<Rightarrow> op_data" where
  "Chmod_op path file permission = Chm \<lparr>ch_state = chmod_init, ch_path = path, ch_file = file, ch_permission = permission,
     ch_useAbsolute = False\<rparr>"

definition chmod_Send :: "'a fzlib_scheme \<Rightarrow> ftp_env \<Rightarrow> chmod_op \<Rightarrow> ftp \<Rightarrow> chmod_op outcome" where
  "chmod_Send lib env d w =
     (case ch_state d of
        chmod_init \<Rightarrow>
          do {
            cwd \<leftarrow> ChangeDir (ch_path d) [] False (fs_ops w);
            Some (FZ_REPLY_CONTINUE, d\<lparr>ch_state := chmod_waitcwd\<rparr>, w, [cwd])
          }
      | chmod_chmod \<Rightarrow>
          send_as env (L ''SITE CHMOD '' @ ch_permission d @ L '' '' @ FormatFilename lib (ch_path d) (ch_file d) (\<not> ch_useAbsolute d)) d w
      | chmod_waitcwd \<Rightarrow> Some (FZ_REPLY_INTERNALERROR, d, w, []))"

definition chmod_ParseResponse :: "'a fzlib_scheme \<Rightarrow> ftp_env \<Rightarrow> chmod_op \<Rightarrow> ftp \<Rightarrow> chmod_op outcome" where
  "chmod_ParseResponse lib env d w =
     (if \<not> ok_code w then Some (FZ_REPLY_ERROR, d, w, [])
      else Some (FZ_REPLY_OK, d,
        w\<lparr>fs_dirs := snd (UpdateFile lib (env_now env) (fs_server w) (ch_path d) (ch_file d) False ft_unknown (-1) [] (fs_dirs w))\<rparr>, []))"

definition chmod_SubcommandResult :: "int \<Rightarrow> chmod_op \<Rightarrow> ftp \<Rightarrow> chmod_op outcome" where
  "chmod_SubcommandResult prevResult d w =
     (if ch_state d = chmod_waitcwd then
        Some (FZ_REPLY_CONTINUE, d\<lparr>ch_useAbsolute := (if prevResult \<noteq> FZ_REPLY_OK then True else ch_useAbsolute d), ch_state := chmod_chmod\<rparr>, w, [])
      else Some (FZ_REPLY_INTERNALERROR, d, w, []))"

subsection \<open>Raw commands\<close>

definition RawCommand :: "wstring \<Rightarrow> op_data option" where
  "RawCommand command = (if command = [] then None else Some (Raw command))"

definition raw_Send :: "'a fzlib_scheme \<Rightarrow> ftp_env \<Rightarrow> wstring \<Rightarrow> ftp \<Rightarrow> wstring outcome" where
  "raw_Send lib env command w =
     (let w1 = w\<lparr>fs_dirs := InvalidateServer lib (fs_server w) (fs_dirs w)\<rparr>;
          w2 = w1\<lparr>fs_paths := pc_InvalidateServer (fs_server w1) (fs_paths w1)\<rparr>;
          w3 = (clear_current w2)\<lparr>fs_lastTypeBinary := -1\<rparr>
      in send_as env command command w3)"

definition raw_ParseResponse :: "wstring \<Rightarrow> ftp \<Rightarrow> wstring outcome" where
  "raw_ParseResponse command w = Some (if ok_code w then FZ_REPLY_OK else FZ_REPLY_ERROR, command, w, [])"

end
