(* ===== verification/Ftp_List.thy ===== *)
theory Ftp_List
  imports Ftp_Ops
begin

text \<open>The operation that lists a directory (\<^verbatim>\<open>engine/ftp/list.cpp\<close>).\<close>

subsection \<open>Listing\<close>

definition LIST_FLAG_REFRESH :: int where "LIST_FLAG_REFRESH = 1"
definition LIST_FLAG_FALLBACK_CURRENT :: int where "LIST_FLAG_FALLBACK_CURRENT = 4"
definition LIST_FLAG_LINK :: int where "LIST_FLAG_LINK = 8"

definition IsMisleadingListResponse :: "'a fzlib_scheme \<Rightarrow> wstring \<Rightarrow> bool" where
  "IsMisleadingListResponse lib response \<longleftrightarrow>
     stricmp lib response (L ''550 No members found.'') = 0 \<or>
     stricmp lib response (L ''550 No data sets found.'') = 0 \<or>
     str_tolower_ascii lib response = L ''550 no files found.''"

definition List_op :: "cserver \<Rightarrow> server_path \<Rightarrow> wstring \<Rightarrow> int \<Rightarrow> op_data" where
  "List_op server path subDir flags =
     Lst \<lparr>lo_state = list_init,
          lo_dir = (if m_type path = DEFAULT then snd (SetType path (srv_type server)) else path),
          lo_subDir = subDir, lo_link = has_flag flags LIST_FLAG_LINK,
          lo_fallback = (\<not> path_empty path \<and> has_flag flags LIST_FLAG_FALLBACK_CURRENT),
          lo_refresh = has_flag flags LIST_FLAG_REFRESH, lo_listing = empty_listing, lo_viewHiddenCheck = False,
          lo_viewHidden = False, lo_mdtm_index = 0, lo_time_before_locking = 0,
          lo_transferEndReason = reason_successful, lo_commandSent = False\<rparr>"

text \<open>\<^verbatim>\<open>Transfer(cmd, this)\<close>: what it changes in the operation, and what it pushes.\<close>

definition Transfer :: "wstring \<Rightarrow> list_op \<Rightarrow> list_op \<times> op_data" where
  "Transfer cmd d = (d\<lparr>lo_commandSent := False, lo_transferEndReason := reason_successful\<rparr>, Other (RawTransfer cmd))"

definition list_transfer :: "ftp_env \<Rightarrow> list_op \<Rightarrow> ftp \<Rightarrow> list_op \<times> op_data" where
  "list_transfer env d w =
     (if GetCapability (fs_server w) mlsd_command (fs_caps w) = cap_yes then Transfer (L ''MLSD'') d
      else
        let d1 = (if \<not> env_hidden env then d
                  else case GetCapability (fs_server w) list_hidden_support (fs_caps w) of
                    cap_unknown \<Rightarrow> d\<lparr>lo_viewHiddenCheck := True\<rparr>
                  | cap_yes \<Rightarrow> d\<lparr>lo_viewHidden := True\<rparr>
                  | cap_no \<Rightarrow> d)
        in Transfer (if lo_viewHidden d1 then L ''LIST -a'' else L ''LIST'') d1)"

definition list_Send :: "'a fzlib_scheme \<Rightarrow> ftp_env \<Rightarrow> nat \<Rightarrow> list_op \<Rightarrow> ftp \<Rightarrow> list_op outcome" where
  "list_Send lib env v d w =
     (case lo_state d of
        list_init \<Rightarrow>
          do {
            cwd \<leftarrow> ChangeDir (lo_dir d) (lo_subDir d) (lo_link d) (fs_ops w);
            Some (FZ_REPLY_CONTINUE, d\<lparr>lo_state := list_waitcwd\<rparr>, w, [cwd])
          }
      | list_waitlock \<Rightarrow>
          if lo_subDir d \<noteq> [] then None
          else
            (case Lookup lib (env_now env) (fs_server w) (fs_path w) False (fs_dirs w) of
               (found, c) \<Rightarrow>
                 let w1 = w\<lparr>fs_dirs := c\<rparr>; locked = ol_mgr (sys_vars (fs_locks w1) v)
                 in if (case found of None \<Rightarrow> False
                        | Some (l, outdated) \<Rightarrow> \<not> outdated \<and>
                            (\<not> lo_refresh d \<or> locked \<and> ls_firstListTime l \<ge> lo_time_before_locking d))
                    then Some (FZ_REPLY_OK, d, SendDirectoryListingNotification (fs_path w1) False w1, [])
                    else
                      let w2 = take_lock lib v reason_list (fs_path w1) w1;
                          d1 = (if locked then d else d\<lparr>lo_time_before_locking := env_now env\<rparr>)
                      in do {
                        waits \<leftarrow> lock_waits v w2;
                        if waits then Some (FZ_REPLY_WOULDBLOCK, d1, w2, [])
                        else case list_transfer env (d1\<lparr>lo_state := list_waittransfer\<rparr>) w2 of
                          (d2, t) \<Rightarrow> Some (FZ_REPLY_CONTINUE, d2, w2, [t])
                      })
      | list_mdtm \<Rightarrow>
          if lo_mdtm_index d < ls_size (lo_listing d) then
            send_as env (L ''MDTM '' @ FormatFilename lib (fs_path w) (de_name (ls_entries (lo_listing d) ! lo_mdtm_index d)) True) d w
          else None
      | _ \<Rightarrow> Some (FZ_REPLY_INTERNALERROR, d, w, []))"

text \<open>Division and remainder of C++, and the conversion to \<^verbatim>\<open>int\<close>.\<close>

definition cdiv :: "int \<Rightarrow> int \<Rightarrow> int" where
  "cdiv a b = sgn a * sgn b * (\<bar>a\<bar> div \<bar>b\<bar>)"

definition cmod :: "int \<Rightarrow> int \<Rightarrow> int" where
  "cmod a b = a - b * cdiv a b"

definition to_int32 :: "int \<Rightarrow> int" where
  "to_int32 n = (n + 2 ^ 31) mod 2 ^ 32 - 2 ^ 31"

text \<open>The offset in seconds, an \<^verbatim>\<open>int\<close>, rounded to full minutes unless the listing has seconds.\<close>

definition server_offset :: "int \<Rightarrow> bool \<Rightarrow> int" where
  "server_offset seconds has_seconds =
     (let serveroffset = to_int32 seconds
      in if has_seconds then serveroffset
         else let s = (if serveroffset < 0 then to_int32 (serveroffset - 59) else serveroffset) in s - cmod s 60)"

definition shift_times :: "ftp_env \<Rightarrow> int \<Rightarrow> listing \<Rightarrow> listing" where
  "shift_times env span l = l\<lparr>ls_entries := map (\<lambda>e. e\<lparr>de_time := env_add_time env (de_time e) span\<rparr>) (ls_entries l)\<rparr>"

definition list_ParseResponse :: "'a fzlib_scheme \<Rightarrow> ftp_env \<Rightarrow> list_op \<Rightarrow> ftp \<Rightarrow> list_op outcome" where
  "list_ParseResponse lib env d w =
     (if lo_state d \<noteq> list_mdtm then Some (FZ_REPLY_INTERNALERROR, d, w, [])
      else
        let response = fs_response w; server = fs_server w;
            entry = ls_entries (lo_listing d) ! lo_mdtm_index d
        in do {
          (d1, caps) \<leftarrow>
            if GetCapability server inferred_timezone_offset (fs_caps w) = cap_unknown \<and>
               take 4 response = L ''213 '' \<and> length response > 16 then
              (case env_datetime env (drop 4 response) of
                 Some date \<Rightarrow>
                   if \<not> lo_mdtm_index d < ls_size (lo_listing d) \<or> \<not> env_has_date env entry then None
                   else
                     let listTime = env_add_time env (de_time entry) (- srv_timezoneOffset server * 60000);
                         offset = server_offset (env_seconds_between env date listTime) (env_has_seconds env entry)
                     in map_option (\<lambda>caps. (d\<lparr>lo_listing := shift_times env (offset * 1000) (lo_listing d)\<rparr>, caps))
                          (SetCapability_number server inferred_timezone_offset cap_yes offset (fs_caps w))
               | None \<Rightarrow> Some (d, SetCapability server inferred_timezone_offset cap_no (SetCapability server mdtm_command cap_no (fs_caps w))))
            else Some (d, SetCapability server inferred_timezone_offset cap_no (fs_caps w));
          w1 \<leftarrow> store_listing lib env (lo_listing d1) (w\<lparr>fs_caps := caps\<rparr>);
          Some (FZ_REPLY_OK, d1, SendDirectoryListingNotification (fs_path w1) False w1, [])
        })"

text \<open>\<^verbatim>\<open>CheckTimezoneDetection\<close>.\<close>

definition CheckTimezoneDetection :: "ftp_env \<Rightarrow> listing \<Rightarrow> list_op \<Rightarrow> ftp \<Rightarrow> int \<times> list_op \<times> ftp" where
  "CheckTimezoneDetection env l d w =
     (let server = fs_server w
      in if GetCapability server inferred_timezone_offset (fs_caps w) \<noteq> cap_unknown then (FZ_REPLY_OK, d, w)
         else if GetCapability server mdtm_command (fs_caps w) \<noteq> cap_yes then
           (FZ_REPLY_OK, d, w\<lparr>fs_caps := SetCapability server inferred_timezone_offset cap_no (fs_caps w)\<rparr>)
         else (case find_idx (\<lambda>e. \<not> is_dir e \<and> env_has_time env e) (ls_entries l) of
           Some i \<Rightarrow> (FZ_REPLY_CONTINUE, d\<lparr>lo_state := list_mdtm, lo_listing := l, lo_mdtm_index := i\<rparr>, w)
         | None \<Rightarrow> (FZ_REPLY_OK, d, w)))"

definition list_finish :: "'a fzlib_scheme \<Rightarrow> ftp_env \<Rightarrow> listing \<Rightarrow> list_op \<Rightarrow> ftp \<Rightarrow> list_op outcome" where
  "list_finish lib env l d w =
     (case CheckTimezoneDetection env l d w of
        (res, d1, w1) \<Rightarrow>
          if res \<noteq> FZ_REPLY_OK then Some (res, d1, w1, [])
          else do {
            w2 \<leftarrow> store_listing lib env l w1;
            Some (FZ_REPLY_OK, d1, SendDirectoryListingNotification (fs_path w2) False w2, [])
          })"

text \<open>Listing once more with \<^verbatim>\<open>LIST -a\<close>, keeping the listing that was received.\<close>

definition list_repeat :: "listing \<Rightarrow> list_op \<Rightarrow> ftp \<Rightarrow> list_op outcome" where
  "list_repeat l d w =
     (case Transfer (L ''LIST -a'') (d\<lparr>lo_viewHidden := True, lo_listing := l\<rparr>) of
        (d1, t) \<Rightarrow> Some (FZ_REPLY_CONTINUE, d1, w, [t]))"

definition set_hidden :: "capabilities \<Rightarrow> ftp \<Rightarrow> ftp" where
  "set_hidden cap w = w\<lparr>fs_caps := SetCapability (fs_server w) list_hidden_support cap (fs_caps w)\<rparr>"

definition list_transferred :: "'a fzlib_scheme \<Rightarrow> ftp_env \<Rightarrow> list_op \<Rightarrow> ftp \<Rightarrow> list_op outcome" where
  "list_transferred lib env d w =
     (let l = env_parse env (fs_path w)
      in if \<not> lo_viewHiddenCheck d then list_finish lib env l d w
         else if \<not> lo_viewHidden d then list_repeat l d w
         else if CheckInclusion l (lo_listing d) then list_finish lib env l d (set_hidden cap_yes w)
         else list_finish lib env (lo_listing d) d (set_hidden cap_no w))"

definition list_misleading :: "'a fzlib_scheme \<Rightarrow> ftp_env \<Rightarrow> list_op \<Rightarrow> ftp \<Rightarrow> list_op outcome" where
  "list_misleading lib env d w =
     (let l = empty_listing\<lparr>ls_path := fs_path w, ls_firstListTime := env_now env\<rparr>
      in if \<not> lo_viewHiddenCheck d then list_finish lib env l d w
         else if \<not> lo_viewHidden d then list_repeat l d w
         else if ls_size (lo_listing d) \<noteq> 0 then list_finish lib env (lo_listing d) d (set_hidden cap_no w)
         else list_finish lib env l d (set_hidden cap_yes w))"

definition list_failed :: "'a fzlib_scheme \<Rightarrow> ftp_env \<Rightarrow> int \<Rightarrow> list_op \<Rightarrow> ftp \<Rightarrow> list_op outcome" where
  "list_failed lib env prevResult d w =
     (if lo_viewHiddenCheck d \<and> lo_viewHidden d \<and> lo_transferEndReason d = reason_transfer_command_failure_immediate
      then list_finish lib env (lo_listing d) d (set_hidden cap_no w)
      else Some (FZ_REPLY_ERROR, d,
        if has_flag prevResult FZ_REPLY_ERROR then SendDirectoryListingNotification (fs_path w) True w else w, []))"

definition list_SubcommandResult :: "'a fzlib_scheme \<Rightarrow> ftp_env \<Rightarrow> int \<Rightarrow> list_op \<Rightarrow> ftp \<Rightarrow> list_op outcome" where
  "list_SubcommandResult lib env prevResult d w =
     (case lo_state d of
        list_waitcwd \<Rightarrow>
          if prevResult \<noteq> FZ_REPLY_OK then
            if prevResult AND FZ_REPLY_LINKNOTDIR = FZ_REPLY_LINKNOTDIR then Some (prevResult, d, w, [])
            else if lo_fallback d then
              do {
                cwd \<leftarrow> ChangeDir empty_path [] False (fs_ops w);
                Some (FZ_REPLY_CONTINUE, d\<lparr>lo_fallback := False, lo_dir := clear_path (lo_dir d), lo_subDir := []\<rparr>, w, [cwd])
              }
            else Some (prevResult, d, w, [])
          else Some (FZ_REPLY_CONTINUE, d\<lparr>lo_dir := fs_path w, lo_subDir := [], lo_state := list_waitlock\<rparr>, w, [])
      | list_waittransfer \<Rightarrow>
          if prevResult = FZ_REPLY_OK then list_transferred lib env d w
          else if lo_commandSent d \<and> IsMisleadingListResponse lib (fs_response w) then list_misleading lib env d w
          else list_failed lib env prevResult d w
      | _ \<Rightarrow> Some (FZ_REPLY_INTERNALERROR, d, w, []))"

end
