(* ===== verification/Ftp_Run.thy ===== *)
theory Ftp_Run
  imports Ftp_List
begin

text \<open>
  The stack of operations of an FTP connection at work: \<^verbatim>\<open>SendNextCommand\<close>, \<^verbatim>\<open>ResetOperation\<close>,
  \<^verbatim>\<open>ParseSubcommandResult\<close> and \<^verbatim>\<open>DoClose\<close> of \<^verbatim>\<open>engine/controlsocket.cpp\<close> with the parts that
  \<^verbatim>\<open>engine/ftp/ftpcontrolsocket.cpp\<close> adds, and the events that call them. The calls between these functions are
  all tail calls, so that they are one loop over the call that is next.
\<close>

subsection \<open>The operations as objects\<close>

definition lift :: "('d \<Rightarrow> op_data) \<Rightarrow> operation \<Rightarrow> 'd outcome \<Rightarrow> operation outcome" where
  "lift f op r = map_option (\<lambda>(res, d, w, pushed). (res, op\<lparr>op_data := f d\<rparr>, w, pushed)) r"

definition op_Send :: "'a fzlib_scheme \<Rightarrow> ftp_env \<Rightarrow> operation \<Rightarrow> ftp \<Rightarrow> operation outcome" where
  "op_Send lib env op w =
     (case op_data op of
        Cwd d \<Rightarrow> lift Cwd op (cwd_Send lib env (op_var op) d w)
      | Mkd d \<Rightarrow> lift Mkd op (mkd_Send lib env (op_var op) d w)
      | Rmd d \<Rightarrow> lift Rmd op (rmd_Send lib env d w)
      | Del d \<Rightarrow> lift Del op (del_Send lib env d w)
      | Ren d \<Rightarrow> lift Ren op (rename_Send lib env d w)
      | Chm d \<Rightarrow> lift Chm op (chmod_Send lib env d w)
      | Raw d \<Rightarrow> lift Raw op (raw_Send lib env d w)
      | Lst d \<Rightarrow> lift Lst op (list_Send lib env (op_var op) d w)
      | Other k \<Rightarrow> Some (FZ_REPLY_WOULDBLOCK, op, w, []))"

definition op_ParseResponse :: "'a fzlib_scheme \<Rightarrow> ftp_env \<Rightarrow> operation \<Rightarrow> ftp \<Rightarrow> operation outcome" where
  "op_ParseResponse lib env op w =
     (case op_data op of
        Cwd d \<Rightarrow> lift Cwd op (cwd_ParseResponse lib d w)
      | Mkd d \<Rightarrow> lift Mkd op (mkd_ParseResponse lib env d w)
      | Rmd d \<Rightarrow> lift Rmd op (rmd_ParseResponse lib env d w)
      | Del d \<Rightarrow> lift Del op (del_ParseResponse lib env d w)
      | Ren d \<Rightarrow> lift Ren op (rename_ParseResponse lib env d w)
      | Chm d \<Rightarrow> lift Chm op (chmod_ParseResponse lib env d w)
      | Raw d \<Rightarrow> lift Raw op (raw_ParseResponse d w)
      | Lst d \<Rightarrow> lift Lst op (list_ParseResponse lib env d w)
      | Other k \<Rightarrow> Some (FZ_REPLY_WOULDBLOCK, op, w, []))"

text \<open>\<^verbatim>\<open>COpData::SubcommandResult\<close> is what the operations without one of their own have.\<close>

definition default_SubcommandResult :: "int \<Rightarrow> 'd \<Rightarrow> ftp \<Rightarrow> 'd outcome" where
  "default_SubcommandResult prevResult d w = Some (if prevResult = FZ_REPLY_OK then FZ_REPLY_CONTINUE else prevResult, d, w, [])"

definition op_SubcommandResult :: "'a fzlib_scheme \<Rightarrow> ftp_env \<Rightarrow> int \<Rightarrow> operation \<Rightarrow> ftp \<Rightarrow> operation outcome" where
  "op_SubcommandResult lib env prevResult op w =
     (case op_data op of
        Cwd d \<Rightarrow> lift Cwd op (cwd_SubcommandResult d w)
      | Mkd d \<Rightarrow> lift Mkd op (default_SubcommandResult prevResult d w)
      | Rmd d \<Rightarrow> lift Rmd op (rmd_SubcommandResult prevResult d w)
      | Del d \<Rightarrow> lift Del op (del_SubcommandResult env prevResult d w)
      | Ren d \<Rightarrow> lift Ren op (rename_SubcommandResult prevResult d w)
      | Chm d \<Rightarrow> lift Chm op (chmod_SubcommandResult prevResult d w)
      | Raw d \<Rightarrow> lift Raw op (default_SubcommandResult prevResult d w)
      | Lst d \<Rightarrow> lift Lst op (list_SubcommandResult lib env prevResult d w)
      | Other k \<Rightarrow> Some (FZ_REPLY_WOULDBLOCK, op, w, []))"

definition op_Reset :: "int \<Rightarrow> operation \<Rightarrow> ftp \<Rightarrow> ftp" where
  "op_Reset result op w = (case op_data op of Del d \<Rightarrow> del_Reset result d w | _ \<Rightarrow> w)"

definition topLevelOperation :: "operation \<Rightarrow> bool" where
  "topLevelOperation op \<longleftrightarrow> (case op_data op of Other (Logon t) \<Rightarrow> t | _ \<Rightarrow> False)"

text \<open>A new operation object on the stack.\<close>

definition push_data :: "op_data \<Rightarrow> ftp \<Rightarrow> ftp" where
  "push_data x w = w\<lparr>fs_ops := \<lparr>op_data = x, op_var = fs_next w\<rparr> # fs_ops w, fs_next := Suc (fs_next w)\<rparr>"

text \<open>A handler of the operation on top of the stack.\<close>

definition on_top :: "(operation \<Rightarrow> ftp \<Rightarrow> operation outcome) \<Rightarrow> ftp \<Rightarrow> (int \<times> ftp) option" where
  "on_top f w =
     (case fs_ops w of
        [] \<Rightarrow> None
      | op # ops \<Rightarrow>
          map_option (\<lambda>(res, op1, w1, pushed). (res, fold push_data (rev pushed) (w1\<lparr>fs_ops := op1 # ops\<rparr>))) (f op w))"

text \<open>The destructor of an operation: \<^verbatim>\<open>opLock_\<close> is released.\<close>

definition destroy_op :: "operation \<Rightarrow> ftp \<Rightarrow> ftp option" where
  "destroy_op op w = map_option (\<lambda>s. w\<lparr>fs_locks := s\<rparr>) (release (op_var op) (fs_locks w))"

subsection \<open>The loop\<close>

datatype call = CallSend | CallReset int | CallSub int operation

datatype progress = Done int ftp | Next call ftp

text \<open>\<^verbatim>\<open>ResetSocket\<close> and the rest of \<^verbatim>\<open>DoClose\<close> before it calls \<^verbatim>\<open>ResetOperation\<close>.\<close>

definition close_socket :: "ftp \<Rightarrow> ftp" where
  "close_socket w = (clear_current w)\<lparr>fs_connected := False, fs_pending := 0, fs_skip := 0, fs_response := []\<rparr>"

definition DoClose :: "int \<Rightarrow> ftp \<Rightarrow> progress" where
  "DoClose code w = Next (CallReset (FZ_REPLY_ERROR OR FZ_REPLY_DISCONNECTED OR code)) (close_socket w)"

definition SendNextCommand :: "'a fzlib_scheme \<Rightarrow> ftp_env \<Rightarrow> ftp \<Rightarrow> progress option" where
  "SendNextCommand lib env w =
     (if fs_ops w = [] then Some (Next (CallReset FZ_REPLY_ERROR) w)
      else if fs_skip w \<noteq> 0 then Some (Done FZ_REPLY_WOULDBLOCK w)
      else do {
        (res, w1) \<leftarrow> on_top (op_Send lib env) w;
        Some (if res = FZ_REPLY_CONTINUE then Next CallSend w1
              else if res = FZ_REPLY_OK then Next (CallReset res) w1
              else if has_flag res FZ_REPLY_DISCONNECTED then DoClose res w1
              else if has_flag res FZ_REPLY_ERROR then Next (CallReset res) w1
              else if res = FZ_REPLY_WOULDBLOCK then Done FZ_REPLY_WOULDBLOCK w1
              else Next (CallReset FZ_REPLY_INTERNALERROR) w1)
      })"

definition simple_result :: "int \<Rightarrow> bool" where
  "simple_result code \<longleftrightarrow>
     code = FZ_REPLY_OK \<or> code = FZ_REPLY_ERROR \<or> code = FZ_REPLY_CRITICALERROR \<or> code = FZ_REPLY_ERROR_NOTFOUND"

text \<open>The reason that a failed raw transfer leaves in the listing it belongs to.\<close>

definition note_failure :: "int \<Rightarrow> operation list \<Rightarrow> operation list" where
  "note_failure code ops =
     (case ops of
        x # op # rest \<Rightarrow>
          (case (op_data x, op_data op) of
             (Other (RawTransfer cmd), Lst d) \<Rightarrow>
               if code \<noteq> FZ_REPLY_OK \<and> lo_transferEndReason d = reason_successful then
                 x # op\<lparr>op_data := Lst (d\<lparr>lo_transferEndReason :=
                   if code AND FZ_REPLY_TIMEOUT = FZ_REPLY_TIMEOUT then reason_timeout
                   else if \<not> lo_commandSent d then reason_pre_transfer_command_failure
                   else reason_failure\<rparr>)\<rparr> # rest
               else ops
           | _ \<Rightarrow> ops)
      | _ \<Rightarrow> ops)"

text \<open>The end of \<^verbatim>\<open>ResetOperation\<close>, the old operation being gone.\<close>

definition finish_reset :: "int \<Rightarrow> ftp \<Rightarrow> progress" where
  "finish_reset code w =
     (let w1 = (if fs_invalidate w then (clear_current w)\<lparr>fs_invalidate := False\<rparr> else w)
      in if fs_ops w1 = [] then Done code (emit (Finished code) w1) else Next CallSend w1)"

definition ResetOperation :: "int \<Rightarrow> ftp \<Rightarrow> progress option" where
  "ResetOperation code w0 =
     (let w = w0\<lparr>fs_skip := fs_pending w0, fs_ops := note_failure code (fs_ops w0)\<rparr>
      in case fs_ops w of
           [] \<Rightarrow> Some (finish_reset code w)
         | op # ops \<Rightarrow>
             let w1 = op_Reset code op (w\<lparr>fs_ops := ops\<rparr>)
             in if ops \<noteq> [] \<and> simple_result code \<and> \<not> topLevelOperation op then Some (Next (CallSub code op) w1)
                else do {
                  w2 \<leftarrow> destroy_op op w1;
                  Some (if ops \<noteq> [] \<and> \<not> simple_result code then Next (CallReset code) w2 else finish_reset code w2)
                })"

definition ParseSubcommandResult :: "'a fzlib_scheme \<Rightarrow> ftp_env \<Rightarrow> int \<Rightarrow> operation \<Rightarrow> ftp \<Rightarrow> progress option" where
  "ParseSubcommandResult lib env prevResult old w =
     (if fs_ops w = [] then map_option (Next (CallReset FZ_REPLY_ERROR)) (destroy_op old w)
     else do {
       (res, w1) \<leftarrow> on_top (op_SubcommandResult lib env prevResult) w;
       w2 \<leftarrow> destroy_op old w1;
       Some (if res = FZ_REPLY_WOULDBLOCK then Done FZ_REPLY_WOULDBLOCK w2
             else if res = FZ_REPLY_CONTINUE then Next CallSend w2
             else Next (CallReset res) w2)
     })"

definition call_step :: "'a fzlib_scheme \<Rightarrow> ftp_env \<Rightarrow> call \<Rightarrow> ftp \<Rightarrow> progress option" where
  "call_step lib env c w =
     (case c of
        CallSend \<Rightarrow> SendNextCommand lib env w
      | CallReset code \<Rightarrow> ResetOperation code w
      | CallSub prevResult old \<Rightarrow> ParseSubcommandResult lib env prevResult old w)"

end
