(* ===== verification/Ftp_Loop.thy ===== *)
theory Ftp_Loop
  imports Ftp_Run
begin

text \<open>
  The loop over the calls of the control socket, which ends because every call lowers a bound on the steps
  that the operations on the stack can still make, and the events that start it.
\<close>

subsection \<open>The loop ends\<close>

text \<open>A bound on the steps that an operation can still make before it waits for an event.\<close>

fun pot :: "op_data \<Rightarrow> nat" where
  "pot (Cwd d) = (if cw_state d = cwd_init then 2 else 1)"
| "pot (Mkd d) = (if mk_state d = mkd_init then 2 else 1)"
| "pot (Rmd d) = (if rm_state d = rmd_init then 4 else 1)"
| "pot (Del d) = (if dl_state d = del_init then 4 else 1)"
| "pot (Ren d) = (if rn_state d = rename_init then 4 else 1)"
| "pot (Chm d) = (if ch_state d = chmod_init then 4 else 1)"
| "pot (Lst d) =
     (case lo_state d of
        list_init \<Rightarrow> 10
      | list_waitcwd \<Rightarrow> if lo_fallback d then 7 else 5
      | list_waitlock \<Rightarrow> 5
      | list_waittransfer \<Rightarrow> if lo_viewHiddenCheck d \<and> \<not> lo_viewHidden d then 3 else 1
      | list_mdtm \<Rightarrow> 1)"
| "pot _ = 1"

definition pot_ok :: "op_data \<Rightarrow> (int \<times> op_data \<times> ftp \<times> op_data list) option \<Rightarrow> bool" where
  "pot_ok x r \<longleftrightarrow>
     (case r of
        None \<Rightarrow> True
      | Some (res, y, w, ps) \<Rightarrow>
          pot y + sum_list (map pot ps) \<le> pot x \<and> (res = FZ_REPLY_CONTINUE \<longrightarrow> pot y + sum_list (map pot ps) < pot x))"

lemma SendCommand_res: "fst (SendCommand env cmd w) = FZ_REPLY_WOULDBLOCK \<or> fst (SendCommand env cmd w) = FZ_REPLY_ERROR"
  by (simp add: SendCommand_def Let_def split: prod.split)

definition lifted :: "('d \<Rightarrow> op_data) \<Rightarrow> 'd outcome \<Rightarrow> (int \<times> op_data \<times> ftp \<times> op_data list) option" where
  "lifted f r = map_option (\<lambda>(res, d, w, ps). (res, f d, w, ps)) r"

lemma lifted_simps [simp]:
  "lifted f None = None" "lifted f (Some (res, d, w, ps)) = Some (res, f d, w, ps)"
  by (simp_all add: lifted_def)

lemma pot_send_as: "pot (f d) \<le> pot x \<Longrightarrow> pot_ok x (lifted f (send_as env cmd d w))"
  using SendCommand_res [of env cmd w] by (auto simp: send_as_def pot_ok_def reply_codes split: prod.splits)

lemma pot_ChangeDir: "ChangeDir path subDir link ops = Some x \<Longrightarrow> pot x = 2"
  by (auto simp: ChangeDir_def Let_def split: if_splits)

lemma pot_simple [simp]: "pot_ok x None" "pot_ok x (Some (res, y, w, [])) \<longleftrightarrow> pot y \<le> pot x \<and> (res = FZ_REPLY_CONTINUE \<longrightarrow> pot y < pot x)"
  by (simp_all add: pot_ok_def)

lemma pot_cwd_Send: "pot_ok (Cwd d) (lifted Cwd (cwd_Send lib env v d w))"
proof (cases "cw_state d")
  case cwd_init
  obtain res d1 w1 where st: "cwd_start lib d w = (res, d1, w1)" by (metis prod.exhaust)
  have "res = FZ_REPLY_CONTINUE \<longrightarrow> cw_state d1 \<noteq> cwd_init"
    using st by (auto simp: cwd_start_def Let_def reply_codes split: if_splits prod.splits)
  then show ?thesis using cwd_init st by (auto simp: cwd_Send_def)
qed (auto simp: cwd_Send_def Let_def reply_codes pot_send_as split: Option.bind_splits)

lemma pot_mkd_Send: "pot_ok (Mkd d) (lifted Mkd (mkd_Send lib env v d w))"
proof -
  have "res = FZ_REPLY_CONTINUE \<longrightarrow> mk_state d1 \<noteq> mkd_init" if "mkd_start lib d w1 = (res, d1)" for res d1 w1
    using that by (auto simp: mkd_start_def Let_def reply_codes split: if_splits)
  then show ?thesis
    by (auto simp: mkd_Send_def Let_def reply_codes pot_send_as split: Option.bind_splits mkd_state.splits prod.splits list.splits)
qed

lemma pot_rmd_Send: "pot_ok (Rmd d) (lifted Rmd (rmd_Send lib env d w))"
proof (cases "rm_state d")
  case rmd_init
  then show ?thesis by (cases "ChangeDir (rm_path d) [] False (fs_ops w)") (auto simp: rmd_Send_def pot_ok_def dest: pot_ChangeDir)
qed (auto simp: rmd_Send_def Let_def reply_codes pot_send_as split: prod.splits)

lemma pot_del_Send: "pot_ok (Del d) (lifted Del (del_Send lib env d w))"
proof (cases "dl_state d")
  case del_init
  then show ?thesis by (cases "ChangeDir (dl_path d) [] False (fs_ops w)") (auto simp: del_Send_def pot_ok_def dest: pot_ChangeDir)
qed (auto simp: del_Send_def Let_def reply_codes pot_send_as split: list.splits)

lemma pot_rename_Send: "pot_ok (Ren d) (lifted Ren (rename_Send lib env d w))"
proof (cases "rn_state d")
  case rename_init
  then show ?thesis by (cases "ChangeDir (rn_fromPath d) [] False (fs_ops w)") (auto simp: rename_Send_def pot_ok_def dest: pot_ChangeDir)
qed (auto simp: rename_Send_def Let_def reply_codes pot_send_as split: prod.splits)

lemma pot_chmod_Send: "pot_ok (Chm d) (lifted Chm (chmod_Send lib env d w))"
proof (cases "ch_state d")
  case chmod_init
  then show ?thesis by (cases "ChangeDir (ch_path d) [] False (fs_ops w)") (auto simp: chmod_Send_def pot_ok_def dest: pot_ChangeDir)
qed (auto simp: chmod_Send_def Let_def reply_codes pot_send_as)

lemma pot_list_Send: "pot_ok (Lst d) (lifted Lst (list_Send lib env v d w))"
proof (cases "lo_state d")
  case list_init
  then show ?thesis
    by (cases "ChangeDir (lo_dir d) (lo_subDir d) (lo_link d) (fs_ops w)") (auto simp: list_Send_def pot_ok_def dest: pot_ChangeDir)
next
  case list_waitlock
  have "pot (Lst d2) + pot t < 5" if "list_transfer env (d1\<lparr>lo_state := list_waittransfer\<rparr>) w2 = (d2, t)" for d1 d2 t w2
    using that by (auto simp: list_transfer_def Transfer_def Let_def split: if_splits capabilities.splits)
  then show ?thesis using list_waitlock
    by (fastforce simp: list_Send_def Let_def reply_codes pot_ok_def split: prod.splits Option.bind_splits if_splits)
qed (auto simp: list_Send_def reply_codes pot_send_as)

definition pot_le :: "op_data \<Rightarrow> (int \<times> op_data \<times> ftp \<times> op_data list) option \<Rightarrow> bool" where
  "pot_le x r \<longleftrightarrow> (case r of None \<Rightarrow> True | Some (res, y, w, ps) \<Rightarrow> pot y + sum_list (map pot ps) \<le> pot x)"

lemma pot_le_simps [simp]: "pot_le x None" "pot_le x (Some (res, y, w, ps)) \<longleftrightarrow> pot y + sum_list (map pot ps) \<le> pot x"
  by (simp_all add: pot_le_def)

lemma pot_timezone:
  assumes "CheckTimezoneDetection env l d w = (res, d1, w1)" "lo_state d = list_waittransfer"
  shows "pot (Lst d1) \<le> pot (Lst d)"
proof -
  have "d1 = d \<or> lo_state d1 = list_mdtm"
    using assms(1) by (auto simp: CheckTimezoneDetection_def Let_def split: if_splits option.splits)
  then show ?thesis using assms(2) by auto
qed

lemma pot_list_finish:
  assumes "lo_state d = list_waittransfer"
  shows "pot_le (Lst d) (lifted Lst (list_finish lib env l d w))"
proof -
  obtain res d1 w1 where c: "CheckTimezoneDetection env l d w = (res, d1, w1)" by (metis prod.exhaust)
  then show ?thesis using pot_timezone [OF c assms]
    by (cases "store_listing lib env l w1") (simp_all add: list_finish_def)
qed

lemma pot_list_repeat:
  "lo_state d = list_waittransfer \<Longrightarrow> lo_viewHiddenCheck d \<Longrightarrow> \<not> lo_viewHidden d \<Longrightarrow> pot_le (Lst d) (lifted Lst (list_repeat l d w))"
  by (auto simp: list_repeat_def Transfer_def)

lemma pot_list_Sub: "pot_le (Lst d) (lifted Lst (list_SubcommandResult lib env r d w))"
proof (cases "lo_state d")
  case list_waitcwd
  then show ?thesis
    by (cases "ChangeDir empty_path [] False (fs_ops w)") (auto simp: list_SubcommandResult_def dest: pot_ChangeDir)
next
  case list_waittransfer
  then show ?thesis
    by (simp add: list_SubcommandResult_def list_transferred_def list_misleading_def list_failed_def Let_def pot_list_finish pot_list_repeat)
qed (simp_all add: list_SubcommandResult_def)

definition pot_sum :: "ftp \<Rightarrow> nat" where
  "pot_sum w = sum_list (map (\<lambda>op. pot (op_data op)) (fs_ops w))"

lemma lift_lifted:
  "lift f op r = Some (res, op1, w1, ps) \<Longrightarrow> lifted f r = Some (res, op_data op1, w1, ps) \<and> op_var op1 = op_var op"
  by (auto simp: lift_def lifted_def)

lemma op_Send_pot:
  assumes "op_Send lib env op w = Some (res, op1, w1, ps)"
  shows "pot (op_data op1) + sum_list (map pot ps) \<le> pot (op_data op) \<and>
    (res = FZ_REPLY_CONTINUE \<longrightarrow> pot (op_data op1) + sum_list (map pot ps) < pot (op_data op))"
proof -
  have "pot_ok (op_data op) (Some (res, op_data op1, w1, ps))"
  proof (cases "op_data op")
    case (Cwd d) then show ?thesis using assms pot_cwd_Send [of d lib env "op_var op" w] lift_lifted [of Cwd] by (simp add: op_Send_def)
  next
    case (Mkd d) then show ?thesis using assms pot_mkd_Send [of d lib env "op_var op" w] lift_lifted [of Mkd] by (simp add: op_Send_def)
  next
    case (Rmd d) then show ?thesis using assms pot_rmd_Send [of d lib env w] lift_lifted [of Rmd] by (simp add: op_Send_def)
  next
    case (Del d) then show ?thesis using assms pot_del_Send [of d lib env w] lift_lifted [of Del] by (simp add: op_Send_def)
  next
    case (Ren d) then show ?thesis using assms pot_rename_Send [of d lib env w] lift_lifted [of Ren] by (simp add: op_Send_def)
  next
    case (Chm d) then show ?thesis using assms pot_chmod_Send [of d lib env w] lift_lifted [of Chm] by (simp add: op_Send_def)
  next
    case (Raw d)
    then have "lifted Raw (raw_Send lib env d w) = Some (res, op_data op1, w1, ps)" using assms lift_lifted [of Raw] by (simp add: op_Send_def)
    moreover have "pot_ok (Raw d) (lifted Raw (raw_Send lib env d w))" unfolding raw_Send_def Let_def by (rule pot_send_as) simp
    ultimately show ?thesis using Raw by simp
  next
    case (Lst d) then show ?thesis using assms pot_list_Send [of d lib env "op_var op" w] lift_lifted [of Lst] by (simp add: op_Send_def)
  next
    case (Other k) then show ?thesis using assms by (auto simp: op_Send_def reply_codes pot_ok_def)
  qed
  then show ?thesis by (simp add: pot_ok_def)
qed

lemma op_Sub_pot:
  assumes "op_SubcommandResult lib env r op w = Some (res, op1, w1, ps)"
  shows "pot (op_data op1) + sum_list (map pot ps) \<le> pot (op_data op)"
proof (cases "op_data op")
  case (Lst d)
  then show ?thesis using assms pot_list_Sub [of d lib env r w] lift_lifted [of Lst] by (simp add: op_SubcommandResult_def)
qed (use assms in \<open>auto simp: op_SubcommandResult_def lift_def cwd_SubcommandResult_def rmd_SubcommandResult_def del_SubcommandResult_def
    rename_SubcommandResult_def chmod_SubcommandResult_def default_SubcommandResult_def Let_def split: if_splits\<close>)

lemma push_total: "pot_sum (push_data x w) = pot x + pot_sum w"
  by (simp add: pot_sum_def push_data_def)

lemma fold_push_total: "pot_sum (fold push_data ps w) = sum_list (map pot ps) + pot_sum w"
  by (induction ps arbitrary: w) (simp_all add: push_total)

lemma sum_pot_rev: "sum_list (map pot (rev ps)) = sum_list (map pot ps)"
  by (simp flip: rev_map add: sum_list_rev)

lemma on_top_total:
  assumes "on_top f w = Some (res, w1)"
    and "\<And>op res op1 w1 ps. f op w = Some (res, op1, w1, ps) \<Longrightarrow> P res (pot (op_data op1) + sum_list (map pot ps)) (pot (op_data op))"
  obtains a b where "P res a b" "pot_sum w = b + pot_sum (w\<lparr>fs_ops := tl (fs_ops w)\<rparr>)" "pot_sum w1 = a + pot_sum (w\<lparr>fs_ops := tl (fs_ops w)\<rparr>)"
proof -
  obtain op ops where ops: "fs_ops w = op # ops" using assms(1) by (auto simp: on_top_def split: list.splits)
  then obtain op1 w2 ps where f: "f op w = Some (res, op1, w2, ps)" "w1 = fold push_data (rev ps) (w2\<lparr>fs_ops := op1 # ops\<rparr>)"
    using assms(1) by (auto simp: on_top_def)
  have "pot_sum w1 = pot (op_data op1) + sum_list (map pot ps) + pot_sum (w\<lparr>fs_ops := tl (fs_ops w)\<rparr>)"
  proof -
    have "pot_sum w1 = sum_list (map pot ps) + pot_sum (w2\<lparr>fs_ops := op1 # ops\<rparr>)" by (simp add: f(2) fold_push_total sum_pot_rev)
    then show ?thesis by (simp add: pot_sum_def ops)
  qed
  moreover have "pot_sum w = pot (op_data op) + pot_sum (w\<lparr>fs_ops := tl (fs_ops w)\<rparr>)" by (simp add: pot_sum_def ops)
  ultimately show ?thesis using that assms(2) [OF f(1)] by blast
qed

fun call_weight :: "call \<Rightarrow> nat" where
  "call_weight CallSend = 1"
| "call_weight (CallReset code) = 0"
| "call_weight (CallSub r old) = 2"

definition call_measure :: "call \<Rightarrow> ftp \<Rightarrow> nat" where
  "call_measure c w = 3 * pot_sum w + call_weight c"

lemma total_cong [simp]: "pot_sum (clear_current w) = pot_sum w" "pot_sum (close_socket w) = pot_sum w" "pot_sum (emit x w) = pot_sum w"
  by (simp_all add: pot_sum_def clear_current_def close_socket_def emit_def)

lemma finish_reset_total: "finish_reset code w = Next c w1 \<Longrightarrow> pot_sum w1 = pot_sum w \<and> call_weight c \<le> 2"
  by (auto simp: finish_reset_def Let_def pot_sum_def clear_current_def split: if_splits)

lemma destroy_total: "destroy_op op w = Some w1 \<Longrightarrow> pot_sum w1 = pot_sum w"
  by (auto simp: destroy_op_def pot_sum_def)

lemma Reset_total: "pot_sum (op_Reset r op w) = pot_sum w"
  by (simp add: op_Reset_def del_Reset_def SendDirectoryListingNotification_def split: op_data.split)

lemma note_failure_cases:
  obtains "note_failure code ops = ops"
  | x op rest d r where "ops = x # op # rest" "op_data op = Lst d"
      "note_failure code ops = x # op\<lparr>op_data := Lst (d\<lparr>lo_transferEndReason := r\<rparr>)\<rparr> # rest"
proof (cases "\<exists>x op rest cmd d. ops = x # op # rest \<and> op_data x = Other (RawTransfer cmd) \<and> op_data op = Lst d")
  case True
  then obtain x op rest cmd d where o: "ops = x # op # rest" "op_data x = Other (RawTransfer cmd)" "op_data op = Lst d" by blast
  show ?thesis
  proof (cases "code \<noteq> FZ_REPLY_OK \<and> lo_transferEndReason d = reason_successful")
    case True
    show ?thesis by (rule that(2) [OF o(1,3)]) (use True o in \<open>simp add: note_failure_def\<close>)
  next
    case False
    show ?thesis by (rule that(1)) (use False o in \<open>auto simp: note_failure_def\<close>)
  qed
next
  case False
  have "note_failure code ops = ops"
  proof (cases ops)
    case (Cons x xs)
    show ?thesis
    proof (cases "\<exists>cmd. op_data x = Other (RawTransfer cmd)")
      case True
      then show ?thesis using False Cons by (cases xs; cases "op_data (hd xs)") (auto simp: note_failure_def)
    next
      case other: False
      have "(case op_data x of Other (RawTransfer cmd) \<Rightarrow> u cmd | _ \<Rightarrow> v) = v" for u :: "wstring \<Rightarrow> operation list" and v
        using other by (auto split: op_data.split other_op.split)
      then show ?thesis using Cons by (cases xs) (simp_all add: note_failure_def)
    qed
  qed (simp add: note_failure_def)
  then show ?thesis by (rule that)
qed

lemma pot_reason: "pot (Lst (d\<lparr>lo_transferEndReason := r\<rparr>)) = pot (Lst d)"
  by (cases "lo_state d") auto

lemma note_failure_total: "sum_list (map (\<lambda>op. pot (op_data op)) (note_failure code ops)) = sum_list (map (\<lambda>op. pot (op_data op)) ops)"
  by (cases code ops rule: note_failure_cases) (simp_all add: pot_reason del: pot.simps)

lemma pot_positive: "0 < pot x"
  by (cases x) (auto split: list_state.split)

lemma call_step_decreases:
  assumes "call_step lib env c w = Some (Next c1 w1)"
  shows "call_measure c1 w1 < call_measure c w"
proof (cases c)
  case CallSend
  show ?thesis
  proof (cases "fs_ops w = []")
    case True
    then show ?thesis using assms CallSend by (auto simp: call_step_def SendNextCommand_def call_measure_def)
  next
    case False
    then obtain res w2 where o: "on_top (op_Send lib env) w = Some (res, w2)"
      using assms CallSend by (auto simp: call_step_def SendNextCommand_def split: if_splits Option.bind_splits)
    have le: "pot_sum w2 \<le> pot_sum w \<and> (res = FZ_REPLY_CONTINUE \<longrightarrow> pot_sum w2 < pot_sum w)"
    proof (rule on_top_total [OF o, where P = "\<lambda>res a b. a \<le> b \<and> (res = FZ_REPLY_CONTINUE \<longrightarrow> a < b)"])
      fix op r op1 w1 ps assume "op_Send lib env op w = Some (r, op1, w1, ps)"
      then show "pot (op_data op1) + sum_list (map pot ps) \<le> pot (op_data op) \<and>
          (r = FZ_REPLY_CONTINUE \<longrightarrow> pot (op_data op1) + sum_list (map pot ps) < pot (op_data op))" by (rule op_Send_pot)
    qed simp
    have "call_weight c1 = 1 \<and> res = FZ_REPLY_CONTINUE \<and> w1 = w2 \<or> call_weight c1 = 0 \<and> pot_sum w1 = pot_sum w2"
      using assms CallSend False o by (auto simp: call_step_def SendNextCommand_def DoClose_def split: if_splits)
    then show ?thesis using le CallSend by (auto simp: call_measure_def)
  qed
next
  case (CallReset code)
  let ?w = "w\<lparr>fs_skip := fs_pending w, fs_ops := note_failure code (fs_ops w)\<rparr>"
  have t: "pot_sum ?w = pot_sum w" by (simp add: pot_sum_def note_failure_total)
  show ?thesis
  proof (cases "fs_ops ?w")
    case Nil
    then show ?thesis using assms CallReset by (auto simp: call_step_def ResetOperation_def finish_reset_def Let_def clear_current_def split: if_splits)
  next
    case (Cons op ops)
    let ?w1 = "op_Reset code op (?w\<lparr>fs_ops := ops\<rparr>)"
    have lt: "pot_sum ?w1 < pot_sum w" using Cons pot_positive [of "op_data op"] unfolding t [symmetric] Reset_total by (simp add: pot_sum_def)
    have "pot_sum w1 = pot_sum ?w1 \<and> call_weight c1 \<le> 2"
      using assms CallReset Cons
      by (auto simp: call_step_def ResetOperation_def Let_def destroy_total dest: finish_reset_total split: if_splits Option.bind_splits)
    then show ?thesis using lt CallReset by (auto simp: call_measure_def)
  qed
next
  case (CallSub r old)
  show ?thesis
  proof (cases "fs_ops w = []")
    case True
    then show ?thesis using assms CallSub destroy_total by (auto simp: call_step_def ParseSubcommandResult_def call_measure_def)
  next
    case False
    then obtain res w2 w3 where o: "on_top (op_SubcommandResult lib env r) w = Some (res, w2)" "destroy_op old w2 = Some w3" "w1 = w3" "call_weight c1 \<le> 1"
      using assms CallSub by (auto simp: call_step_def ParseSubcommandResult_def split: if_splits Option.bind_splits)
    have "pot_sum w2 \<le> pot_sum w"
    proof (rule on_top_total [OF o(1), where P = "\<lambda>res a b. a \<le> b"])
      fix op x op1 w1 ps assume "op_SubcommandResult lib env r op w = Some (x, op1, w1, ps)"
      then show "pot (op_data op1) + sum_list (map pot ps) \<le> pot (op_data op)" by (rule op_Sub_pot)
    qed simp
    then show ?thesis using o destroy_total CallSub by (auto simp: call_measure_def)
  qed
qed

function run :: "'a fzlib_scheme \<Rightarrow> ftp_env \<Rightarrow> call \<Rightarrow> ftp \<Rightarrow> (int \<times> ftp) option" where
  "run lib env c w =
     (case call_step lib env c w of
        None \<Rightarrow> None
      | Some (Done res w1) \<Rightarrow> Some (res, w1)
      | Some (Next c1 w1) \<Rightarrow> run lib env c1 w1)"
  by pat_completeness auto

termination
  by (relation "measure (\<lambda>(lib, env, c, w). call_measure c w)") (auto intro: call_step_decreases)

declare run.simps [simp del]

subsection \<open>Events\<close>

definition run_progress :: "'a fzlib_scheme \<Rightarrow> ftp_env \<Rightarrow> progress \<Rightarrow> ftp option" where
  "run_progress lib env p =
     (case p of Done res w \<Rightarrow> Some w | Next c w \<Rightarrow> map_option snd (run lib env c w))"

text \<open>\<^verbatim>\<open>ParseResponse\<close>; the timers that it starts are left out.\<close>

definition dispatch_response :: "'a fzlib_scheme \<Rightarrow> ftp_env \<Rightarrow> ftp \<Rightarrow> ftp option" where
  "dispatch_response lib env w =
     (case fs_ops w of
        [] \<Rightarrow> Some w
      | op # _ \<Rightarrow>
          do {
            (res, w1) \<leftarrow> on_top (op_ParseResponse lib env) w;
            if res = FZ_REPLY_OK then run_progress lib env (Next (CallReset FZ_REPLY_OK) w1)
            else if res = FZ_REPLY_CONTINUE then run_progress lib env (Next CallSend w1)
            else if has_flag res FZ_REPLY_DISCONNECTED then run_progress lib env (DoClose res w1)
            else if has_flag res FZ_REPLY_ERROR then run_progress lib env (Next (CallReset res) w1)
            else Some w1
          })"

definition ParseResponse :: "'a fzlib_scheme \<Rightarrow> ftp_env \<Rightarrow> ftp \<Rightarrow> ftp option" where
  "ParseResponse lib env w =
     (if fs_response w = [] then Some w
      else
        let preliminary = (fs_response w ! 0 = 49)
        in if \<not> preliminary \<and> \<not> fs_pending w > 0 then Some w
           else
             let w1 = (if preliminary then w else w\<lparr>fs_pending := fs_pending w - 1\<rparr>)
             in if fs_skip w1 \<noteq> 0 then
                  let w2 = (if preliminary then w1 else w1\<lparr>fs_skip := fs_skip w1 - 1\<rparr>)
                  in if fs_skip w2 = 0 \<and> fs_ops w2 \<noteq> [] \<and> fs_pending w2 = 0 then run_progress lib env (Next CallSend w2)
                     else Some w2
                else dispatch_response lib env w1)"

text \<open>A complete reply, as \<^verbatim>\<open>ParseLine\<close> handles it.\<close>

definition on_reply :: "'a fzlib_scheme \<Rightarrow> ftp_env \<Rightarrow> wstring \<Rightarrow> ftp \<Rightarrow> ftp option" where
  "on_reply lib env response w =
     map_option (\<lambda>w1. w1\<lparr>fs_response := []\<rparr>) (ParseResponse lib env (w\<lparr>fs_response := response\<rparr>))"

definition is_logon :: "op_data \<Rightarrow> bool" where
  "is_logon x \<longleftrightarrow> (case x of Other (Logon t) \<Rightarrow> True | _ \<Rightarrow> False)"

text \<open>A command of the engine: the operation is pushed, with a logon on top if there is no connection.\<close>

definition Push :: "op_data \<Rightarrow> ftp \<Rightarrow> ftp" where
  "Push x w =
     (let w1 = push_data x w
      in if length (fs_ops w1) = 1 \<and> \<not> is_logon x \<and> \<not> fs_connected w1 then push_data (Other (Logon True)) w1 else w1)"

definition OnObtainLock :: "'a fzlib_scheme \<Rightarrow> ftp_env \<Rightarrow> nat \<Rightarrow> ftp \<Rightarrow> ftp option" where
  "OnObtainLock lib env n w =
     (let w1 = w\<lparr>fs_locks := deliver lib n (fs_id w) (fs_locks w)\<rparr>
      in if fst (ObtainWaiting lib (fs_id w) (sys_mgr (fs_locks w))) then run_progress lib env (Next CallSend w1) else Some w1)"

definition Cancel :: "'a fzlib_scheme \<Rightarrow> ftp_env \<Rightarrow> ftp \<Rightarrow> ftp option" where
  "Cancel lib env w =
     (case fs_ops w of
        [] \<Rightarrow> Some w
      | op # _ \<Rightarrow>
          if is_logon (op_data op) then run_progress lib env (DoClose FZ_REPLY_CANCELED w)
          else run_progress lib env (Next (CallReset FZ_REPLY_CANCELED) w))"

definition InvalidateCurrentWorkingDir :: "'a fzlib_scheme \<Rightarrow> server_path \<Rightarrow> ftp \<Rightarrow> ftp" where
  "InvalidateCurrentWorkingDir lib path w =
     (if path_empty path \<or> path_empty (fs_path w) then w
      else if IsParentOf lib path (fs_path w) False True then
        if fs_ops w \<noteq> [] then w\<lparr>fs_invalidate := True\<rparr> else clear_current w
      else w)"

definition OnInvalidateCurrentWorkingDir :: "'a fzlib_scheme \<Rightarrow> cserver \<Rightarrow> server_path \<Rightarrow> ftp \<Rightarrow> ftp" where
  "OnInvalidateCurrentWorkingDir lib server path w =
     (if \<not> server_eq (fs_server w) server then w else InvalidateCurrentWorkingDir lib path w)"

text \<open>The keep-alive command, which the timer sends while nothing else happens.\<close>

definition keep_alive :: "'a fzlib_scheme \<Rightarrow> ftp_env \<Rightarrow> wstring \<Rightarrow> ftp \<Rightarrow> ftp option" where
  "keep_alive lib env cmd w =
     (if fs_ops w \<noteq> [] \<or> fs_pending w \<noteq> 0 \<or> fs_skip w \<noteq> 0 then Some w
      else case SendCommand env cmd w of
        (res, w1) \<Rightarrow>
          if res = FZ_REPLY_WOULDBLOCK then Some (w1\<lparr>fs_skip := fs_skip w1 + 1\<rparr>) else run_progress lib env (DoClose res w1))"

text \<open>
  What the operations of other modules do to the stack: a raw transfer leaves how it went in the listing
  below and ends, a file transfer changes the directory, lists or transfers, and all of them send commands.
\<close>

definition note_transfer :: "bool \<Rightarrow> TransferEndReason \<Rightarrow> operation list \<Rightarrow> operation list" where
  "note_transfer sent reason ops =
     (case ops of
        x # op # rest \<Rightarrow>
          (case (op_data x, op_data op) of
             (Other (RawTransfer cmd), Lst d) \<Rightarrow>
               x # op\<lparr>op_data := Lst (d\<lparr>lo_commandSent := sent, lo_transferEndReason := reason\<rparr>)\<rparr> # rest
           | _ \<Rightarrow> ops)
      | _ \<Rightarrow> ops)"

definition other_ends :: "'a fzlib_scheme \<Rightarrow> ftp_env \<Rightarrow> bool \<Rightarrow> TransferEndReason \<Rightarrow> int \<Rightarrow> ftp \<Rightarrow> ftp option" where
  "other_ends lib env sent reason code w =
     run_progress lib env (Next (CallReset code) (w\<lparr>fs_ops := note_transfer sent reason (fs_ops w)\<rparr>))"

end
