(* ===== verification/Path_Zeros.thy ===== *)
theory Path_Zeros
  imports Path_Order Ftp_Reply
begin

text \<open>
  A path that is read from a text without zeros has none in its segments, so that the caches can tell it from
  others. The replies of a server have no zeros, since these end lines.
\<close>

definition zf :: "wstring list \<Rightarrow> bool" where
  "zf ss \<longleftrightarrow> (\<forall>s\<in>set ss. 0 \<notin> set s)"

lemma zf_simps [simp]: "zf []" "zf (s # ss) \<longleftrightarrow> 0 \<notin> set s \<and> zf ss" "zf (xs @ ys) \<longleftrightarrow> zf xs \<and> zf ys"
  by (auto simp: zf_def)

lemma zf_butlast: "zf ss \<Longrightarrow> zf (butlast ss)"
  by (auto simp: zf_def dest: in_set_butlastD)

lemma sep0_nonzero: "sep0 t \<noteq> 0"
  by (cases t) (simp_all add: sep0_def mk_traits_def)

lemma zf_last: "zf ss \<Longrightarrow> ss \<noteq> [] \<Longrightarrow> 0 \<notin> set (last ss)"
  by (simp add: zf_def)

lemma SegmentizeAddSegment_zf:
  assumes "0 \<notin> set s" "zf ss" "app \<longrightarrow> ss \<noteq> []"
  shows "zf (fst (SegmentizeAddSegment t s ss app))"
  using assms sep0_nonzero [of t]
  by (auto simp: SegmentizeAddSegment_def Let_def zf_butlast zf_last dest: in_set_butlastD)

lemma escape_dots: "separatorEscape (traits t) \<noteq> 0 \<Longrightarrow> \<not> has_dots (traits t)"
  by (cases t) (simp_all add: mk_traits_def)

lemma segmentize_loop_zf:
  "0 \<notin> set str \<Longrightarrow> zf ss \<Longrightarrow> app \<longrightarrow> ss \<noteq> [] \<and> \<not> has_dots (traits t) \<Longrightarrow> zf (fst (segmentize_loop t str ss app))"
proof (induction t str ss app rule: segmentize_loop.induct)
  case (1 t str ss app)
  show ?case
  proof (cases "find_idx (IsSeparator t) str")
    case None
    then show ?thesis using 1(3-) SegmentizeAddSegment_zf [of str ss app t] by (subst segmentize_loop.simps) simp
  next
    case (Some pos)
    let ?r = "SegmentizeAddSegment t (take pos str) ss app"
    have z: "0 \<notin> set (drop n str)" "0 \<notin> set (take n str)" for n using 1(3) by (auto dest: in_set_dropD in_set_takeD)
    show ?thesis
    proof (cases "pos = 0")
      case True
      then show ?thesis using Some 1(1) [OF Some True] 1(3-) z(1) by (subst segmentize_loop.simps) simp
    next
      case False
      have "snd ?r \<longrightarrow> fst ?r \<noteq> [] \<and> \<not> has_dots (traits t)"
        using 1(5) escape_dots [of t] by (auto simp: SegmentizeAddSegment_def Let_def)
      then have "zf (fst (segmentize_loop t (drop (Suc pos) str) (fst ?r) (snd ?r)))"
        using 1(2) [OF Some False refl] SegmentizeAddSegment_zf [of "take pos str" ss app t] z 1(4,5) by simp
      then show ?thesis using Some False by (subst segmentize_loop.simps) (simp add: Let_def)
    qed
  qed
qed

lemma segments_into_zf: "segments_into t dir d = Some d1 \<Longrightarrow> 0 \<notin> set dir \<Longrightarrow> zf (m_segments d) \<Longrightarrow> zf (m_segments d1)"
  using segmentize_loop_zf [of dir "m_segments d" False t]
  by (auto simp: segments_into_def Segmentize_def Let_def split: if_splits)

lemma segments_nonempty_zf:
  "segments_nonempty t we dir d = Some d1 \<Longrightarrow> 0 \<notin> set dir \<Longrightarrow> zf (m_segments d) \<Longrightarrow> zf (m_segments d1)"
  by (auto simp: segments_nonempty_def dest: segments_into_zf split: option.splits if_splits)

lemma extract_if_zf: "extract_if t f dir = Some (dir1, file) \<Longrightarrow> 0 \<notin> set dir \<Longrightarrow> 0 \<notin> set dir1"
  by (auto simp: extract_if_def ExtractFile_def dest: in_set_takeD split: if_splits option.splits)

lemmas zero_free = in_set_takeD in_set_dropD in_set_butlastD

lemma change_VMS_zf: "change_VMS d we s f = Some (d1, fn) \<Longrightarrow> 0 \<notin> set s \<Longrightarrow> zf (m_segments d) \<Longrightarrow> zf (m_segments d1)"
  by (auto simp: change_VMS_def Let_def dest!: segments_nonempty_zf dest: zero_free split: option.splits if_splits)

lemma change_DOS_zf: "change_DOS t d we s f = Some (d1, fn) \<Longrightarrow> 0 \<notin> set s \<Longrightarrow> zf (m_segments d) \<Longrightarrow> zf (m_segments d1)"
  by (auto simp: change_DOS_def Let_def bind_eq_Some_conv dest!: segments_nonempty_zf extract_if_zf dest: zero_free split: if_splits)
    (auto simp: zf_def)

lemma strip_quotes_zf: "0 \<notin> set s \<Longrightarrow> 0 \<notin> set (strip_quotes s)"
  by (auto simp: strip_quotes_def dest!: set_dropWhileD)

lemma mvs_zf:
  "mvs_unquote d we s = Some (d1, s1) \<Longrightarrow> 0 \<notin> set s \<Longrightarrow> zf (m_segments d) \<Longrightarrow> 0 \<notin> set s1 \<and> zf (m_segments d1)"
  "mvs_member d we s f = Some (d1, s1, fn) \<Longrightarrow> 0 \<notin> set s \<Longrightarrow> 0 \<notin> set s1 \<and> m_segments d1 = m_segments d"
  "mvs_plain d we s f = Some (d1, s1, fn) \<Longrightarrow> 0 \<notin> set s \<Longrightarrow> 0 \<notin> set s1 \<and> m_segments d1 = m_segments d"
  by (auto simp: mvs_unquote_def mvs_member_def mvs_plain_def substr_def Let_def ExtractFile_def dest: zero_free split: if_splits option.splits)

lemma change_MVS_zf:
  assumes "change_MVS d we s f = Some (d1, fn)" "0 \<notin> set s" "zf (m_segments d)"
  shows "zf (m_segments d1)"
proof -
  obtain e s1 e2 s2 where e: "mvs_unquote d we (strip_quotes s) = Some (e, s1)"
    "mvs_member e we s1 f = Some (e2, s2, fn) \<or> mvs_plain e we s1 f = Some (e2, s2, fn)" "segments_into MVS s2 e2 = Some d1"
    using assms(1) by (auto simp: change_MVS_def bind_eq_Some_conv split: if_splits)
  have "0 \<notin> set s1" "zf (m_segments e)" using mvs_zf(1) [OF e(1)] strip_quotes_zf [OF assms(2)] assms(3) by auto
  then have "0 \<notin> set s2" "zf (m_segments e2)" using e(2) mvs_zf(2,3) [of e we s1 f e2 s2 fn] by auto
  then show ?thesis using segments_into_zf [OF e(3)] by simp
qed

lemma change_rest_zf:
  "change_HPNONSTOP d we s f = Some (d1, fn) \<Longrightarrow> 0 \<notin> set s \<Longrightarrow> zf (m_segments d) \<Longrightarrow> zf (m_segments d1)"
  "change_VXWORKS d we s f = Some (d1, fn) \<Longrightarrow> 0 \<notin> set s \<Longrightarrow> zf (m_segments d) \<Longrightarrow> zf (m_segments d1)"
  "change_CYGWIN d we s f = Some (d1, fn) \<Longrightarrow> 0 \<notin> set s \<Longrightarrow> zf (m_segments d) \<Longrightarrow> zf (m_segments d1)"
  "change_default t d we s f = Some (d1, fn) \<Longrightarrow> 0 \<notin> set s \<Longrightarrow> zf (m_segments d) \<Longrightarrow> zf (m_segments d1)"
  by (auto simp: change_HPNONSTOP_def change_VXWORKS_def change_CYGWIN_def change_default_def Let_def bind_eq_Some_conv empty_data_def
      dest!: segments_nonempty_zf segments_into_zf extract_if_zf dest: zero_free split: if_splits option.splits)

lemma change_by_type_zf:
  "change_by_type t d we s f = Some (d1, fn) \<Longrightarrow> 0 \<notin> set s \<Longrightarrow> zf (m_segments d) \<Longrightarrow> zf (m_segments d1)"
  using change_VMS_zf change_DOS_zf change_MVS_zf change_rest_zf by (cases t) (auto simp: change_by_type_def)

lemma SetPath_key_ok: "SetPath p s f = (True, q, file) \<Longrightarrow> 0 \<notin> set s \<Longrightarrow> key_ok q"
  by (auto simp: SetPath_def Let_def ChangePath_def DoChangePath_def get_data_def empty_data_def key_ok_def no_zeros_def segments_of_def
      path_empty_def zf_def dest!: change_by_type_zf split: if_splits option.splits prod.splits)

end
