(* ===== verification/Ftp_Paths.thy ===== *)
theory Ftp_Paths
  imports Ftp_Loop Path_Cache_Props Path_Zeros
begin

text \<open>
  The invariant of an FTP connection: what the operations on the stack may rely on, and that their handlers
  keep it.
\<close>

subsection \<open>Paths\<close>

definition path_ok :: "server_path \<Rightarrow> bool" where
  "path_ok p \<longleftrightarrow> path_empty p \<or> key_ok p"

lemma path_ok_alt: "path_ok p \<longleftrightarrow> zf (segments_of p)"
  by (auto simp: path_ok_def key_ok_def no_zeros_def zf_def segments_of_def path_empty_def split: option.split)

lemma key_ok_alt: "key_ok p \<longleftrightarrow> path_ok p \<and> \<not> path_empty p"
  by (auto simp: path_ok_def key_ok_def)

lemma path_ok_empty [simp]: "path_ok empty_path" "path_ok (clear_path p)"
  by (simp_all add: path_ok_def empty_path_def clear_path_def path_empty_def)

lemma SetType_ok [simp]: "path_ok (snd (SetType p t)) = path_ok p" "path_empty (snd (SetType p t)) = path_empty p"
  by (simp_all add: SetType_def path_ok_alt segments_of_def path_empty_def)

lemma AddSegment_ok: "path_ok p \<Longrightarrow> 0 \<notin> set s \<Longrightarrow> path_ok (snd (AddSegment p s))"
  by (auto simp: AddSegment_def path_ok_alt segments_of_def split: option.split)

lemma AddSegment_empty [simp]: "path_empty (snd (AddSegment p s)) = path_empty p"
  by (auto simp: AddSegment_def path_empty_def split: option.split)

lemma GetParent_ok: "path_ok p \<Longrightarrow> path_ok (GetParent p)"
  by (auto simp: GetParent_def MakeParent_def clear_path_def path_ok_alt segments_of_def zf_butlast split: option.split)

lemma GetParent_nonempty: "HasParent p \<Longrightarrow> \<not> path_empty (GetParent p)"
  by (auto simp: GetParent_def MakeParent_def HasParent_def path_empty_def split: option.splits)

lemma GetLastSegment_ok: "path_ok p \<Longrightarrow> HasParent p \<Longrightarrow> 0 \<notin> set (GetLastSegment p)"
  by (auto simp: GetLastSegment_def HasParent_def path_ok_alt segments_of_def zf_def split: option.splits if_splits)

lemma assumed_path_ok: "path_ok (cw_path d) \<Longrightarrow> 0 \<notin> set (cw_subDir d) \<Longrightarrow> path_ok (assumed_path d)"
  by (simp add: assumed_path_def AddSegment_ok GetParent_ok)

text \<open>What the theorems assume of the library.\<close>

definition lib_ok :: "'a fzlib_scheme \<Rightarrow> bool" where
  "lib_ok lib \<longleftrightarrow> opt_less_total lib \<and> mm_pick_member lib \<and> replace_substrings_all lib"

lemma replace_all_set: "set (replace_all f r s) \<subseteq> set r \<union> set s"
  by (induction f r s rule: replace_all.induct) (auto dest: in_set_dropD)

lemma replace_all_zf: "0 \<notin> set s \<Longrightarrow> 0 \<notin> set (replace_all [34, 34] [34] s)"
  using replace_all_set [of "[34, 34]" "[34]" s] by auto

lemma pwd_path_zf:
  assumes "lib_ok lib" "0 \<notin> set reply"
  shows "0 \<notin> set (pwd_path lib reply)"
proof -
  have z: "0 \<notin> set (drop n reply)" "0 \<notin> set (take m (drop n reply))" for m n using assms(2) by (auto dest: zero_free)
  then have "0 \<notin> set (replace_substrings lib (take m (drop n reply)) [34, 34] [34])" for m n
    using assms(1) replace_all_zf [of "take m (drop n reply)"] by (simp add: lib_ok_def replace_substrings_all_def)
  then show ?thesis using z by (auto simp: pwd_path_def Let_def split: option.split)
qed

lemma ParsePwdReply_ok:
  assumes "lib_ok lib" "0 \<notin> set reply" "path_ok dflt" "path_ok cur"
  shows "path_ok (snd (ParsePwdReply lib server reply dflt cur))"
    "fst (ParsePwdReply lib server reply dflt cur) \<Longrightarrow> key_ok (snd (ParsePwdReply lib server reply dflt cur))"
proof -
  let ?cur = "snd (SetType cur (srv_type server))"
  obtain ok p f where s: "SetPath ?cur (pwd_path lib reply) False = (ok, p, f)" by (metis prod.exhaust)
  have p: "path_ok p \<and> (ok \<longrightarrow> key_ok p)"
  proof (cases ok)
    case True
    then show ?thesis using SetPath_key_ok [of ?cur "pwd_path lib reply" False p f] s pwd_path_zf [OF assms(1,2)] by (simp add: key_ok_alt)
  next
    case False
    then have "pwd_path lib reply = [] \<and> p = ?cur \<or> path_empty p"
      using s by (auto simp: SetPath_def ChangePath_def Let_def clear_path_def path_empty_def split: if_splits option.splits prod.splits)
    then show ?thesis using False assms(4) SetType_ok(1) [of cur] by (metis path_ok_def)
  qed
  show "path_ok (snd (ParsePwdReply lib server reply dflt cur))"
    "fst (ParsePwdReply lib server reply dflt cur) \<Longrightarrow> key_ok (snd (ParsePwdReply lib server reply dflt cur))"
    using p s assms(3,4) by (auto simp: ParsePwdReply_def Let_def key_ok_alt split: if_splits)
qed

subsection \<open>What the operations share\<close>

definition targets_ok :: "path_cache \<Rightarrow> bool" where
  "targets_ok c \<longleftrightarrow> (\<forall>m\<in>snd ` set (pc_cache c). \<forall>t\<in>snd ` set m. key_ok t)"

lemma omap_find_values: "omap_find lt k m = Some v \<Longrightarrow> v \<in> snd ` set m"
  by (induction m) (auto split: if_splits)

lemma targets_Store:
  assumes "targets_ok c" "key_ok target" "pc_Store lib server target source subdir c = Some c1"
  shows "targets_ok c1"
proof -
  define m where "m = (case omap_find server_less server (pc_cache c) of None \<Rightarrow> [] | Some m \<Rightarrow> m)"
  define m1 where "m1 = omap_set (source_less lib) \<lparr>sp_source = source, sp_subdir = subdir\<rparr> target m"
  have m: "\<forall>t\<in>snd ` set m. key_ok t"
  proof (cases "omap_find server_less server (pc_cache c)")
    case (Some n)
    then have "m = n" by (simp add: m_def)
    then show ?thesis using assms(1) omap_find_values [OF Some] unfolding targets_ok_def by blast
  qed (simp add: m_def)
  have "snd ` set m1 \<subseteq> insert target (snd ` set m)" unfolding m1_def by (rule omap_set_vals)
  then have "\<forall>t\<in>snd ` set m1. key_ok t" using m assms(2) by blast
  moreover have "pc_cache c1 = omap_set server_less server m1 (pc_cache c)"
    using assms(3) unfolding pc_Store_def m_def m1_def Let_def by (auto split: if_splits)
  then have "snd ` set (pc_cache c1) \<subseteq> insert m1 (snd ` set (pc_cache c))" using omap_set_vals by simp
  ultimately show ?thesis using assms(1) unfolding targets_ok_def by blast
qed

lemma targets_Lookup:
  assumes "targets_ok c"
  shows "path_ok (fst (pc_Lookup lib server source subdir c))" "targets_ok (snd (pc_Lookup lib server source subdir c))"
proof -
  show "path_ok (fst (pc_Lookup lib server source subdir c))"
  proof (cases "omap_find server_less server (pc_cache c)")
    case (Some m)
    then have "\<forall>t\<in>snd ` set m. key_ok t" using assms omap_find_values [OF Some] unfolding targets_ok_def by blast
    then have "path_ok (lookup_source lib m source subdir)"
      unfolding lookup_source_def by (auto simp: key_ok_alt dest!: omap_find_values split: option.split)
    then show ?thesis using Some by (simp add: pc_Lookup_def Let_def)
  qed (simp add: pc_Lookup_def)
  show "targets_ok (snd (pc_Lookup lib server source subdir c))"
    using assms by (simp add: pc_Lookup_def targets_ok_def Let_def split: option.split)
qed

lemma targets_InvalidateServer: "targets_ok c \<Longrightarrow> targets_ok (pc_InvalidateServer server c)"
  using set_omap_erase [of server_less server "pc_cache c"]
  by (auto simp: pc_InvalidateServer_def targets_ok_def split: option.split)

lemma invalidate_source_subset: "set (invalidate_source lib path subdir m) \<subseteq> set m"
  using set_omap_erase [of "source_less lib" _ m]
  by (auto simp: invalidate_source_def Let_def split: option.splits prod.splits if_splits)

lemma targets_InvalidatePath:
  assumes "targets_ok c"
  shows "targets_ok (pc_InvalidatePath lib server path subdir c)"
proof (cases "omap_find server_less server (pc_cache c)")
  case (Some m)
  have "m \<in> snd ` set (pc_cache c)" by (rule omap_find_values [OF Some])
  then have inv: "\<forall>t\<in>snd ` set (invalidate_source lib path subdir m). key_ok t"
    using assms invalidate_source_subset [of lib path subdir m] unfolding targets_ok_def by blast
  have sub: "snd ` set (pc_cache (pc_InvalidatePath lib server path subdir c)) \<subseteq>
      insert (invalidate_source lib path subdir m) (snd ` set (pc_cache c))"
    using Some omap_set_vals by (simp add: pc_InvalidatePath_def)
  show ?thesis
    unfolding targets_ok_def
  proof
    fix n assume "n \<in> snd ` set (pc_cache (pc_InvalidatePath lib server path subdir c))"
    then have "n = invalidate_source lib path subdir m \<or> n \<in> snd ` set (pc_cache c)" using sub by blast
    then show "\<forall>t\<in>snd ` set n. key_ok t" using inv assms unfolding targets_ok_def by fast
  qed
qed (use assms in \<open>simp add: pc_InvalidatePath_def\<close>)

end
