(* ===== verification/Ftp_Inv.thy ===== *)
theory Ftp_Inv
  imports Ftp_Paths Op_Locks_System
begin

text \<open>
  The invariant of an FTP connection: the state that the operations share, what each of them relies on, and
  which operation may be on top of which.
\<close>

subsection \<open>The shared state\<close>

definition base_ok :: "'a fzlib_scheme \<Rightarrow> ftp \<Rightarrow> bool" where
  "base_ok lib w \<longleftrightarrow>
     cache_reach lib (fs_dirs w) \<and> path_cache_reach lib (fs_paths w) \<and> targets_ok (fs_paths w) \<and>
     system_ok lib (fs_locks w) \<and> path_ok (fs_path w) \<and> 0 \<notin> set (fs_response w)"

lemma base_ok_cong [simp]:
  "base_ok lib (w\<lparr>fs_pending := n\<rparr>) = base_ok lib w" "base_ok lib (w\<lparr>fs_skip := n\<rparr>) = base_ok lib w"
  "base_ok lib (w\<lparr>fs_ops := ops\<rparr>) = base_ok lib w" "base_ok lib (w\<lparr>fs_out := os\<rparr>) = base_ok lib w"
  "base_ok lib (w\<lparr>fs_next := k\<rparr>) = base_ok lib w" "base_ok lib (w\<lparr>fs_invalidate := b\<rparr>) = base_ok lib w"
  "base_ok lib (w\<lparr>fs_caps := caps\<rparr>) = base_ok lib w" "base_ok lib (w\<lparr>fs_lastTypeBinary := n\<rparr>) = base_ok lib w"
  "base_ok lib (w\<lparr>fs_connected := b\<rparr>) = base_ok lib w"
  by (simp_all add: base_ok_def)

lemma base_ok_path [simp]: "base_ok lib w \<Longrightarrow> base_ok lib (w\<lparr>fs_path := p\<rparr>) = path_ok p"
  by (simp add: base_ok_def)

lemma base_ok_dirs [simp]: "base_ok lib w \<Longrightarrow> base_ok lib (w\<lparr>fs_dirs := c\<rparr>) = cache_reach lib c"
  by (simp add: base_ok_def)

lemma base_ok_paths: "base_ok lib w \<Longrightarrow> path_cache_reach lib c \<Longrightarrow> targets_ok c \<Longrightarrow> base_ok lib (w\<lparr>fs_paths := c\<rparr>)"
  by (simp add: base_ok_def)

lemma base_ok_reach: "base_ok lib w \<Longrightarrow> cache_reach lib (fs_dirs w)"
  by (simp add: base_ok_def)

lemma base_ok_emit [simp]: "base_ok lib (emit x w) = base_ok lib w"
  by (simp add: emit_def)

lemma base_ok_clear [simp]: "base_ok lib w \<Longrightarrow> base_ok lib (clear_current w)"
  by (simp add: clear_current_def)

lemma base_ok_notify [simp]:
  "base_ok lib (SendDirectoryListingNotification p b w) = base_ok lib w"
  "base_ok lib (InvalidateCurrentWorkingDirs p w) = base_ok lib w"
  by (simp_all add: SendDirectoryListingNotification_def InvalidateCurrentWorkingDirs_def)

lemma fs_path_notify [simp]:
  "fs_path (SendDirectoryListingNotification p b w) = fs_path w" "fs_path (InvalidateCurrentWorkingDirs p w) = fs_path w"
  by (simp_all add: SendDirectoryListingNotification_def InvalidateCurrentWorkingDirs_def emit_def)

lemma SendCommand_ok:
  "base_ok lib (snd (SendCommand env cmd w)) = base_ok lib w" "fs_path (snd (SendCommand env cmd w)) = fs_path w"
  "fst (SendCommand env cmd w) \<noteq> FZ_REPLY_OK"
  by (auto simp: SendCommand_def real_send_def Let_def emit_def reply_codes split: prod.split)

lemma lookup_path_ok:
  assumes "base_ok lib w" "lookup_path lib path subdir w = (p, w1)"
  shows "base_ok lib w1 \<and> path_ok p \<and> fs_path w1 = fs_path w"
proof -
  have l: "path_ok (fst (pc_Lookup lib (fs_server w) path subdir (fs_paths w)))"
    "targets_ok (snd (pc_Lookup lib (fs_server w) path subdir (fs_paths w)))"
    using targets_Lookup assms(1) by (auto simp: base_ok_def)
  moreover have "path_cache_reach lib (snd (pc_Lookup lib (fs_server w) path subdir (fs_paths w)))"
    using assms(1) by (auto simp: base_ok_def intro: pc_lookup)
  ultimately show ?thesis using assms by (auto simp: lookup_path_def base_ok_def split: prod.splits)
qed

lemma store_path_ok:
  assumes "base_ok lib w" "key_ok source" "\<not> path_empty (fs_path w)"
  obtains w1 where "store_path lib source subdir w = Some w1" "base_ok lib w1" "fs_path w1 = fs_path w"
proof -
  have t: "key_ok (fs_path w)" using assms(1,3) by (simp add: base_ok_def key_ok_alt)
  obtain c where c: "pc_Store lib (fs_server w) (fs_path w) source subdir (fs_paths w) = Some c"
    using assms(2,3) by (auto simp: pc_Store_def Let_def key_ok_def)
  have "path_cache_reach lib c" "targets_ok c"
    using assms(1,2) pc_store [OF _ _ c] targets_Store [OF _ t c] by (auto simp: base_ok_def)
  then show ?thesis using that [of "w\<lparr>fs_paths := c\<rparr>"] c assms(1) by (simp add: store_path_def base_ok_paths)
qed

definition listing_ok :: "'a fzlib_scheme \<Rightarrow> listing \<Rightarrow> bool" where
  "listing_ok lib l \<longleftrightarrow> key_ok (ls_path l) \<and> cl_ok lib l"

lemma store_listing_ok:
  assumes "lib_ok lib" "base_ok lib w" "listing_ok lib l"
  obtains w1 where "store_listing lib env l w = Some w1" "base_ok lib w1" "fs_path w1 = fs_path w"
proof -
  have r: "cache_reach lib (fs_dirs w)" by (rule base_ok_reach [OF assms(2)])
  have lib: "opt_less_total lib" "mm_pick_member lib" using assms(1) by (auto simp: lib_ok_def)
  have l: "key_ok (ls_path l)" "cl_ok lib l" using assms(3) by (auto simp: listing_ok_def)
  obtain c where c: "Store lib (env_now env) l (fs_server w) (fs_dirs w) = Some c"
    using Store_ok [OF lib(1) cache_reach_ok [OF lib r] l] by blast
  have "cache_reach lib c" by (rule cache_reach.store [OF r l c])
  then show ?thesis using that [of "w\<lparr>fs_dirs := c\<rparr>"] c assms(2) by (simp add: store_listing_def)
qed

lemma take_lock_ok [simp]:
  "base_ok lib w \<Longrightarrow> base_ok lib (take_lock lib v reason path w)" "fs_path (take_lock lib v reason path w) = fs_path w"
  by (simp_all add: take_lock_def base_ok_def system_ok_acquire)

lemma lock_waits_ok:
  assumes "base_ok lib w"
  obtains b where "lock_waits v w = Some b"
  using assms by (fastforce simp: base_ok_def system_ok_def handles_ok_def lock_waits_def waiting_def Waiting_def lock_at_def split: if_splits)

lemma destroy_op_ok:
  assumes "base_ok lib w"
  obtains w1 s where "destroy_op op w = Some w1" "base_ok lib w1" "w1 = w\<lparr>fs_locks := s\<rparr>"
proof -
  obtain s where "release (op_var op) (fs_locks w) = Some s" "system_ok lib s"
    using system_ok_release [of lib "fs_locks w"] assms by (auto simp: base_ok_def)
  then show ?thesis using that [of "w\<lparr>fs_locks := s\<rparr>" s] assms by (simp add: destroy_op_def base_ok_def)
qed

lemma parse_pwd_ok:
  assumes "lib_ok lib" "base_ok lib w" "path_ok p" "parse_pwd lib p w = (ok, w1)"
  shows "base_ok lib w1 \<and> (ok \<longrightarrow> key_ok (fs_path w1))"
  using assms ParsePwdReply_ok [of lib "fs_response w" p "fs_path w" "fs_server w"]
  by (auto simp: parse_pwd_def base_ok_def split: prod.splits)

end
