(* ===== verification/Ftp_Handlers.thy ===== *)
theory Ftp_Handlers
  imports Ftp_Inv
begin

text \<open>
  What each operation relies on between its calls, and that its handlers give a result and keep that.
\<close>

subsection \<open>The data of the operations\<close>

fun cwd_ok :: "cwd_op \<Rightarrow> bool" where
  "cwd_ok d \<longleftrightarrow>
     path_ok (cw_path d) \<and> path_ok (cw_target d) \<and> 0 \<notin> set (cw_subDir d) \<and>
     (cw_state d \<notin> {cwd_init, cwd_pwd} \<longrightarrow> key_ok (cw_path d))"

fun mkd_ok :: "mkd_op \<Rightarrow> bool" where
  "mkd_ok d \<longleftrightarrow>
     path_ok (mk_path d) \<and> zf (mk_segments d) \<and>
     (mk_state d \<in> {mkd_findparent, mkd_mkdsub, mkd_cwdsub} \<longrightarrow> mk_segments d \<noteq> [] \<and> key_ok (mk_currentMkdPath d))"

fun list_ok :: "'a fzlib_scheme \<Rightarrow> (direntry \<Rightarrow> bool) \<Rightarrow> list_op \<Rightarrow> bool" where
  "list_ok lib has_date d \<longleftrightarrow>
     (lo_state d = list_init \<longrightarrow> path_ok (lo_dir d) \<and> 0 \<notin> set (lo_subDir d)) \<and>
     (lo_state d \<in> {list_init, list_waitcwd, list_waitlock} \<longrightarrow> \<not> lo_viewHiddenCheck d \<and> \<not> lo_viewHidden d) \<and>
     (lo_state d = list_waitlock \<longrightarrow> lo_subDir d = []) \<and>
     (lo_state d = list_waittransfer \<longrightarrow> lo_viewHiddenCheck d \<longrightarrow> lo_viewHidden d \<longrightarrow> listing_ok lib (lo_listing d)) \<and>
     (lo_state d = list_mdtm \<longrightarrow> listing_ok lib (lo_listing d) \<and> lo_mdtm_index d < ls_size (lo_listing d) \<and>
        has_date (ls_entries (lo_listing d) ! lo_mdtm_index d))"

fun op_ok :: "'a fzlib_scheme \<Rightarrow> (direntry \<Rightarrow> bool) \<Rightarrow> op_data \<Rightarrow> bool" where
  "op_ok lib has_date (Cwd d) = cwd_ok d"
| "op_ok lib has_date (Mkd d) = mkd_ok d"
| "op_ok lib has_date (Rmd d) = path_ok (rm_path d)"
| "op_ok lib has_date (Del d) = (path_ok (dl_path d) \<and> dl_files d \<noteq> [])"
| "op_ok lib has_date (Ren d) = path_ok (rn_fromPath d)"
| "op_ok lib has_date (Chm d) = path_ok (ch_path d)"
| "op_ok lib has_date (Raw c) = True"
| "op_ok lib has_date (Lst d) = list_ok lib has_date d"
| "op_ok lib has_date (Other k) = True"

text \<open>The operations that work in the current directory, which must be known.\<close>

fun needs_path :: "op_data \<Rightarrow> bool" where
  "needs_path (Lst d) = (lo_state d \<in> {list_waitlock, list_waittransfer, list_mdtm})"
| "needs_path _ = False"

text \<open>Which operation is on top of which.\<close>

fun fresh :: "op_data \<Rightarrow> bool" where
  "fresh (Cwd d) = False"
| "fresh (Mkd d) = (mk_state d = mkd_init)"
| "fresh (Rmd d) = (rm_state d = rmd_init)"
| "fresh (Del d) = (dl_state d = del_init)"
| "fresh (Ren d) = (rn_state d = rename_init)"
| "fresh (Chm d) = (ch_state d = chmod_init)"
| "fresh (Raw c) = True"
| "fresh (Lst d) = (lo_state d = list_init)"
| "fresh (Other k) = (case k of FileTransfer b \<Rightarrow> True | _ \<Rightarrow> False)"

fun waits_cwd :: "op_data \<Rightarrow> bool" where
  "waits_cwd (Rmd d) = (rm_state d = rmd_waitcwd)"
| "waits_cwd (Del d) = (dl_state d = del_waitcwd)"
| "waits_cwd (Ren d) = (rn_state d = rename_waitcwd)"
| "waits_cwd (Chm d) = (ch_state d = chmod_waitcwd)"
| "waits_cwd (Lst d) = (lo_state d = list_waitcwd)"
| "waits_cwd (Other k) = (case k of FileTransfer b \<Rightarrow> True | _ \<Rightarrow> False)"
| "waits_cwd _ = False"

fun sits_on :: "op_data \<Rightarrow> op_data \<Rightarrow> bool" where
  "sits_on (Cwd d) y = waits_cwd y"
| "sits_on (Mkd d) y = (case y of Cwd e \<Rightarrow> cw_state e = cwd_cwd | _ \<Rightarrow> False)"
| "sits_on (Lst d) y = (case y of Other (FileTransfer b) \<Rightarrow> True | _ \<Rightarrow> False)"
| "sits_on (Other k) y =
     (case k of
        Logon t \<Rightarrow> t \<and> fresh y
      | RawTransfer c \<Rightarrow> (case y of Lst d \<Rightarrow> lo_state d = list_waittransfer | Other (FileTransfer b) \<Rightarrow> True | _ \<Rightarrow> False)
      | FileTransfer b \<Rightarrow> False)"
| "sits_on x y = False"

subsection \<open>What a handler gives\<close>

definition stays :: "int \<Rightarrow> bool" where
  "stays res \<longleftrightarrow> res = FZ_REPLY_CONTINUE \<or> res = FZ_REPLY_WOULDBLOCK"

definition ended :: "int \<Rightarrow> bool" where
  "ended res \<longleftrightarrow> res = FZ_REPLY_OK \<or> has_flag res FZ_REPLY_ERROR"

fun same_kind :: "op_data \<Rightarrow> op_data \<Rightarrow> bool" where
  "same_kind (Cwd d) y = (case y of Cwd e \<Rightarrow> True | _ \<Rightarrow> False)"
| "same_kind (Mkd d) y = (case y of Mkd e \<Rightarrow> True | _ \<Rightarrow> False)"
| "same_kind (Rmd d) y = (case y of Rmd e \<Rightarrow> True | _ \<Rightarrow> False)"
| "same_kind (Del d) y = (case y of Del e \<Rightarrow> True | _ \<Rightarrow> False)"
| "same_kind (Ren d) y = (case y of Ren e \<Rightarrow> True | _ \<Rightarrow> False)"
| "same_kind (Chm d) y = (case y of Chm e \<Rightarrow> True | _ \<Rightarrow> False)"
| "same_kind (Raw d) y = (case y of Raw e \<Rightarrow> True | _ \<Rightarrow> False)"
| "same_kind (Lst d) y = (case y of Lst e \<Rightarrow> True | _ \<Rightarrow> False)"
| "same_kind (Other j) y = (y = Other j)"

text \<open>
  The result \<open>r\<close> of a handler of the operation \<open>x\<close>, with the data wrapped by \<open>f\<close>: it is there, the shared state is
  good, and the operation and what it pushed are good if it goes on.
\<close>

definition result_ok ::
  "'a fzlib_scheme \<Rightarrow> (direntry \<Rightarrow> bool) \<Rightarrow> op_data \<Rightarrow> int \<Rightarrow> op_data \<Rightarrow> ftp \<Rightarrow> op_data list \<Rightarrow> bool" where
  "result_ok lib has_date x res y w ps \<longleftrightarrow>
     base_ok lib w \<and> same_kind x y \<and>
     (stays res \<longrightarrow> op_ok lib has_date y \<and> (needs_path y \<longrightarrow> key_ok (fs_path w)) \<and>
        (ps = [] \<or> (\<exists>p. ps = [p] \<and> op_ok lib has_date p \<and> sits_on p y \<and> \<not> needs_path p))) \<and>
     (\<not> stays res \<longrightarrow> ps = [] \<and> ended res \<and> (res = FZ_REPLY_OK \<longrightarrow> (\<exists>e. x = Cwd e) \<longrightarrow> key_ok (fs_path w)))"

definition outcome_ok :: "'a fzlib_scheme \<Rightarrow> (direntry \<Rightarrow> bool) \<Rightarrow> ('d \<Rightarrow> op_data) \<Rightarrow> op_data \<Rightarrow> 'd outcome \<Rightarrow> bool" where
  "outcome_ok lib has_date f x r \<longleftrightarrow>
     (case r of None \<Rightarrow> False | Some (res, d, w, ps) \<Rightarrow> result_ok lib has_date x res (f d) w ps)"

lemma stays_simps [simp]:
  "stays FZ_REPLY_CONTINUE" "stays FZ_REPLY_WOULDBLOCK" "\<not> stays FZ_REPLY_OK" "\<not> stays FZ_REPLY_ERROR"
  "\<not> stays FZ_REPLY_INTERNALERROR" "\<not> stays FZ_REPLY_LINKNOTDIR"
  by (simp_all add: stays_def reply_codes)

lemma ended_simps [simp]:
  "ended FZ_REPLY_OK" "ended FZ_REPLY_ERROR" "ended FZ_REPLY_INTERNALERROR" "ended FZ_REPLY_LINKNOTDIR"
  by (simp_all add: ended_def has_flag_def reply_codes)

lemma reply_distinct [simp]:
  "FZ_REPLY_ERROR \<noteq> FZ_REPLY_OK" "FZ_REPLY_INTERNALERROR \<noteq> FZ_REPLY_OK" "FZ_REPLY_LINKNOTDIR \<noteq> FZ_REPLY_OK"
  "FZ_REPLY_CONTINUE \<noteq> FZ_REPLY_OK" "FZ_REPLY_WOULDBLOCK \<noteq> FZ_REPLY_OK" "FZ_REPLY_CONTINUE \<noteq> FZ_REPLY_WOULDBLOCK"
  by (simp_all add: reply_codes)

declare reply_distinct [symmetric, simp]

lemma outcome_Some:
  "outcome_ok lib has_date f x (Some (res, d, w, [])) \<longleftrightarrow>
     base_ok lib w \<and> same_kind x (f d) \<and>
     (stays res \<longrightarrow> op_ok lib has_date (f d) \<and> (needs_path (f d) \<longrightarrow> key_ok (fs_path w))) \<and>
     (\<not> stays res \<longrightarrow> ended res) \<and> (res = FZ_REPLY_OK \<longrightarrow> (\<exists>e. x = Cwd e) \<longrightarrow> key_ok (fs_path w))"
  "outcome_ok lib has_date f x (Some (FZ_REPLY_CONTINUE, d, w, [p])) \<longleftrightarrow>
     base_ok lib w \<and> same_kind x (f d) \<and> op_ok lib has_date (f d) \<and> op_ok lib has_date p \<and> sits_on p (f d) \<and>
     \<not> needs_path p \<and> (needs_path (f d) \<longrightarrow> key_ok (fs_path w))"
  by (auto simp: outcome_ok_def result_ok_def stays_def reply_codes)

lemma SendCommand_code: "fst (SendCommand env cmd w) = FZ_REPLY_WOULDBLOCK \<or> fst (SendCommand env cmd w) = FZ_REPLY_ERROR"
  by (simp add: SendCommand_def Let_def split: prod.split)

lemma outcome_send:
  assumes "base_ok lib w" "op_ok lib has_date (f d)" "same_kind x (f d)" "needs_path (f d) \<longrightarrow> key_ok (fs_path w)"
  shows "outcome_ok lib has_date f x (send_as env cmd d w)"
  using assms SendCommand_ok(1) [of lib env cmd w] SendCommand_ok(2) [of env cmd w] SendCommand_code [of env cmd w]
  by (auto simp: send_as_def outcome_Some split: prod.split)

lemma outcome_fail:
  "base_ok lib w \<Longrightarrow> same_kind x (f d) \<Longrightarrow> outcome_ok lib has_date f x (Some (FZ_REPLY_ERROR, d, w, []))"
  "base_ok lib w \<Longrightarrow> same_kind x (f d) \<Longrightarrow> outcome_ok lib has_date f x (Some (FZ_REPLY_INTERNALERROR, d, w, []))"
  by (simp_all add: outcome_Some)

lemma ChangeDir_ok:
  assumes "fs_ops w = op # ops" "\<And>k. op_data op \<noteq> Other k" "path_ok p" "0 \<notin> set s"
  obtains c where "ChangeDir p s b (fs_ops w) = Some c" "op_ok lib has_date c" "\<not> needs_path c" "\<And>y. sits_on c y = waits_cwd y"
  using that assms by (cases "op_data op") (auto simp: ChangeDir_def)


subsection \<open>Changing the directory\<close>

lemma path_eq_empty: "path_eq p q \<Longrightarrow> path_empty p = path_empty q"
  by (auto simp: path_eq_def path_empty_def split: if_splits)

lemma base_key: "base_ok lib w \<Longrightarrow> \<not> path_empty (fs_path w) \<Longrightarrow> key_ok (fs_path w)"
  by (simp add: base_ok_def key_ok_alt)

lemma cwd_start_ok:
  assumes w: "base_ok lib w" and d: "cwd_ok d" and s: "cwd_start lib d w = (res, d1, w1)"
  shows "base_ok lib w1 \<and> (stays res \<longrightarrow> cwd_ok d1) \<and> (res = FZ_REPLY_OK \<longrightarrow> key_ok (fs_path w1))"
proof -
  define path where "path = (if m_type (cw_path d) = DEFAULT then snd (SetType (cw_path d) (srv_type (fs_server w))) else cw_path d)"
  have p: "path_ok path" using d by (simp add: path_def)
  obtain t1 w2 where l1: "lookup_path lib path (cw_subDir d) w = (t1, w2)" by fastforce
  obtain t2 w3 where l2: "lookup_path lib path [] w2 = (t2, w3)" by fastforce
  have a: "base_ok lib w2" "path_ok t1" "fs_path w2 = fs_path w" using lookup_path_ok [OF w l1] by auto
  have b: "base_ok lib w3" "path_ok t2" "fs_path w3 = fs_path w" using lookup_path_ok [OF a(1) l2] a(3) by auto
  have k: "key_ok (fs_path w)" if "\<not> path_empty (fs_path w)" using base_key [OF w that] .
  consider "path_empty path" | "\<not> path_empty path" "cw_subDir d \<noteq> []" | "\<not> path_empty path" "cw_subDir d = []" by blast
  then show ?thesis
  proof cases
    case 1
    then show ?thesis using s w d p k by (auto simp: cwd_start_def Let_def path_def [symmetric] split: if_splits)
  next
    case 2
    have e: "path_eq (fs_path w) t1 \<Longrightarrow> \<not> path_empty t1 \<Longrightarrow> \<not> path_empty (fs_path w)" using path_eq_empty by blast
    show ?thesis
    proof (cases "path_empty t1")
      case True
      then show ?thesis using 2 s b d p l1 l2 by (auto simp: cwd_start_def Let_def path_def [symmetric] key_ok_alt split: if_splits)
    next
      case False
      then show ?thesis using 2 s a d p k e l1 by (auto simp: cwd_start_def Let_def path_def [symmetric] key_ok_alt split: if_splits)
    qed
  next
    case 3
    have e: "path_eq (fs_path w) path \<or> \<not> path_empty t1 \<and> path_eq t1 (fs_path w) \<Longrightarrow> \<not> path_empty (fs_path w)"
      using 3 path_eq_empty by blast
    show ?thesis
    proof (cases "path_eq (fs_path w) path \<or> \<not> path_empty t1 \<and> path_eq t1 (fs_path w)")
      case True
      then show ?thesis using 3 s a k [OF e] l1 by (simp add: cwd_start_def Let_def path_def [symmetric])
    next
      case False
      then show ?thesis using 3 s a d p l1 by (auto simp: cwd_start_def Let_def path_def [symmetric] key_ok_alt)
    qed
  qed
qed

lemma cwd_start_code: "cwd_start lib d w = (res, d1, w1) \<Longrightarrow> stays res \<or> ended res"
  by (auto simp: cwd_start_def Let_def split: if_splits prod.splits)

lemma cwd_Send_ok:
  assumes "base_ok lib w" "cwd_ok d"
  shows "outcome_ok lib has_date Cwd (Cwd d) (cwd_Send lib env v d w)"
proof (cases "cw_state d")
  case cwd_init
  obtain res d1 w1 where s: "cwd_start lib d w = (res, d1, w1)" by (metis prod.exhaust)
  show ?thesis using cwd_init s cwd_start_ok [OF assms s] cwd_start_code [OF s] by (auto simp: cwd_Send_def outcome_Some)
next
  case cwd_cwd
  define w1 where "w1 = (if cw_tryMkdOnFail d then take_lock lib v reason_mkdir (cw_path d) w else w)"
  have w1: "base_ok lib w1" using assms(1) by (simp add: w1_def)
  obtain b where b: "lock_waits v w1 = Some b" using lock_waits_ok [OF w1] .
  have "outcome_ok lib has_date Cwd (Cwd d) (send_as env (L ''CWD '' @ GetPath lib (cw_path d)) d (clear_current w1))"
    by (rule outcome_send) (use w1 assms in simp_all)
  then show ?thesis using cwd_cwd b w1 assms by (simp add: cwd_Send_def w1_def [symmetric] outcome_Some)
next
  case cwd_cwd_subdir
  have "outcome_ok lib has_date Cwd (Cwd d) (send_as env c d (clear_current w))" for c
    by (rule outcome_send) (use assms in simp_all)
  then show ?thesis using cwd_cwd_subdir assms by (simp add: cwd_Send_def outcome_Some del: cwd_ok.simps)
qed (use assms outcome_send [of lib w has_date Cwd d "Cwd d" env "L ''PWD''"] in \<open>simp_all add: cwd_Send_def\<close>)

lemma cwd_known_ok:
  assumes "base_ok lib w" "cwd_ok d" "key_ok (cw_path d)" "key_ok (fs_path w)"
  shows "outcome_ok lib has_date Cwd (Cwd d) (cwd_known lib d w)"
    "outcome_ok lib has_date Cwd (Cwd d) (cwd_known_subdir lib d w)"
proof -
  have n: "\<not> path_empty (fs_path w)" using assms(4) by (simp add: key_ok_alt)
  obtain w1 where "store_path lib (cw_path d) [] w = Some w1" "base_ok lib w1" "fs_path w1 = fs_path w"
    using store_path_ok [OF assms(1,3) n] .
  then show "outcome_ok lib has_date Cwd (Cwd d) (cwd_known lib d w)"
    using assms by (auto simp: cwd_known_def outcome_Some)
  obtain w2 where "store_path lib (cw_path d) (cw_subDir d) w = Some w2" "base_ok lib w2" "fs_path w2 = fs_path w"
    using store_path_ok [OF assms(1,3) n] .
  then show "outcome_ok lib has_date Cwd (Cwd d) (cwd_known_subdir lib d w)"
    using assms by (auto simp: cwd_known_subdir_def outcome_Some)
qed

lemma cwd_pwd_known:
  assumes lib: "lib_ok lib" and w: "base_ok lib w" and d: "cwd_ok d" "key_ok (cw_path d)" and p: "path_ok p"
  shows "outcome_ok lib has_date Cwd (Cwd d)
      (case parse_pwd lib p w of (ok, w1) \<Rightarrow> if ok then cwd_known lib d w1 else Some (FZ_REPLY_ERROR, d, w1, []))"
    "outcome_ok lib has_date Cwd (Cwd d)
      (case parse_pwd lib p w of (ok, w1) \<Rightarrow> if ok then cwd_known_subdir lib d w1 else Some (FZ_REPLY_ERROR, d, w1, []))"
proof -
  obtain ok w1 where s: "parse_pwd lib p w = (ok, w1)" by fastforce
  have k: "base_ok lib w1" "ok \<Longrightarrow> key_ok (fs_path w1)" using parse_pwd_ok [OF lib w p s] by auto
  show "outcome_ok lib has_date Cwd (Cwd d)
      (case parse_pwd lib p w of (ok, w1) \<Rightarrow> if ok then cwd_known lib d w1 else Some (FZ_REPLY_ERROR, d, w1, []))"
    "outcome_ok lib has_date Cwd (Cwd d)
      (case parse_pwd lib p w of (ok, w1) \<Rightarrow> if ok then cwd_known_subdir lib d w1 else Some (FZ_REPLY_ERROR, d, w1, []))"
    using s k cwd_known_ok [OF k(1) d] outcome_fail(1) [OF k(1), of "Cwd d" Cwd d] by auto
qed

lemma cwd_ParseResponse_ok:
  assumes lib: "lib_ok lib" and w: "base_ok lib w" and d: "cwd_ok d"
  shows "outcome_ok lib has_date Cwd (Cwd d) (cwd_ParseResponse lib d w)"
proof (cases "cw_state d")
  case cwd_init
  then show ?thesis using w d by (simp add: cwd_ParseResponse_def outcome_Some)
next
  case cwd_pwd
  obtain ok w1 where s: "parse_pwd lib empty_path w = (ok, w1)" by fastforce
  then show ?thesis using cwd_pwd parse_pwd_ok [OF lib w _ s] w by (simp add: cwd_ParseResponse_def outcome_Some)
next
  case cwd_cwd
  then show ?thesis using w d by (auto simp: cwd_ParseResponse_def outcome_Some Mkdir_def Let_def key_ok_alt)
next
  case cwd_pwd_cwd
  then have k: "key_ok (cw_path d)" using d by simp
  then have p: "path_ok (cw_path d)" by (simp add: key_ok_alt)
  show ?thesis using cwd_pwd_cwd cwd_known_ok(1) [of lib "w\<lparr>fs_path := cw_path d\<rparr>" d] cwd_pwd_known(1) [OF lib w d k p] w d k p
    by (simp add: cwd_ParseResponse_def del: cwd_ok.simps)
next
  case cwd_cwd_subdir
  then show ?thesis using w d by (auto simp: cwd_ParseResponse_def outcome_Some)
next
  case cwd_pwd_subdir
  then have k: "key_ok (cw_path d)" using d by simp
  have p: "path_ok (assumed_path d)" using d assumed_path_ok by simp
  show ?thesis using cwd_pwd_subdir cwd_known_ok(2) [of lib "w\<lparr>fs_path := assumed_path d\<rparr>" d] cwd_pwd_known(2) [OF lib w d k p]
      outcome_fail(1) [OF w, of "Cwd d" Cwd d] w d k p
    by (simp add: cwd_ParseResponse_def Let_def key_ok_alt del: cwd_ok.simps)
qed

subsection \<open>Creating directories\<close>

lemma mkd_start_ok:
  assumes "mkd_ok d" "mkd_start lib d w = (res, d1)" "mk_state d = mkd_init"
  shows "(stays res \<longrightarrow> mkd_ok d1) \<and> (stays res \<or> ended res)"
proof (cases "HasParent (mk_path d)")
  case True
  then have "0 \<notin> set (GetLastSegment (mk_path d))" "key_ok (GetParent (mk_path d))"
    using assms(1) GetLastSegment_ok GetParent_ok GetParent_nonempty by (auto simp: key_ok_alt)
  then show ?thesis using assms True by (auto simp: mkd_start_def Let_def split: if_splits)
next
  case False
  then show ?thesis using assms by (auto simp: mkd_start_def Let_def split: if_splits)
qed

lemma mkd_Send_ok:
  assumes w: "base_ok lib w" and d: "mkd_ok d"
  shows "outcome_ok lib has_date Mkd (Mkd d) (mkd_Send lib env v d w)"
proof -
  define w1 where "w1 = take_lock lib v reason_mkdir (mk_path d) w"
  have w1: "base_ok lib w1" using w by (simp add: w1_def)
  obtain b where b: "lock_waits v w1 = Some b" using lock_waits_ok [OF w1] .
  have send: "base_ok lib w2 \<Longrightarrow> outcome_ok lib has_date Mkd (Mkd d) (send_as env c d w2)" for c w2
    by (rule outcome_send) (use d in simp_all)
  show ?thesis
  proof (cases "b \<or> mk_state d = mkd_init")
    case True
    obtain res d1 where s: "mkd_start lib d w1 = (res, d1)" by fastforce
    show ?thesis using True b w1 d s mkd_start_ok [OF d s]
      by (auto simp: mkd_Send_def w1_def [symmetric] Let_def outcome_Some simp del: mkd_ok.simps)
  next
    case False
    then show ?thesis using b send [OF w1] send [OF base_ok_clear [OF w1]] d
      by (cases "mk_state d"; cases "mk_segments d") (simp_all add: mkd_Send_def w1_def [symmetric] Let_def)
  qed
qed

lemma mkd_made_ok:
  assumes w: "base_ok lib w" and d: "mkd_ok d" "mk_state d = mkd_mkdsub"
  shows "outcome_ok lib has_date Mkd (Mkd d) (mkd_made lib env d w)"
proof -
  obtain s ss where seg: "mk_segments d = s # ss" using d by (cases "mk_segments d") auto
  define r where "r = (if ok_code w then (FZ_REPLY_OK, w)
     else case LookupFile_dir lib (env_now env) (fs_server w) (mk_currentMkdPath d) s (fs_dirs w) of
       ((found, _), c) \<Rightarrow>
         (case found of Some (entry, _) \<Rightarrow> if is_dir entry then FZ_REPLY_OK else FZ_REPLY_ERROR | None \<Rightarrow> FZ_REPLY_OK,
          w\<lparr>fs_dirs := c\<rparr>))"
  have r: "base_ok lib (snd r)" "fst r = FZ_REPLY_OK \<or> fst r = FZ_REPLY_ERROR"
    using w base_ok_reach [OF w] cache_reach.lookup_dir [of lib "fs_dirs w" "env_now env" "fs_server w" "mk_currentMkdPath d" s]
    by (auto simp: r_def split: prod.split option.split)
  define w2 where "w2 = (snd r)\<lparr>fs_dirs := snd (UpdateFile lib (env_now env) (fs_server (snd r)) (mk_currentMkdPath d) s True ft_dir (-1) [] (fs_dirs (snd r)))\<rparr>"
  have w2: "base_ok lib (SendDirectoryListingNotification (mk_currentMkdPath d) False w2)"
    using r(1) base_ok_reach [OF r(1)] by (simp add: w2_def cache_reach.update)
  have k: "key_ok (snd (AddSegment (mk_currentMkdPath d) s))"
    using d seg AddSegment_ok [of "mk_currentMkdPath d" s] by (simp add: key_ok_alt)
  have "mkd_made lib env d w =
      (let d1 = d\<lparr>mk_currentMkdPath := snd (AddSegment (mk_currentMkdPath d) s), mk_segments := ss\<rparr>;
           w3 = SendDirectoryListingNotification (mk_currentMkdPath d) False w2
       in if ss = [] \<or> fst r \<noteq> FZ_REPLY_OK then Some (fst r, d1, w3, [])
          else Some (FZ_REPLY_CONTINUE, d1\<lparr>mk_state := mkd_cwdsub\<rparr>, w3, []))"
    unfolding mkd_made_def seg list.case r_def [symmetric] by (cases r) (simp add: w2_def Let_def)
  then show ?thesis using w2 k r(2) d seg by (auto simp: Let_def outcome_Some)
qed

lemma mkd_ParseResponse_ok:
  assumes w: "base_ok lib w" and d: "mkd_ok d" and r: "4 \<le> length (fs_response w)"
  shows "outcome_ok lib has_date Mkd (Mkd d) (mkd_ParseResponse lib env d w)"
proof (cases "mk_state d")
  case mkd_findparent
  have "0 \<notin> set (GetLastSegment (mk_currentMkdPath d)) \<and> key_ok (GetParent (mk_currentMkdPath d))" if "HasParent (mk_currentMkdPath d)"
    using that d mkd_findparent GetLastSegment_ok GetParent_ok GetParent_nonempty by (auto simp: key_ok_alt)
  then show ?thesis using mkd_findparent w d by (auto simp: mkd_ParseResponse_def outcome_Some key_ok_alt)
next
  case mkd_mkdsub
  then show ?thesis using r mkd_made_ok [OF w d mkd_mkdsub] outcome_fail(2) [OF w, of "Mkd d" Mkd "d\<lparr>mk_state := mkd_tryfull\<rparr>"]
    by (auto simp: mkd_ParseResponse_def)
next
  case mkd_cwdsub
  then show ?thesis using w d by (auto simp: mkd_ParseResponse_def outcome_Some key_ok_alt)
qed (use w d in \<open>simp_all add: mkd_ParseResponse_def outcome_Some\<close>)

subsection \<open>Removing, deleting, renaming, permissions and raw commands\<close>

definition paths_ok :: "'a fzlib_scheme \<Rightarrow> path_cache \<Rightarrow> bool" where
  "paths_ok lib c \<longleftrightarrow> path_cache_reach lib c \<and> targets_ok c"

lemma base_ok_fs_paths [simp]: "base_ok lib w \<Longrightarrow> base_ok lib (w\<lparr>fs_paths := c\<rparr>) = paths_ok lib c"
  by (simp add: base_ok_def paths_ok_def)

lemma paths_ok_simps [simp]:
  "base_ok lib w \<Longrightarrow> paths_ok lib (fs_paths w)"
  "paths_ok lib c \<Longrightarrow> paths_ok lib (pc_InvalidatePath lib server path subdir c)"
  "paths_ok lib c \<Longrightarrow> paths_ok lib (pc_InvalidateServer server c)"
  by (simp_all add: base_ok_def paths_ok_def pc_path pc_server targets_InvalidatePath targets_InvalidateServer)

lemma dirs_ok_simps [simp]:
  "base_ok lib w \<Longrightarrow> cache_reach lib (fs_dirs w)"
  "cache_reach lib c \<Longrightarrow> cache_reach lib (snd (InvalidateFile lib now server path name c))"
  "cache_reach lib c \<Longrightarrow> cache_reach lib (snd (UpdateFile lib now server path name mc t sz og c))"
  "cache_reach lib c \<Longrightarrow> cache_reach lib (snd (RemoveFile lib now server path name c))"
  "cache_reach lib c \<Longrightarrow> cache_reach lib (RemoveDir lib now server path name c)"
  "cache_reach lib c \<Longrightarrow> cache_reach lib (Rename lib now server path name path' name' c)"
  "cache_reach lib c \<Longrightarrow> cache_reach lib (InvalidateServer lib server c)"
  by (simp_all add: base_ok_reach cache_reach.intros)

lemma rmd_Send_ok:
  assumes w: "base_ok lib w" "fs_ops w = op # ops" and op: "op_data op = Rmd d" and d: "path_ok (rm_path d)"
  shows "outcome_ok lib has_date Rmd (Rmd d) (rmd_Send lib env d w)"
proof (cases "rm_state d")
  case rmd_init
  obtain c where "ChangeDir (rm_path d) [] False (fs_ops w) = Some c" "op_ok lib has_date c" "\<not> needs_path c" "\<And>y. sits_on c y = waits_cwd y"
    by (rule ChangeDir_ok [OF w(2)]) (use op d in auto)
  then show ?thesis using rmd_init w d by (simp add: rmd_Send_def outcome_Some)
next
  case rmd_rmd
  obtain p w1 where l: "lookup_path lib (rm_path d) (rm_subDir d) w = (p, w1)" by fastforce
  have w1: "base_ok lib w1" using lookup_path_ok [OF w(1) l] by simp
  have send: "base_ok lib w2 \<Longrightarrow> outcome_ok lib has_date Rmd (Rmd d) (send_as env c (d\<lparr>rm_fullPath := q\<rparr>) w2)"
    "base_ok lib w2 \<Longrightarrow> outcome_ok lib has_date Rmd (Rmd d) (send_as env c d w2)" for c w2 q
    by (auto intro!: outcome_send simp: d)
  show ?thesis using rmd_rmd w1 l by (auto simp: rmd_Send_def Let_def split: prod.split intro!: send outcome_fail)
qed (use w d in \<open>simp add: rmd_Send_def outcome_Some\<close>)

lemma rmd_ParseResponse_ok:
  assumes w: "base_ok lib w" and d: "path_ok (rm_path d)"
  shows "outcome_ok lib has_date Rmd (Rmd d) (rmd_ParseResponse lib env d w)"
proof -
  obtain p w1 where l: "lookup_path lib (rm_path d) (rm_subDir d) w = (p, w1)" by fastforce
  have "base_ok lib w1" using lookup_path_ok [OF w l] by simp
  then show ?thesis using w d l by (simp add: rmd_ParseResponse_def Let_def outcome_Some)
qed

lemma del_Send_ok:
  assumes w: "base_ok lib w" "fs_ops w = op # ops" and op: "op_data op = Del d" and d: "op_ok lib has_date (Del d)"
  shows "outcome_ok lib has_date Del (Del d) (del_Send lib env d w)"
proof (cases "dl_state d")
  case del_init
  obtain c where "ChangeDir (dl_path d) [] False (fs_ops w) = Some c" "op_ok lib has_date c" "\<not> needs_path c" "\<And>y. sits_on c y = waits_cwd y"
    by (rule ChangeDir_ok [OF w(2)]) (use op d in auto)
  then show ?thesis using del_init w d by (simp add: del_Send_def outcome_Some)
next
  case del_del
  obtain n ns where "dl_files d = n # ns" using d by (cases "dl_files d") auto
  then show ?thesis using del_del w d
    by (auto simp: del_Send_def Let_def intro!: outcome_send outcome_fail)
qed (use w d in \<open>simp add: del_Send_def outcome_Some\<close>)

lemma del_ParseResponse_ok:
  assumes w: "base_ok lib w" and d: "op_ok lib has_date (Del d)"
  shows "outcome_ok lib has_date Del (Del d) (del_ParseResponse lib env d w)"
proof -
  obtain n ns where f: "dl_files d = n # ns" using d by (cases "dl_files d") auto
  show ?thesis using w d f
    by (auto simp: del_ParseResponse_def Let_def outcome_Some split: option.split)
qed

lemma rename_Send_ok:
  assumes w: "base_ok lib w" "fs_ops w = op # ops" and op: "op_data op = Ren d" and d: "path_ok (rn_fromPath d)"
  shows "outcome_ok lib has_date Ren (Ren d) (rename_Send lib env d w)"
proof (cases "rn_state d")
  case rename_init
  obtain c where "ChangeDir (rn_fromPath d) [] False (fs_ops w) = Some c" "op_ok lib has_date c" "\<not> needs_path c" "\<And>y. sits_on c y = waits_cwd y"
    by (rule ChangeDir_ok [OF w(2)]) (use op d in auto)
  then show ?thesis using rename_init w d by (simp add: rename_Send_def outcome_Some)
next
  case rename_rnfrom
  then show ?thesis using w d by (auto simp: rename_Send_def intro!: outcome_send)
next
  case rename_rnto
  let ?c1 = "snd (InvalidateFile lib (env_now env) (fs_server w) (rn_fromPath d) (rn_fromFile d) (fs_dirs w))"
  let ?w = "w\<lparr>fs_dirs := snd (InvalidateFile lib (env_now env) (fs_server w) (rn_toPath d) (rn_toFile d) ?c1)\<rparr>"
  obtain p w1 where l: "lookup_path lib (rn_fromPath d) (rn_fromFile d) ?w = (p, w1)" by fastforce
  have "base_ok lib ?w" using w by simp
  then have w1: "base_ok lib w1" using lookup_path_ok l by blast
  have "base_ok lib (InvalidateCurrentWorkingDirs q w1)" for q using w1 by simp
  then show ?thesis using rename_rnto w1 l d by (auto simp: rename_Send_def Let_def intro!: outcome_send)
qed (use w d in \<open>simp add: rename_Send_def outcome_Some\<close>)

lemma rename_ParseResponse_ok:
  "base_ok lib w \<Longrightarrow> path_ok (rn_fromPath d) \<Longrightarrow> outcome_ok lib has_date Ren (Ren d) (rename_ParseResponse lib env d w)"
  by (auto simp: rename_ParseResponse_def Let_def outcome_Some)

lemma chmod_Send_ok:
  assumes w: "base_ok lib w" "fs_ops w = op # ops" and op: "op_data op = Chm d" and d: "path_ok (ch_path d)"
  shows "outcome_ok lib has_date Chm (Chm d) (chmod_Send lib env d w)"
proof (cases "ch_state d")
  case chmod_init
  obtain c where "ChangeDir (ch_path d) [] False (fs_ops w) = Some c" "op_ok lib has_date c" "\<not> needs_path c" "\<And>y. sits_on c y = waits_cwd y"
    by (rule ChangeDir_ok [OF w(2)]) (use op d in auto)
  then show ?thesis using chmod_init w d by (simp add: chmod_Send_def outcome_Some)
next
  case chmod_chmod
  then show ?thesis using w d by (auto simp: chmod_Send_def intro!: outcome_send)
qed (use w d in \<open>simp add: chmod_Send_def outcome_Some\<close>)

lemma chmod_ParseResponse_ok:
  "base_ok lib w \<Longrightarrow> outcome_ok lib has_date Chm (Chm d) (chmod_ParseResponse lib env d w)"
  by (auto simp: chmod_ParseResponse_def Let_def outcome_Some)

lemma raw_ok:
  "base_ok lib w \<Longrightarrow> outcome_ok lib has_date Raw (Raw c) (raw_Send lib env c w)"
  "base_ok lib w \<Longrightarrow> outcome_ok lib has_date Raw (Raw c) (raw_ParseResponse c w)"
  by (auto simp: raw_Send_def raw_ParseResponse_def Let_def outcome_Some clear_current_def intro!: outcome_send)

lemma simple_Sub_ok:
  "base_ok lib w \<Longrightarrow> cwd_ok e \<Longrightarrow> outcome_ok lib has_date Cwd (Cwd e) (cwd_SubcommandResult e w)"
  "base_ok lib w \<Longrightarrow> path_ok (rm_path d) \<Longrightarrow> outcome_ok lib has_date Rmd (Rmd d) (rmd_SubcommandResult prev d w)"
  "base_ok lib w \<Longrightarrow> op_ok lib has_date (Del c) \<Longrightarrow> outcome_ok lib has_date Del (Del c) (del_SubcommandResult env prev c w)"
  "base_ok lib w \<Longrightarrow> path_ok (rn_fromPath r) \<Longrightarrow> outcome_ok lib has_date Ren (Ren r) (rename_SubcommandResult prev r w)"
  "base_ok lib w \<Longrightarrow> path_ok (ch_path h) \<Longrightarrow> outcome_ok lib has_date Chm (Chm h) (chmod_SubcommandResult prev h w)"
  by (auto simp: cwd_SubcommandResult_def rmd_SubcommandResult_def del_SubcommandResult_def rename_SubcommandResult_def
      chmod_SubcommandResult_def Let_def outcome_Some base_ok_def)

end
