(* ===== verification/Ftp_List_Inv.thy ===== *)
theory Ftp_List_Inv
  imports Ftp_Handlers
begin

text \<open>The handlers of the operation that lists a directory keep what it relies on.\<close>

definition env_ok :: "'a fzlib_scheme \<Rightarrow> (direntry \<Rightarrow> bool) \<Rightarrow> ftp_env \<Rightarrow> bool" where
  "env_ok lib has_date env \<longleftrightarrow>
     env_has_date env = has_date \<and> (\<forall>e. env_has_time env e \<longrightarrow> has_date e) \<and>
     (\<forall>p. key_ok p \<longrightarrow> listing_ok lib (env_parse env p))"

lemma list_Send_ok:
  assumes w: "base_ok lib w" "fs_ops w = op # ops" and op: "op_data op = Lst d" and d: "list_ok lib has_date d"
    and k: "needs_path (Lst d) \<longrightarrow> key_ok (fs_path w)"
  shows "outcome_ok lib has_date Lst (Lst d) (list_Send lib env v d w)"
proof (cases "lo_state d")
  case list_init
  obtain c where "ChangeDir (lo_dir d) (lo_subDir d) (lo_link d) (fs_ops w) = Some c" "op_ok lib has_date c" "\<not> needs_path c" "\<And>y. sits_on c y = waits_cwd y"
    by (rule ChangeDir_ok [OF w(2)]) (use op d list_init in auto)
  then show ?thesis using list_init w d by (simp add: list_Send_def outcome_Some)
next
  case list_waitlock
  obtain found c where l: "Lookup lib (env_now env) (fs_server w) (fs_path w) False (fs_dirs w) = (found, c)" by fastforce
  have c: "cache_reach lib c" using cache_reach.lookup [of lib "fs_dirs w" "env_now env" "fs_server w" "fs_path w" False] w l by simp
  define w2 where "w2 = take_lock lib v reason_list (fs_path w) (w\<lparr>fs_dirs := c\<rparr>)"
  have w2: "base_ok lib w2" "fs_path w2 = fs_path w" using w c by (simp_all add: w2_def)
  obtain b where b: "lock_waits v w2 = Some b" using lock_waits_ok [OF w2(1)] .
  define d1 where "d1 = (if ol_mgr (sys_vars (fs_locks w) v) then d else d\<lparr>lo_time_before_locking := env_now env\<rparr>)"
  obtain d2 t where t: "list_transfer env (d1\<lparr>lo_state := list_waittransfer\<rparr>) w2 = (d2, t)" by fastforce
  have "lo_viewHiddenCheck d2 \<longrightarrow> \<not> lo_viewHidden d2" "lo_state d2 = list_waittransfer" "\<exists>c. t = Other (RawTransfer c)"
    using t d list_waitlock by (auto simp: list_transfer_def Transfer_def Let_def d1_def split: if_splits capabilities.splits)
  then have "outcome_ok lib has_date Lst (Lst d) (Some (FZ_REPLY_CONTINUE, d2, w2, [t]))" using w2 k list_waitlock
    by (auto simp: outcome_Some)
  moreover have "outcome_ok lib has_date Lst (Lst d) (Some (FZ_REPLY_WOULDBLOCK, d1, w2, []))"
    using w2 k d list_waitlock by (auto simp: outcome_Some d1_def)
  moreover have "outcome_ok lib has_date Lst (Lst d) (Some (FZ_REPLY_OK, d, SendDirectoryListingNotification p False (w\<lparr>fs_dirs := c\<rparr>), []))" for p
    using w c by (simp add: outcome_Some)
  moreover have "lo_subDir d = []" using d list_waitlock by simp
  ultimately show ?thesis using b t list_waitlock l by (simp add: list_Send_def Let_def w2_def [symmetric] d1_def [symmetric])
next
  case list_mdtm
  then show ?thesis using w d k by (auto simp: list_Send_def intro!: outcome_send)
qed (use w d in \<open>simp_all add: list_Send_def outcome_Some\<close>)

lemma listing_ok_shift: "listing_ok lib l \<Longrightarrow> listing_ok lib (shift_times env span l)"
  by (auto simp: listing_ok_def shift_times_def comp_def intro: cl_ok_names)

lemma list_stored:
  assumes "lib_ok lib" "base_ok lib w" "listing_ok lib l"
  shows "outcome_ok lib has_date Lst (Lst d)
    (store_listing lib env l w \<bind> (\<lambda>w1. Some (FZ_REPLY_OK, e, SendDirectoryListingNotification (fs_path w1) False w1, [])))"
proof -
  obtain w1 where "store_listing lib env l w = Some w1" "base_ok lib w1" by (rule store_listing_ok [OF assms])
  then show ?thesis by (simp add: outcome_Some)
qed

lemma list_ParseResponse_ok:
  assumes lib: "lib_ok lib" and env: "env_ok lib has_date env" and w: "base_ok lib w" and d: "list_ok lib has_date d"
  shows "outcome_ok lib has_date Lst (Lst d) (list_ParseResponse lib env d w)"
proof (cases "lo_state d = list_mdtm")
  case True
  then have l: "listing_ok lib (lo_listing d)" "lo_mdtm_index d < ls_size (lo_listing d)"
      "env_has_date env (ls_entries (lo_listing d) ! lo_mdtm_index d)"
    using d env by (auto simp: env_ok_def)
  have "outcome_ok lib has_date Lst (Lst d)
      (store_listing lib env (lo_listing e) (w\<lparr>fs_caps := caps\<rparr>) \<bind>
       (\<lambda>w1. Some (FZ_REPLY_OK, e, SendDirectoryListingNotification (fs_path w1) False w1, [])))"
    if "listing_ok lib (lo_listing e)" for e caps
    by (rule list_stored [OF lib]) (use w that in simp_all)
  from this [of d] this [of "d\<lparr>lo_listing := shift_times env s (lo_listing d)\<rparr>" for s]
  show ?thesis using True l listing_ok_shift [OF l(1)]
    by (auto simp: list_ParseResponse_def Let_def SetCapability_number_def set_cap_number_def split: option.split)
next
  case False
  then show ?thesis using w by (simp add: list_ParseResponse_def outcome_Some)
qed

lemma list_finish_ok:
  assumes lib: "lib_ok lib" and env: "env_ok lib has_date env" and w: "base_ok lib w" "key_ok (fs_path w)"
    and l: "listing_ok lib l"
  shows "outcome_ok lib has_date Lst (Lst d) (list_finish lib env l d w)"
proof -
  obtain res d1 w1 where c: "CheckTimezoneDetection env l d w = (res, d1, w1)" by (metis prod.exhaust)
  have "base_ok lib w1 \<and> fs_path w1 = fs_path w \<and> (res = FZ_REPLY_OK \<or> res = FZ_REPLY_CONTINUE \<and> list_ok lib has_date d1)"
    using c w l env
    by (auto simp: CheckTimezoneDetection_def Let_def env_ok_def ls_size_def split: if_splits option.splits dest: find_idx_SomeD)
  moreover have "base_ok lib w1 \<Longrightarrow> outcome_ok lib has_date Lst (Lst d)
      (store_listing lib env l w1 \<bind> (\<lambda>w2. Some (FZ_REPLY_OK, d1, SendDirectoryListingNotification (fs_path w2) False w2, [])))"
    by (rule list_stored [OF lib _ l])
  ultimately show ?thesis using c w(2) by (auto simp: list_finish_def outcome_Some simp del: list_ok.simps)
qed

lemma list_repeat_ok:
  assumes "base_ok lib w" "key_ok (fs_path w)" "listing_ok lib l" "lo_state d = list_waittransfer"
  shows "outcome_ok lib has_date Lst (Lst d) (list_repeat l d w)"
  using assms by (simp add: list_repeat_def Transfer_def outcome_Some)

lemma listing_ok_empty: "key_ok p \<Longrightarrow> listing_ok lib (empty_listing\<lparr>ls_path := p, ls_firstListTime := t\<rparr>)"
  by (simp add: listing_ok_def empty_listing_def cl_ok_def ls_ok_def map_ok_def)

lemma list_Sub_ok:
  assumes lib: "lib_ok lib" and env: "env_ok lib has_date env"
    and w: "base_ok lib w" "fs_ops w = op # ops" and op: "op_data op = Lst d" and d: "list_ok lib has_date d"
    and k: "needs_path (Lst d) \<longrightarrow> key_ok (fs_path w)" "lo_state d = list_waitcwd \<longrightarrow> prev = FZ_REPLY_OK \<longrightarrow> key_ok (fs_path w)"
    and prev: "simple_result prev"
  shows "outcome_ok lib has_date Lst (Lst d) (list_SubcommandResult lib env prev d w)"
proof (cases "lo_state d")
  case list_waitcwd
  obtain c where "ChangeDir empty_path [] False (fs_ops w) = Some c" "op_ok lib has_date c" "\<not> needs_path c" "\<And>y. sits_on c y = waits_cwd y"
    by (rule ChangeDir_ok [OF w(2)]) (use op in auto)
  moreover have "\<not> stays prev" "ended prev" using prev by (auto simp: simple_result_def stays_def ended_def has_flag_def reply_codes)
  ultimately show ?thesis using list_waitcwd w d k
    by (auto simp: list_SubcommandResult_def outcome_Some)
next
  case list_waittransfer
  have kp: "key_ok (fs_path w)" using k list_waittransfer by simp
  have h: "base_ok lib (set_hidden c w)" "fs_path (set_hidden c w) = fs_path w" for c using w by (simp_all add: set_hidden_def)
  have l: "listing_ok lib (env_parse env (fs_path w))" using env kp by (simp add: env_ok_def)
  have fin: "outcome_ok lib has_date Lst (Lst d) (list_finish lib env x d w)"
    "outcome_ok lib has_date Lst (Lst d) (list_finish lib env x d (set_hidden c w))" if "listing_ok lib x" for x c
    using that list_finish_ok [OF lib env w(1) kp] list_finish_ok [OF lib env h(1)] h(2) kp by simp_all
  have rep: "listing_ok lib x \<Longrightarrow> outcome_ok lib has_date Lst (Lst d) (list_repeat x d w)" for x
    using list_repeat_ok [OF w(1) kp _ list_waittransfer] .
  have old: "lo_viewHiddenCheck d \<Longrightarrow> lo_viewHidden d \<Longrightarrow> listing_ok lib (lo_listing d)" using d list_waittransfer by simp
  have "outcome_ok lib has_date Lst (Lst d) (list_transferred lib env d w)"
    using l old by (auto simp: list_transferred_def Let_def intro!: fin rep)
  moreover have "outcome_ok lib has_date Lst (Lst d) (list_misleading lib env d w)"
    using listing_ok_empty [OF kp] old by (auto simp: list_misleading_def Let_def intro!: fin rep)
  moreover have "outcome_ok lib has_date Lst (Lst d) (list_failed lib env prev d w)"
    using w old by (auto simp: list_failed_def intro!: fin outcome_fail)
  ultimately show ?thesis using list_waittransfer by (simp add: list_SubcommandResult_def)
qed (use w in \<open>simp_all add: list_SubcommandResult_def outcome_Some\<close>)

end
