(* ===== verification/Ftp_Stack.thy ===== *)
theory Ftp_Stack
  imports Ftp_List_Inv
begin

text \<open>The invariant of the whole stack of operations, and that each call of the loop keeps it.\<close>

subsection \<open>Stacks\<close>

definition is_raw :: "op_data \<Rightarrow> bool" where
  "is_raw x \<longleftrightarrow> (case x of Other (RawTransfer c) \<Rightarrow> True | _ \<Rightarrow> False)"

fun stack_ok :: "'a fzlib_scheme \<Rightarrow> (direntry \<Rightarrow> bool) \<Rightarrow> op_data list \<Rightarrow> bool" where
  "stack_ok lib has_date [] = True"
| "stack_ok lib has_date (x # xs) \<longleftrightarrow>
     op_ok lib has_date x \<and> (xs \<noteq> [] \<longrightarrow> sits_on x (hd xs)) \<and> stack_ok lib has_date xs"

fun path_known :: "op_data list \<Rightarrow> server_path \<Rightarrow> bool" where
  "path_known [] p = True"
| "path_known (x # xs) p \<longleftrightarrow>
     (needs_path x \<longrightarrow> key_ok p) \<and> (xs \<noteq> [] \<longrightarrow> is_raw x \<longrightarrow> needs_path (hd xs) \<longrightarrow> key_ok p)"

abbreviation datas :: "ftp \<Rightarrow> op_data list" where
  "datas w \<equiv> map op_data (fs_ops w)"

definition ftp_ok :: "'a fzlib_scheme \<Rightarrow> (direntry \<Rightarrow> bool) \<Rightarrow> ftp \<Rightarrow> bool" where
  "ftp_ok lib has_date w \<longleftrightarrow> base_ok lib w \<and> stack_ok lib has_date (datas w) \<and> path_known (datas w) (fs_path w)"

text \<open>What the operation \<open>y\<close> may rely on when a sub-operation ends with a result.\<close>

definition sub_ready :: "int \<Rightarrow> op_data \<Rightarrow> server_path \<Rightarrow> bool" where
  "sub_ready res y p \<longleftrightarrow>
     (needs_path y \<longrightarrow> key_ok p) \<and> (\<forall>d. y = Lst d \<longrightarrow> lo_state d = list_waitcwd \<longrightarrow> res = FZ_REPLY_OK \<longrightarrow> key_ok p)"

text \<open>The operation on top has ended with a result.\<close>

definition ended_ok :: "'a fzlib_scheme \<Rightarrow> (direntry \<Rightarrow> bool) \<Rightarrow> int \<Rightarrow> ftp \<Rightarrow> bool" where
  "ended_ok lib has_date res w \<longleftrightarrow>
     base_ok lib w \<and> stack_ok lib has_date (tl (datas w)) \<and>
     (tl (datas w) \<noteq> [] \<longrightarrow> sits_on (hd (datas w)) (hd (tl (datas w))) \<and>
        (simple_result res \<longrightarrow> sub_ready res (hd (tl (datas w))) (fs_path w)))"

definition sub_ok :: "'a fzlib_scheme \<Rightarrow> (direntry \<Rightarrow> bool) \<Rightarrow> int \<Rightarrow> operation \<Rightarrow> ftp \<Rightarrow> bool" where
  "sub_ok lib has_date res old w \<longleftrightarrow>
     base_ok lib w \<and> stack_ok lib has_date (datas w) \<and> simple_result res \<and> \<not> topLevelOperation old \<and>
     (datas w \<noteq> [] \<longrightarrow> sits_on (op_data old) (hd (datas w)) \<and> sub_ready res (hd (datas w)) (fs_path w))"

fun call_ok :: "'a fzlib_scheme \<Rightarrow> (direntry \<Rightarrow> bool) \<Rightarrow> call \<Rightarrow> ftp \<Rightarrow> bool" where
  "call_ok lib has_date CallSend w = ftp_ok lib has_date w"
| "call_ok lib has_date (CallReset res) w = ended_ok lib has_date res w"
| "call_ok lib has_date (CallSub res old) w = sub_ok lib has_date res old w"

fun progress_ok :: "'a fzlib_scheme \<Rightarrow> (direntry \<Rightarrow> bool) \<Rightarrow> progress \<Rightarrow> bool" where
  "progress_ok lib has_date (Done res w) = ftp_ok lib has_date w"
| "progress_ok lib has_date (Next c w) = call_ok lib has_date c w"

subsection \<open>The operation on top\<close>

lemma outcome_lift: "outcome_ok lib has_date f x r \<Longrightarrow> outcome_ok lib has_date op_data x (lift f op r)"
  by (simp add: outcome_ok_def lift_def split: option.splits prod.splits)

lemma same_kind_sits: "same_kind x y \<Longrightarrow> sits_on x z = sits_on y z" "same_kind x y \<Longrightarrow> is_raw x = is_raw y"
  by (cases x; cases y; simp add: is_raw_def)+

lemma sits_needs: "sits_on x y \<Longrightarrow> needs_path y \<Longrightarrow> is_raw x"
  by (cases x; cases y) (auto simp: is_raw_def split: other_op.splits)

lemma sits_list_cwd: "sits_on x (Lst d) \<Longrightarrow> lo_state d = list_waitcwd \<Longrightarrow> \<exists>e. x = Cwd e"
  by (cases x) (auto split: other_op.splits)

lemma push_data_simps [simp]: "datas (push_data x w) = x # datas w" "fs_path (push_data x w) = fs_path w"
  "base_ok lib (push_data x w) = base_ok lib w"
  by (simp_all add: push_data_def)

lemma on_top_ok:
  assumes out: "outcome_ok lib has_date op_data (op_data op) (f op w)" and ops: "fs_ops w = op # ops"
    and st: "stack_ok lib has_date (datas w)" and no: "\<And>k. op_data op \<noteq> Other k"
  obtains res w1 where "on_top f w = Some (res, w1)" "stays res \<Longrightarrow> ftp_ok lib has_date w1"
    "\<not> stays res \<Longrightarrow> ended res \<and> ended_ok lib has_date res w1" "base_ok lib w1"
proof -
  obtain res op1 w2 ps where r: "f op w = Some (res, op1, w2, ps)" and b: "base_ok lib w2" and k: "same_kind (op_data op) (op_data op1)"
    and go: "stays res \<Longrightarrow> op_ok lib has_date (op_data op1) \<and> (needs_path (op_data op1) \<longrightarrow> key_ok (fs_path w2)) \<and>
      (ps = [] \<or> (\<exists>p. ps = [p] \<and> op_ok lib has_date p \<and> sits_on p (op_data op1) \<and> \<not> needs_path p))"
    and fin: "\<not> stays res \<Longrightarrow> ps = [] \<and> ended res \<and> (res = FZ_REPLY_OK \<longrightarrow> (\<exists>e. op_data op = Cwd e) \<longrightarrow> key_ok (fs_path w2))"
    using out unfolding outcome_ok_def result_ok_def by (auto split: option.splits)
  define w1 where "w1 = fold push_data (rev ps) (w2\<lparr>fs_ops := op1 # ops\<rparr>)"
  have nr: "\<not> is_raw (op_data op)" using no by (auto simp: is_raw_def split: op_data.split)
  then have nr1: "\<not> is_raw (op_data op1)" using same_kind_sits(2) [OF k] by simp
  have sits: "sits_on (op_data op) y \<longleftrightarrow> sits_on (op_data op1) y" for y by (rule same_kind_sits(1) [OF k])
  show thesis
  proof (rule that [of res w1])
    show "on_top f w = Some (res, w1)" using ops r by (simp add: on_top_def w1_def)
    show "ftp_ok lib has_date w1" if "stays res"
      using go [OF that] b st ops nr1 sits by (auto simp: ftp_ok_def w1_def)
    show "ended res \<and> ended_ok lib has_date res w1" if "\<not> stays res"
    proof -
      have "sub_ready res y (fs_path w2)" if "sits_on (op_data op) y" for y
        using fin [OF \<open>\<not> stays res\<close>] that sits_needs [OF that] nr sits_list_cwd [of "op_data op"] unfolding sub_ready_def by blast
      then show ?thesis using fin [OF that] b st ops sits by (auto simp: ended_ok_def w1_def)
    qed
    show "base_ok lib w1" using go fin b by (cases "stays res") (auto simp: w1_def)
  qed
qed

lemma op_Send_outcome:
  assumes "base_ok lib w" "fs_ops w = op # ops" "op_ok lib has_date (op_data op)" "needs_path (op_data op) \<longrightarrow> key_ok (fs_path w)"
    and "\<And>k. op_data op \<noteq> Other k"
  shows "outcome_ok lib has_date op_data (op_data op) (op_Send lib env op w)"
  using assms
  by (cases "op_data op")
    (auto simp: op_Send_def simp del: cwd_ok.simps mkd_ok.simps list_ok.simps
      intro!: outcome_lift cwd_Send_ok mkd_Send_ok rmd_Send_ok del_Send_ok rename_Send_ok chmod_Send_ok raw_ok list_Send_ok)

lemma op_ParseResponse_outcome:
  assumes "lib_ok lib" "env_ok lib has_date env" "base_ok lib w" "4 \<le> length (fs_response w)" "op_ok lib has_date (op_data op)"
    and "\<And>k. op_data op \<noteq> Other k"
  shows "outcome_ok lib has_date op_data (op_data op) (op_ParseResponse lib env op w)"
  using assms
  by (cases "op_data op")
    (auto simp: op_ParseResponse_def simp del: cwd_ok.simps mkd_ok.simps list_ok.simps
      intro!: outcome_lift cwd_ParseResponse_ok mkd_ParseResponse_ok rmd_ParseResponse_ok del_ParseResponse_ok
        rename_ParseResponse_ok chmod_ParseResponse_ok raw_ok list_ParseResponse_ok)

lemma op_Sub_outcome:
  assumes "lib_ok lib" "env_ok lib has_date env" "base_ok lib w" "fs_ops w = op # ops" "op_ok lib has_date (op_data op)"
    and "sits_on x (op_data op)" "\<And>t. x \<noteq> Other (Logon t)" "simple_result res" "sub_ready res (op_data op) (fs_path w)"
    and "\<And>k. op_data op \<noteq> Other k"
  shows "outcome_ok lib has_date op_data (op_data op) (op_SubcommandResult lib env res op w)"
proof -
  have m: "\<not> sits_on x (Mkd d)" "\<not> sits_on x (Raw c)" for d c using assms(7) by (cases x; auto split: other_op.splits)+
  show ?thesis using assms m
    by (cases "op_data op")
      (auto simp: op_SubcommandResult_def sub_ready_def simp del: cwd_ok.simps mkd_ok.simps list_ok.simps
        intro!: outcome_lift simple_Sub_ok list_Sub_ok)
qed

subsection \<open>The calls\<close>

lemma ftp_ok_top:
  assumes "ftp_ok lib has_date w" "fs_ops w = op # ops"
  shows "base_ok lib w" "stack_ok lib has_date (datas w)" "op_ok lib has_date (op_data op)" "needs_path (op_data op) \<longrightarrow> key_ok (fs_path w)"
  using assms by (auto simp: ftp_ok_def)

lemma not_simple: "\<not> simple_result (FZ_REPLY_ERROR OR FZ_REPLY_DISCONNECTED OR code)"
proof -
  have "bit (FZ_REPLY_ERROR OR FZ_REPLY_DISCONNECTED OR code) 6" by (simp add: bit_or_iff FZ_REPLY_DISCONNECTED_def bit_numeral_rec)
  moreover have "simple_result r \<Longrightarrow> \<not> bit r 6" for r by (auto simp: simple_result_def reply_codes bit_numeral_rec)
  ultimately show ?thesis by blast
qed

lemma DoClose_ok:
  assumes "base_ok lib w" "stack_ok lib has_date (tl (datas w))" "tl (datas w) \<noteq> [] \<longrightarrow> sits_on (hd (datas w)) (hd (tl (datas w)))"
  shows "progress_ok lib has_date (DoClose code w)"
proof -
  have "base_ok lib (close_socket w)" using assms(1) by (simp add: close_socket_def base_ok_def clear_current_def)
  moreover have "fs_ops (close_socket w) = fs_ops w" by (simp add: close_socket_def clear_current_def)
  ultimately show ?thesis using assms not_simple by (simp add: DoClose_def ended_ok_def)
qed

lemma ended_close: "ended_ok lib has_date res w \<Longrightarrow> progress_ok lib has_date (DoClose code w)"
  by (rule DoClose_ok) (auto simp: ended_ok_def)

lemma ftp_close: "ftp_ok lib has_date w \<Longrightarrow> progress_ok lib has_date (DoClose code w)"
  by (rule DoClose_ok; cases "fs_ops w") (auto simp: ftp_ok_def)

lemma on_top_other: "fs_ops w = op # ops \<Longrightarrow> op_data op = Other k \<Longrightarrow> on_top (op_Send lib env) w = Some (FZ_REPLY_WOULDBLOCK, w)"
  "fs_ops w = op # ops \<Longrightarrow> op_data op = Other k \<Longrightarrow> on_top (op_ParseResponse lib env) w = Some (FZ_REPLY_WOULDBLOCK, w)"
  "fs_ops w = op # ops \<Longrightarrow> op_data op = Other k \<Longrightarrow> on_top (op_SubcommandResult lib env res) w = Some (FZ_REPLY_WOULDBLOCK, w)"
  by (auto simp: on_top_def op_Send_def op_ParseResponse_def op_SubcommandResult_def)

lemma has_flag_WOULDBLOCK [simp]: "\<not> has_flag FZ_REPLY_WOULDBLOCK FZ_REPLY_DISCONNECTED" "\<not> has_flag FZ_REPLY_WOULDBLOCK FZ_REPLY_ERROR"
  by (simp_all add: has_flag_def reply_codes)

lemma SendNextCommand_ok:
  assumes "ftp_ok lib has_date w"
  obtains p where "SendNextCommand lib env w = Some p" "progress_ok lib has_date p"
proof (cases "fs_ops w")
  case Nil
  then show ?thesis using that assms by (auto simp: SendNextCommand_def ended_ok_def ftp_ok_def)
next
  case (Cons op ops)
  note top = ftp_ok_top [OF assms Cons]
  show ?thesis
  proof (cases "fs_skip w \<noteq> 0 \<or> (\<exists>k. op_data op = Other k)")
    case True
    then have "SendNextCommand lib env w = Some (Done FZ_REPLY_WOULDBLOCK w)" using Cons by (auto simp: SendNextCommand_def on_top_other(1))
    then show ?thesis using that assms by simp
  next
    case False
    then have no: "\<And>k. op_data op \<noteq> Other k" by simp
    obtain res w1 where o: "on_top (op_Send lib env) w = Some (res, w1)" "stays res \<Longrightarrow> ftp_ok lib has_date w1"
      "\<not> stays res \<Longrightarrow> ended res \<and> ended_ok lib has_date res w1"
      by (rule on_top_ok [where f = "op_Send lib env", OF op_Send_outcome [OF top(1) Cons top(3,4) no] Cons top(2) no]) blast
    define p where "p = (if res = FZ_REPLY_CONTINUE then Next CallSend w1
      else if res = FZ_REPLY_OK then Next (CallReset res) w1
      else if has_flag res FZ_REPLY_DISCONNECTED then DoClose res w1
      else if has_flag res FZ_REPLY_ERROR then Next (CallReset res) w1
      else if res = FZ_REPLY_WOULDBLOCK then Done FZ_REPLY_WOULDBLOCK w1
      else Next (CallReset FZ_REPLY_INTERNALERROR) w1)"
    have "SendNextCommand lib env w = Some p" using o(1) False Cons by (simp add: SendNextCommand_def p_def)
    moreover have "progress_ok lib has_date p"
      using o(2,3) ended_close by (cases "stays res") (auto simp: p_def stays_def ended_def split: if_splits)
    ultimately show ?thesis by (rule that)
  qed
qed

lemma note_failure_ok:
  assumes "ended_ok lib has_date res w"
  shows "ended_ok lib has_date res (w\<lparr>fs_skip := n, fs_ops := note_failure code (fs_ops w)\<rparr>)"
proof (cases code "fs_ops w" rule: note_failure_cases)
  case 1
  then show ?thesis using assms by (simp add: ended_ok_def)
next
  case (2 x op rest d r)
  have "list_ok lib has_date (d\<lparr>lo_transferEndReason := r\<rparr>) = list_ok lib has_date d" by simp
  moreover have "sits_on y (Lst (d\<lparr>lo_transferEndReason := r\<rparr>)) = sits_on y (Lst d)" for y
    by (cases y) (auto split: other_op.splits)
  moreover have "sits_on (Lst (d\<lparr>lo_transferEndReason := r\<rparr>)) z = sits_on (Lst d) z" for z by simp
  moreover have "sub_ready res (Lst (d\<lparr>lo_transferEndReason := r\<rparr>)) p = sub_ready res (Lst d) p" for p by (simp add: sub_ready_def)
  ultimately show ?thesis using assms 2 by (simp add: ended_ok_def del: list_ok.simps)
qed

lemma op_Reset_simps [simp]:
  "base_ok lib (op_Reset code op w) = base_ok lib w" "fs_ops (op_Reset code op w) = fs_ops w" "fs_path (op_Reset code op w) = fs_path w"
  by (auto simp: op_Reset_def del_Reset_def SendDirectoryListingNotification_def emit_def split: op_data.split)

lemma fresh_top: "stack_ok lib has_date (datas w) \<Longrightarrow> base_ok lib w \<Longrightarrow> (datas w \<noteq> [] \<Longrightarrow> fresh (hd (datas w))) \<Longrightarrow> ftp_ok lib has_date w"
  by (cases "datas w"; cases "hd (datas w)") (auto simp: ftp_ok_def is_raw_def split: other_op.splits)

lemma finish_reset_ok:
  assumes "stack_ok lib has_date (datas w)" "base_ok lib w" "datas w \<noteq> [] \<Longrightarrow> fresh (hd (datas w))"
  shows "progress_ok lib has_date (finish_reset code w)"
proof -
  let ?w1 = "if fs_invalidate w then (clear_current w)\<lparr>fs_invalidate := False\<rparr> else w"
  have "ftp_ok lib has_date ?w1" by (rule fresh_top; cases "fs_invalidate w") (use assms in \<open>auto simp: clear_current_def\<close>)
  moreover have "ftp_ok lib has_date (emit x v) = ftp_ok lib has_date v" for x v by (simp add: ftp_ok_def emit_def)
  ultimately show ?thesis by (simp add: finish_reset_def Let_def)
qed

lemma ResetOperation_ok:
  assumes "ended_ok lib has_date code w0"
  obtains p where "ResetOperation code w0 = Some p" "progress_ok lib has_date p"
proof -
  define w where "w = w0\<lparr>fs_skip := fs_pending w0, fs_ops := note_failure code (fs_ops w0)\<rparr>"
  have w: "ended_ok lib has_date code w" unfolding w_def by (rule note_failure_ok [OF assms])
  show thesis
  proof (cases "fs_ops w")
    case Nil
    then have "ResetOperation code w0 = Some (finish_reset code w)" by (simp add: ResetOperation_def w_def [symmetric] Let_def)
    moreover have "progress_ok lib has_date (finish_reset code w)" by (rule finish_reset_ok) (use w Nil in \<open>auto simp: ended_ok_def\<close>)
    ultimately show thesis by (rule that)
  next
    case (Cons op ops)
    define w1 where "w1 = op_Reset code op (w\<lparr>fs_ops := ops\<rparr>)"
    have w1: "base_ok lib w1" "fs_ops w1 = ops" "fs_path w1 = fs_path w" "stack_ok lib has_date (datas w1)"
      using w Cons by (simp_all add: w1_def ended_ok_def)
    have sits: "ops \<noteq> [] \<Longrightarrow> sits_on (op_data op) (hd (datas w1)) \<and> (simple_result code \<longrightarrow> sub_ready code (hd (datas w1)) (fs_path w1))"
      using w Cons w1 by (simp add: ended_ok_def)
    obtain w2 s where d: "destroy_op op w1 = Some w2" "base_ok lib w2" "w2 = w1\<lparr>fs_locks := s\<rparr>" using destroy_op_ok [OF w1(1)] .
    have r: "ResetOperation code w0 =
        (if ops \<noteq> [] \<and> simple_result code \<and> \<not> topLevelOperation op then Some (Next (CallSub code op) w1)
         else Some (if ops \<noteq> [] \<and> \<not> simple_result code then Next (CallReset code) w2 else finish_reset code w2))"
      using Cons d(1) by (simp add: ResetOperation_def w_def [symmetric] w1_def [symmetric] Let_def)
    consider "ops \<noteq> []" "simple_result code" "\<not> topLevelOperation op" | "ops \<noteq> []" "\<not> simple_result code"
      | "ops = [] \<or> simple_result code \<and> topLevelOperation op" by blast
    then show thesis
    proof cases
      case 1
      then show thesis using that r w1 sits by (simp add: sub_ok_def)
    next
      case 2
      have "ended_ok lib has_date code w2" using 2 w1 d(2,3) by (cases ops) (simp_all add: ended_ok_def)
      then show thesis using that r 2 by simp
    next
      case 3
      have "progress_ok lib has_date (finish_reset code w2)"
      proof (rule finish_reset_ok)
        show "fresh (hd (datas w2))" if "datas w2 \<noteq> []"
          using that 3 sits w1 d(3) by (auto simp: topLevelOperation_def split: op_data.splits other_op.splits)
      qed (use w1 d in simp_all)
      then show thesis using that r 3 by auto
    qed
  qed
qed

lemma ftp_ok_locks: "ftp_ok lib has_date w \<Longrightarrow> base_ok lib (w\<lparr>fs_locks := s\<rparr>) \<Longrightarrow> ftp_ok lib has_date (w\<lparr>fs_locks := s\<rparr>)"
  by (simp add: ftp_ok_def)

lemma ended_ok_locks: "ended_ok lib has_date r w \<Longrightarrow> base_ok lib (w\<lparr>fs_locks := s\<rparr>) \<Longrightarrow> ended_ok lib has_date r (w\<lparr>fs_locks := s\<rparr>)"
  by (simp add: ended_ok_def)

lemma ParseSubcommandResult_ok:
  assumes lib: "lib_ok lib" and env: "env_ok lib has_date env" and w: "sub_ok lib has_date prev old w"
  obtains p where "ParseSubcommandResult lib env prev old w = Some p" "progress_ok lib has_date p"
proof (cases "fs_ops w")
  case Nil
  obtain w2 s where "destroy_op old w = Some w2" "base_ok lib w2" "w2 = w\<lparr>fs_locks := s\<rparr>"
    using destroy_op_ok w unfolding sub_ok_def by blast
  then show ?thesis using that Nil by (simp add: ParseSubcommandResult_def ended_ok_def)
next
  case (Cons op ops)
  have b: "base_ok lib w" "stack_ok lib has_date (datas w)" "op_ok lib has_date (op_data op)" "sits_on (op_data old) (op_data op)"
    "simple_result prev" "sub_ready prev (op_data op) (fs_path w)"
    using w Cons by (simp_all add: sub_ok_def)
  have nl: "op_data old \<noteq> Other (Logon t)" for t using w b(4) by (cases t) (auto simp: sub_ok_def topLevelOperation_def)
  have "\<exists>res w1. on_top (op_SubcommandResult lib env prev) w = Some (res, w1) \<and> base_ok lib w1 \<and>
      (stays res \<longrightarrow> ftp_ok lib has_date w1) \<and> (\<not> stays res \<longrightarrow> ended_ok lib has_date res w1)"
  proof (cases "\<exists>k. op_data op = Other k")
    case True
    then have f: "ftp_ok lib has_date w" using b Cons nl by (cases "op_data old") (auto simp: ftp_ok_def is_raw_def split: other_op.splits)
    have "on_top (op_SubcommandResult lib env prev) w = Some (FZ_REPLY_WOULDBLOCK, w)" using True on_top_other(3) [OF Cons] by blast
    then show ?thesis using f b(1) by simp
  next
    case False
    then have no: "\<And>k. op_data op \<noteq> Other k" by simp
    show ?thesis
      by (rule on_top_ok [where f = "op_SubcommandResult lib env prev", OF op_Sub_outcome [OF lib env b(1) Cons b(3,4) nl b(5,6) no] Cons b(2) no]) blast
  qed
  then obtain res w1 where o: "on_top (op_SubcommandResult lib env prev) w = Some (res, w1)" "base_ok lib w1"
    "stays res \<Longrightarrow> ftp_ok lib has_date w1" "\<not> stays res \<Longrightarrow> ended_ok lib has_date res w1" by blast
  obtain w2 s where d: "destroy_op old w1 = Some w2" "base_ok lib w2" "w2 = w1\<lparr>fs_locks := s\<rparr>" using destroy_op_ok [OF o(2)] .
  show ?thesis using that Cons o d ftp_ok_locks [of lib has_date w1 s] ended_ok_locks [of lib has_date res w1 s]
    by (cases "stays res") (auto simp: ParseSubcommandResult_def stays_def)
qed

lemma call_step_ok:
  assumes "lib_ok lib" "env_ok lib has_date env" "call_ok lib has_date c w"
  obtains p where "call_step lib env c w = Some p" "progress_ok lib has_date p"
proof (cases c)
  case CallSend
  then show ?thesis using that assms SendNextCommand_ok [of lib has_date w env] by (auto simp: call_step_def)
next
  case (CallReset code)
  then show ?thesis using that assms ResetOperation_ok [of lib has_date code w] by (auto simp: call_step_def)
next
  case (CallSub prev old)
  then show ?thesis using that assms ParseSubcommandResult_ok [OF assms(1,2), of prev old w] by (auto simp: call_step_def)
qed

lemma run_ok:
  assumes "lib_ok lib" "env_ok lib has_date env"
  shows "call_ok lib has_date c w \<Longrightarrow> \<exists>res w1. run lib env c w = Some (res, w1) \<and> ftp_ok lib has_date w1"
proof (induction "call_measure c w" arbitrary: c w rule: less_induct)
  case less
  obtain p where p: "call_step lib env c w = Some p" "progress_ok lib has_date p" using call_step_ok [OF assms less.prems] .
  show ?case
  proof (cases p)
    case (Done res w1)
    then show ?thesis using p by (simp add: run.simps [of lib env c w])
  next
    case (Next c1 w1)
    then show ?thesis using p less.hyps [of c1 w1] call_step_decreases [of lib env c w c1 w1] by (simp add: run.simps [of lib env c w])
  qed
qed

lemma run_progress_ok:
  assumes "lib_ok lib" "env_ok lib has_date env" "progress_ok lib has_date p"
  obtains w where "run_progress lib env p = Some w" "ftp_ok lib has_date w"
proof (cases p)
  case (Next c w)
  then show ?thesis using that assms run_ok [OF assms(1,2), of c w] by (auto simp: run_progress_def)
qed (use that assms in \<open>auto simp: run_progress_def\<close>)

end
