(* ===== verification/Engine_Commands.thy ===== *)
theory Engine_Commands
  imports Ftp_Stack
begin

text \<open>
  The commands of the engine (\<^verbatim>\<open>include/commands.h\<close>, \<^verbatim>\<open>engine/commands.cpp\<close>) and how an engine with an FTP
  connection executes them (\<^verbatim>\<open>Execute\<close>, \<^verbatim>\<open>OnCommandEvent\<close> and the command handlers of
  \<^verbatim>\<open>engine/engineprivate.cpp\<close>). The engine has a connection, so that no command is refused
  for want of one, and it is busy as long as the connection has an operation. The event between \<^verbatim>\<open>Execute\<close> and \<^verbatim>\<open>OnCommandEvent\<close> is
  delivered at once. Whether a file transfer has a reader or writer is a flag.
\<close>

definition FZ_REPLY_SYNTAXERROR :: int where "FZ_REPLY_SYNTAXERROR = 0x0012"
definition FZ_REPLY_BUSY :: int where "FZ_REPLY_BUSY = 0x0102"
definition LIST_FLAG_AVOID :: int where "LIST_FLAG_AVOID = 2"
definition LIST_FLAG_CLEARCACHE :: int where "LIST_FLAG_CLEARCACHE = 16"

datatype command =
    ListCommand server_path wstring int
  | FileTransferCommand bool server_path wstring bool
  | RawCommand_cmd wstring
  | DeleteCommand server_path "wstring list"
  | RemoveDirCommand server_path wstring
  | MkdirCommand server_path
  | RenameCommand server_path wstring server_path wstring
  | ChmodCommand server_path wstring wstring

fun command_valid :: "command \<Rightarrow> bool" where
  "command_valid (ListCommand path subDir flags) =
     (\<not> (path_empty path \<and> subDir \<noteq> []) \<and> \<not> (has_flag flags LIST_FLAG_LINK \<and> subDir = []) \<and>
      \<not> (has_flag flags LIST_FLAG_REFRESH \<and> has_flag flags LIST_FLAG_AVOID))"
| "command_valid (FileTransferCommand io path name download) = (io \<and> \<not> path_empty path \<and> name \<noteq> [])"
| "command_valid (RawCommand_cmd c) = (c \<noteq> [])"
| "command_valid (DeleteCommand path files) = (\<not> path_empty path \<and> files \<noteq> [])"
| "command_valid (RemoveDirCommand path subDir) = (\<not> path_empty path \<and> subDir \<noteq> [])"
| "command_valid (MkdirCommand path) = (\<not> path_empty path \<and> HasParent path)"
| "command_valid (RenameCommand fromPath fromFile toPath toFile) =
     (\<not> path_empty fromPath \<and> \<not> path_empty toPath \<and> fromFile \<noteq> [] \<and> toFile \<noteq> [])"
| "command_valid (ChmodCommand path name permission) = (\<not> path_empty path \<and> name \<noteq> [] \<and> permission \<noteq> [])"

subsection \<open>Listing\<close>

text \<open>Protocols without links, where the path of a sub-directory can be computed.\<close>

definition computes_subdirs :: "server_protocol \<Rightarrow> bool" where
  "computes_subdirs p \<longleftrightarrow>
     p \<in> {S3, STORJ, WEBDAV, INSECURE_WEBDAV, AZURE_FILE, AZURE_BLOB, SWIFT, GOOGLE_CLOUD, GOOGLE_DRIVE, DROPBOX,
           ONEDRIVE, B2, BOX, RACKSPACE, STORJ_GRANT}"

definition clear_caches :: "'a fzlib_scheme \<Rightarrow> int \<Rightarrow> ftp \<Rightarrow> ftp" where
  "clear_caches lib flags w =
     (if has_flag flags LIST_FLAG_CLEARCACHE
      then w\<lparr>fs_dirs := InvalidateServer lib (fs_server w) (fs_dirs w), fs_paths := pc_InvalidateServer (fs_server w) (fs_paths w)\<rparr>
      else w)"

text \<open>The directory that a listing is looked up for, empty if it is not known.\<close>

definition list_target :: "'a fzlib_scheme \<Rightarrow> server_path \<Rightarrow> wstring \<Rightarrow> ftp \<Rightarrow> server_path \<times> ftp" where
  "list_target lib path subDir w =
     (case lookup_path lib path subDir w of
        (found, w1) \<Rightarrow>
          (if \<not> path_empty found then found
           else if subDir = [] then path
           else if computes_subdirs (srv_protocol (fs_server w)) then snd (change_dir path subDir)
           else found, w1))"

definition engine_List :: "'a fzlib_scheme \<Rightarrow> ftp_env \<Rightarrow> server_path \<Rightarrow> wstring \<Rightarrow> int \<Rightarrow> ftp \<Rightarrow> int \<times> ftp" where
  "engine_List lib env path subDir flags w0 =
     (let w = clear_caches lib flags w0;
          go = (\<lambda>flags w. (FZ_REPLY_CONTINUE, Push (List_op (fs_server w) path subDir flags) w))
      in if has_flag flags LIST_FLAG_REFRESH \<or> path_empty path \<or> \<not> server_valid (fs_server w) then go flags w
         else case list_target lib path subDir w of
           (target, w1) \<Rightarrow>
             if path_empty target then go flags w1
             else case Lookup lib (env_now env) (fs_server w1) target True (fs_dirs w1) of
               (found, c) \<Rightarrow>
                 let w2 = w1\<lparr>fs_dirs := c\<rparr>
                 in case found of
                      None \<Rightarrow> go flags w2
                    | Some (l, outdated) \<Rightarrow>
                        if outdated \<or> get_unsure_flags l \<noteq> 0 then go (flags OR LIST_FLAG_REFRESH) w2
                        else (FZ_REPLY_OK, if has_flag flags LIST_FLAG_AVOID then w2 else emit (Listing (ls_path l) True False) w2))"

subsection \<open>Executing a command\<close>

definition start_command :: "'a fzlib_scheme \<Rightarrow> ftp_env \<Rightarrow> command \<Rightarrow> ftp \<Rightarrow> (int \<times> ftp) option" where
  "start_command lib env cmd w =
     (case cmd of
        ListCommand path subDir flags \<Rightarrow> Some (engine_List lib env path subDir flags w)
      | FileTransferCommand io path name download \<Rightarrow> Some (FZ_REPLY_CONTINUE, Push (Other (FileTransfer download)) w)
      | RawCommand_cmd c \<Rightarrow> map_option (\<lambda>x. (FZ_REPLY_CONTINUE, Push x w)) (RawCommand c)
      | DeleteCommand path files \<Rightarrow> Some (FZ_REPLY_CONTINUE, Push (Delete_op path files) w)
      | RemoveDirCommand path subDir \<Rightarrow> Some (FZ_REPLY_CONTINUE, Push (RemoveDir_op path subDir) w)
      | MkdirCommand path \<Rightarrow> Some (FZ_REPLY_CONTINUE, Push (Mkdir path) w)
      | RenameCommand fromPath fromFile toPath toFile \<Rightarrow> Some (FZ_REPLY_CONTINUE, Push (Rename_op fromPath fromFile toPath toFile) w)
      | ChmodCommand path name permission \<Rightarrow> Some (FZ_REPLY_CONTINUE, Push (Chmod_op path name permission) w))"

definition OnCommandEvent :: "'a fzlib_scheme \<Rightarrow> ftp_env \<Rightarrow> command \<Rightarrow> ftp \<Rightarrow> ftp option" where
  "OnCommandEvent lib env cmd w =
     do {
       (res, w1) \<leftarrow> start_command lib env cmd w;
       if res = FZ_REPLY_CONTINUE then run_progress lib env (Next CallSend w1) else Some (emit (Finished res) w1)
     }"

definition Execute :: "'a fzlib_scheme \<Rightarrow> ftp_env \<Rightarrow> command \<Rightarrow> ftp \<Rightarrow> (int \<times> ftp) option" where
  "Execute lib env cmd w =
     (if \<not> command_valid cmd then Some (FZ_REPLY_SYNTAXERROR, w)
      else if fs_ops w \<noteq> [] then Some (FZ_REPLY_BUSY, w)
      else map_option (Pair FZ_REPLY_WOULDBLOCK) (OnCommandEvent lib env cmd w))"

subsection \<open>The invariant\<close>

text \<open>The texts of a command have no zeros in them.\<close>

fun command_texts :: "command \<Rightarrow> bool" where
  "command_texts (ListCommand path subDir flags) = (path_ok path \<and> 0 \<notin> set subDir)"
| "command_texts (FileTransferCommand io path name download) = True"
| "command_texts (RawCommand_cmd c) = True"
| "command_texts (DeleteCommand path files) = path_ok path"
| "command_texts (RemoveDirCommand path subDir) = path_ok path"
| "command_texts (MkdirCommand path) = path_ok path"
| "command_texts (RenameCommand fromPath fromFile toPath toFile) = path_ok fromPath"
| "command_texts (ChmodCommand path name permission) = path_ok path"

lemma Push_ok:
  assumes "base_ok lib w" "fs_ops w = []" "op_ok lib has_date x" "fresh x"
  shows "ftp_ok lib has_date (Push x w)"
proof -
  have "ftp_ok lib has_date (push_data x w)" by (rule fresh_top) (use assms in simp_all)
  moreover have "ftp_ok lib has_date (push_data (Other (Logon True)) (push_data x w))"
    using assms by (simp add: ftp_ok_def is_raw_def)
  ultimately show ?thesis by (simp add: Push_def Let_def)
qed

lemma List_op_ok:
  assumes "path_ok path" "0 \<notin> set subDir"
  shows "op_ok lib has_date (List_op server path subDir flags)" "fresh (List_op server path subDir flags)"
  using assms by (simp_all add: List_op_def)

lemma clear_caches_ok: "base_ok lib w \<Longrightarrow> base_ok lib (clear_caches lib flags w)" "fs_ops (clear_caches lib flags w) = fs_ops w"
  by (simp_all add: clear_caches_def)

lemma lookup_path_ops: "lookup_path lib path subDir w = (p, w1) \<Longrightarrow> fs_ops w1 = fs_ops w"
  by (auto simp: lookup_path_def split: prod.splits)

lemma engine_List_ok:
  assumes w: "base_ok lib w" "fs_ops w = []" and cmd: "path_ok path" "0 \<notin> set subDir"
    and r: "engine_List lib env path subDir flags w = (res, w1)"
  shows "ftp_ok lib has_date w1"
proof -
  define w0 where "w0 = clear_caches lib flags w"
  have w0: "base_ok lib w0" "fs_ops w0 = []" using w by (simp_all add: w0_def clear_caches_ok)
  have go: "ftp_ok lib has_date (Push (List_op (fs_server v) path subDir f) v)" if "base_ok lib v" "fs_ops v = []" for v f
    by (rule Push_ok [OF that List_op_ok [OF cmd]])
  obtain target w2 where t: "list_target lib path subDir w0 = (target, w2)" by fastforce
  obtain f v where f: "lookup_path lib path subDir w0 = (f, v)" by fastforce
  then have "w2 = v" using t by (simp add: list_target_def)
  then have w2: "base_ok lib w2" "fs_ops w2 = []" using lookup_path_ok [OF w0(1) f] lookup_path_ops [OF f] w0(2) by simp_all
  obtain found c where l: "Lookup lib (env_now env) (fs_server w2) target True (fs_dirs w2) = (found, c)" by fastforce
  define w3 where "w3 = w2\<lparr>fs_dirs := c\<rparr>"
  have w3: "base_ok lib w3" "fs_ops w3 = []"
    using cache_reach.lookup [of lib "fs_dirs w2" "env_now env" "fs_server w2" target True] l w2 by (simp_all add: w3_def)
  have "ftp_ok lib has_date w3" "ftp_ok lib has_date (emit x w3)" for x using w3 by (simp_all add: ftp_ok_def emit_def)
  then show ?thesis using r go [OF w0] go [OF w2] go [OF w3] t l
    by (auto simp: engine_List_def Let_def w0_def [symmetric] w3_def [symmetric] split: if_splits option.splits)
qed

lemma Execute_ok:
  assumes lib: "lib_ok lib" and env: "env_ok lib has_date env" and w: "ftp_ok lib has_date w" and cmd: "command_texts cmd"
  obtains res w1 where "Execute lib env cmd w = Some (res, w1)" "ftp_ok lib has_date w1"
proof (cases "command_valid cmd \<and> fs_ops w = []")
  case True
  then have b: "base_ok lib w" "fs_ops w = []" using w by (simp_all add: ftp_ok_def)
  obtain res w1 where s: "start_command lib env cmd w = Some (res, w1)" "ftp_ok lib has_date w1"
  proof (cases cmd)
    case (ListCommand path subDir flags)
    then show ?thesis using that cmd engine_List_ok [OF b] by (cases "engine_List lib env path subDir flags w") (auto simp: start_command_def)
  qed (use that True cmd Push_ok [OF b] in \<open>auto simp: start_command_def RawCommand_def Delete_op_def RemoveDir_op_def Mkdir_def
      Rename_op_def Chmod_op_def path_ok_def\<close>)
  have "progress_ok lib has_date (Next CallSend w1)" using s(2) by simp
  then obtain w2 where "run_progress lib env (Next CallSend w1) = Some w2" "ftp_ok lib has_date w2"
    by (rule run_progress_ok [OF lib env])
  moreover have "ftp_ok lib has_date (emit x w1)" for x using s(2) by (simp add: ftp_ok_def emit_def)
  ultimately show ?thesis using that s True by (cases "res = FZ_REPLY_CONTINUE") (auto simp: Execute_def OnCommandEvent_def)
next
  case False
  then have "\<exists>res. Execute lib env cmd w = Some (res, w)" by (auto simp: Execute_def)
  then show ?thesis using that w by blast
qed

end
