(* ===== verification/Ftp_System.thy ===== *)
theory Ftp_System
  imports Engine_Commands
begin

text \<open>
  An FTP connection among others: commands of the user, replies of any server, events, and what other connections do
  with the shared caches and locks. No step fails an assertion or reads out of range.
\<close>

subsection \<open>Events\<close>

lemma dispatch_response_ok:
  assumes lib: "lib_ok lib" and env: "env_ok lib has_date env" and w: "ftp_ok lib has_date w" and r: "4 \<le> length (fs_response w)"
  obtains w1 where "dispatch_response lib env w = Some w1" "ftp_ok lib has_date w1"
proof (cases "fs_ops w")
  case Nil
  then show ?thesis using that w by (simp add: dispatch_response_def)
next
  case (Cons op ops)
  note top = ftp_ok_top [OF w Cons]
  show ?thesis
  proof (cases "\<exists>k. op_data op = Other k")
    case True
    then have "on_top (op_ParseResponse lib env) w = Some (FZ_REPLY_WOULDBLOCK, w)" using on_top_other(2) [OF Cons] by blast
    then have "dispatch_response lib env w = Some w" using Cons by (simp add: dispatch_response_def)
    then show ?thesis using that w by simp
  next
    case False
    then have no: "\<And>k. op_data op \<noteq> Other k" by simp
    obtain res w1 where o: "on_top (op_ParseResponse lib env) w = Some (res, w1)" "stays res \<Longrightarrow> ftp_ok lib has_date w1"
      "\<not> stays res \<Longrightarrow> ended res \<and> ended_ok lib has_date res w1"
      by (rule on_top_ok [where f = "op_ParseResponse lib env", OF op_ParseResponse_outcome [OF lib env top(1) r top(3) no] Cons top(2) no]) blast
    define p where "p = (if res = FZ_REPLY_OK then Next (CallReset FZ_REPLY_OK) w1
      else if res = FZ_REPLY_CONTINUE then Next CallSend w1
      else if has_flag res FZ_REPLY_DISCONNECTED then DoClose res w1
      else if has_flag res FZ_REPLY_ERROR then Next (CallReset res) w1
      else Done res w1)"
    have "progress_ok lib has_date p"
      using o(2,3) ended_close by (cases "stays res") (auto simp: p_def stays_def ended_def split: if_splits)
    then obtain w2 where "run_progress lib env p = Some w2" "ftp_ok lib has_date w2" by (rule run_progress_ok [OF lib env])
    moreover have "dispatch_response lib env w = run_progress lib env p"
      using Cons o(1) by (simp add: dispatch_response_def p_def run_progress_def)
    ultimately show ?thesis using that by simp
  qed
qed

lemma ftp_ok_cong:
  "ftp_ok lib has_date (w\<lparr>fs_pending := n\<rparr>) = ftp_ok lib has_date w" "ftp_ok lib has_date (w\<lparr>fs_skip := n\<rparr>) = ftp_ok lib has_date w"
  "ftp_ok lib has_date (w\<lparr>fs_out := x\<rparr>) = ftp_ok lib has_date w" "ftp_ok lib has_date (w\<lparr>fs_invalidate := b\<rparr>) = ftp_ok lib has_date w"
  by (simp_all add: ftp_ok_def)

lemma on_reply_ok:
  assumes lib: "lib_ok lib" and env: "env_ok lib has_date env" and w: "ftp_ok lib has_date w" and r: "4 \<le> length r" "0 \<notin> set r"
  obtains w1 where "on_reply lib env r w = Some w1" "ftp_ok lib has_date w1"
proof -
  have "r \<noteq> []" using r(1) by auto
  define v where "v = w\<lparr>fs_response := r\<rparr>"
  have v: "ftp_ok lib has_date v" "4 \<le> length (fs_response v)" using w r by (simp_all add: v_def ftp_ok_def base_ok_def)
  have d: "\<exists>w1. dispatch_response lib env u = Some w1 \<and> ftp_ok lib has_date w1" if "ftp_ok lib has_date u" "fs_response u = r" for u
    using dispatch_response_ok [OF lib env that(1)] that(2) r(1) by metis
  have s: "\<exists>w1. run_progress lib env (Next CallSend u) = Some w1 \<and> ftp_ok lib has_date w1" if "ftp_ok lib has_date u" for u
    using run_progress_ok [OF lib env, of "Next CallSend u"] that by (metis progress_ok.simps(2) call_ok.simps(1))
  have "\<exists>w1. ParseResponse lib env v = Some w1 \<and> ftp_ok lib has_date w1"
    using v(1) \<open>r \<noteq> []\<close> by (simp add: ParseResponse_def Let_def v_def d s ftp_ok_cong)
  moreover have "ftp_ok lib has_date (u\<lparr>fs_response := []\<rparr>)" if "ftp_ok lib has_date u" for u
    using that by (simp add: ftp_ok_def base_ok_def)
  ultimately show thesis using that by (auto simp: on_reply_def v_def)
qed

lemma note_transfer_cases:
  assumes "op_data op = Other k"
  obtains "note_transfer sent reason (op # ops) = op # ops"
  | cmd y rest d where "k = RawTransfer cmd" "ops = y # rest" "op_data y = Lst d"
      "note_transfer sent reason (op # ops) = op # y\<lparr>op_data := Lst (d\<lparr>lo_commandSent := sent, lo_transferEndReason := reason\<rparr>)\<rparr> # rest"
proof (cases ops)
  case Nil
  then show ?thesis using that(1) by (simp add: note_transfer_def)
next
  case (Cons y rest)
  show ?thesis
  proof (cases k)
    case (RawTransfer cmd)
    show ?thesis
    proof (cases "op_data y")
      case (Lst d)
      show ?thesis by (rule that(2) [OF RawTransfer Cons Lst]) (simp add: note_transfer_def Cons assms RawTransfer Lst)
    qed (rule that(1), simp add: note_transfer_def Cons assms RawTransfer)+
  qed (rule that(1), simp add: note_transfer_def Cons assms)+
qed

lemma other_ended:
  assumes w: "ftp_ok lib has_date w" and ops: "fs_ops w = op # ops" "op_data op = Other k"
  shows "ended_ok lib has_date code w"
proof (cases ops)
  case Nil
  then show ?thesis using w ops by (simp add: ended_ok_def ftp_ok_def)
next
  case (Cons y rest)
  have s: "sits_on (op_data op) (op_data y)" using w ops Cons by (simp add: ftp_ok_def)
  have n: "key_ok (fs_path w)" if "needs_path (op_data y)" using w ops Cons sits_needs [OF s that] that by (simp add: ftp_ok_def)
  have "sub_ready code (op_data y) (fs_path w)"
    unfolding sub_ready_def using n sits_list_cwd [of "op_data op"] s ops(2) by (metis op_data.distinct)
  then show ?thesis using w ops Cons s by (simp add: ended_ok_def ftp_ok_def)
qed

lemma note_transfer_ok:
  assumes w: "ftp_ok lib has_date w" and ops: "fs_ops w = op # ops" "op_data op = Other k"
  shows "ended_ok lib has_date code (w\<lparr>fs_ops := note_transfer sent reason (fs_ops w)\<rparr>)"
proof (cases rule: note_transfer_cases [of op k sent reason ops, OF ops(2)])
  case 1
  then show ?thesis using other_ended [OF w ops, of code] ops by (simp add: ended_ok_def)
next
  case (2 cmd y rest d)
  define e where "e = d\<lparr>lo_commandSent := sent, lo_transferEndReason := reason\<rparr>"
  have "list_ok lib has_date e = list_ok lib has_date d" "sits_on (Other (RawTransfer cmd)) (Lst e) = sits_on (Other (RawTransfer cmd)) (Lst d)"
    "sits_on (Lst e) z = sits_on (Lst d) z" "sub_ready code (Lst e) p = sub_ready code (Lst d) p" for z p
    by (simp_all add: e_def sub_ready_def)
  then show ?thesis using other_ended [OF w ops, of code] 2 ops
    by (simp add: ended_ok_def e_def [symmetric] del: list_ok.simps)
qed

lemma run_from:
  assumes "lib_ok lib" "env_ok lib has_date env"
  shows "progress_ok lib has_date p \<Longrightarrow> \<exists>w1. run_progress lib env p = Some w1 \<and> ftp_ok lib has_date w1"
  using run_progress_ok [OF assms] by blast

lemma OnObtainLock_ok:
  assumes "lib_ok lib" "env_ok lib has_date env" "ftp_ok lib has_date w"
    and n: "n < length (sys_events (fs_locks w))" "sys_events (fs_locks w) ! n = Some (fs_id w)"
  shows "\<exists>w1. OnObtainLock lib env n w = Some w1 \<and> ftp_ok lib has_date w1"
proof -
  define w0 where "w0 = w\<lparr>fs_locks := deliver lib n (fs_id w) (fs_locks w)\<rparr>"
  have "ftp_ok lib has_date w0"
    using assms(3) system_ok_deliver [of lib "fs_locks w", OF _ n] by (simp add: ftp_ok_def base_ok_def w0_def)
  then show ?thesis using run_from [OF assms(1,2), of "Next CallSend w0"] by (simp add: OnObtainLock_def Let_def w0_def [symmetric])
qed

lemma canceled_ok:
  assumes "ftp_ok lib has_date w"
  shows "ended_ok lib has_date FZ_REPLY_CANCELED w"
proof -
  have "\<not> simple_result FZ_REPLY_CANCELED" by (simp add: simple_result_def reply_codes)
  then show ?thesis using assms by (cases "fs_ops w"; cases "tl (fs_ops w)") (simp_all add: ended_ok_def ftp_ok_def)
qed

lemma Cancel_ok:
  assumes "lib_ok lib" "env_ok lib has_date env" "ftp_ok lib has_date w"
  shows "\<exists>w1. Cancel lib env w = Some w1 \<and> ftp_ok lib has_date w1"
  using run_from [OF assms(1,2), of "DoClose FZ_REPLY_CANCELED w"] run_from [OF assms(1,2), of "Next (CallReset FZ_REPLY_CANCELED) w"]
    ftp_close [OF assms(3)] canceled_ok [OF assms(3)] assms(3)
  by (cases "fs_ops w") (simp_all add: Cancel_def)

lemma OnInvalidate_ok:
  assumes "ftp_ok lib has_date w"
  shows "ftp_ok lib has_date (OnInvalidateCurrentWorkingDir lib server path w)"
  using assms by (auto simp: OnInvalidateCurrentWorkingDir_def InvalidateCurrentWorkingDir_def ftp_ok_def clear_current_def)

lemma keep_alive_ok:
  assumes "lib_ok lib" "env_ok lib has_date env" "ftp_ok lib has_date w"
  shows "\<exists>w1. keep_alive lib env cmd w = Some w1 \<and> ftp_ok lib has_date w1"
proof -
  obtain res w1 where s: "SendCommand env cmd w = (res, w1)" by fastforce
  have "fs_ops w1 = fs_ops w" using s by (auto simp: SendCommand_def real_send_def Let_def emit_def split: if_splits prod.splits)
  then have "ftp_ok lib has_date w1" using assms(3) s SendCommand_ok(1) [of lib env cmd w] SendCommand_ok(2) [of env cmd w] by (auto simp: ftp_ok_def)
  then show ?thesis using s assms(3) run_from [OF assms(1,2), of "DoClose res w1"] ftp_close [of lib has_date w1]
    by (auto simp: keep_alive_def ftp_ok_cong)
qed

lemma other_ends_ok:
  assumes "lib_ok lib" "env_ok lib has_date env" "ftp_ok lib has_date w" "fs_ops w = op # ops" "op_data op = Other k"
  shows "\<exists>w1. other_ends lib env sent reason code w = Some w1 \<and> ftp_ok lib has_date w1"
  unfolding other_ends_def by (rule run_from [OF assms(1,2)]) (simp add: note_transfer_ok [OF assms(3-5)])

subsection \<open>A connection among others\<close>

text \<open>A connection that is about to start, with fresh caches.\<close>

definition new_connection :: "nat \<Rightarrow> cserver \<Rightarrow> capability_map \<Rightarrow> ftp" where
  "new_connection k server caps =
     \<lparr>fs_id = k, fs_server = server, fs_path = empty_path, fs_ops = [], fs_invalidate = False, fs_response = [],
      fs_pending = 0, fs_skip = 0, fs_connected = False, fs_lastTypeBinary = - 1, fs_dirs = empty_cache,
      fs_paths = empty_path_cache, fs_locks = initial_system, fs_caps = caps, fs_next = 0, fs_out = []\<rparr>"

text \<open>
  What an operation of another module on top of the stack can start. Such an operation can also end, by itself or while
  a reply is handled, which is then still in \<^verbatim>\<open>m_Response\<close>, and a logon can find out the type of the server.
\<close>

definition other_starts :: "'a fzlib_scheme \<Rightarrow> ftp_env \<Rightarrow> op_data option \<Rightarrow> ftp \<Rightarrow> ftp option" where
  "other_starts lib env x w = Option.bind x (\<lambda>d. run_progress lib env (Next CallSend (push_data d w)))"

inductive ftp_step :: "'a fzlib_scheme \<Rightarrow> (direntry \<Rightarrow> bool) \<Rightarrow> ftp \<Rightarrow> ftp option \<Rightarrow> bool" for lib has_date where
  step_command: "env_ok lib has_date env \<Longrightarrow> command_texts cmd \<Longrightarrow> ftp_step lib has_date w (map_option snd (Execute lib env cmd w))"
| step_reply: "env_ok lib has_date env \<Longrightarrow> 4 \<le> length r \<Longrightarrow> 0 \<notin> set r \<Longrightarrow> ftp_step lib has_date w (on_reply lib env r w)"
| step_lock: "env_ok lib has_date env \<Longrightarrow> n < length (sys_events (fs_locks w)) \<Longrightarrow> sys_events (fs_locks w) ! n = Some (fs_id w) \<Longrightarrow>
    ftp_step lib has_date w (OnObtainLock lib env n w)"
| step_cancel: "env_ok lib has_date env \<Longrightarrow> ftp_step lib has_date w (Cancel lib env w)"
| step_invalid: "ftp_step lib has_date w (Some (OnInvalidateCurrentWorkingDir lib server path w))"
| step_alive: "env_ok lib has_date env \<Longrightarrow> ftp_step lib has_date w (keep_alive lib env cmd w)"
| step_close: "env_ok lib has_date env \<Longrightarrow> ftp_step lib has_date w (run_progress lib env (DoClose code w))"
| step_acts: "fs_ops w = op # ops \<Longrightarrow> op_data op = Other k \<Longrightarrow>
    ftp_step lib has_date w (Some (w\<lparr>fs_connected := b, fs_pending := n, fs_lastTypeBinary := t, fs_caps := caps, fs_out := out\<rparr>))"
| step_ends: "env_ok lib has_date env \<Longrightarrow> fs_ops w = op # ops \<Longrightarrow> op_data op = Other k \<Longrightarrow>
    ftp_step lib has_date w (other_ends lib env sent reason code w)"
| step_reply_ends: "env_ok lib has_date env \<Longrightarrow> fs_ops w = op # ops \<Longrightarrow> op_data op = Other k \<Longrightarrow> 0 \<notin> set r \<Longrightarrow>
    ftp_step lib has_date w (map_option (\<lambda>w1. w1\<lparr>fs_response := []\<rparr>)
      (other_ends lib env sent reason code (w\<lparr>fs_response := r, fs_pending := n\<rparr>)))"
| step_logon: "fs_ops w = op # ops \<Longrightarrow> op_data op = Other (Logon b) \<Longrightarrow> srv_type (fs_server w) = DEFAULT \<Longrightarrow> t \<in> {MVS, HPNONSTOP, ZVM} \<Longrightarrow>
    ftp_step lib has_date w (Some (w\<lparr>fs_server := (fs_server w)\<lparr>srv_type := t\<rparr>\<rparr>))"
| step_cwd: "env_ok lib has_date env \<Longrightarrow> fs_ops w = op # ops \<Longrightarrow> op_data op = Other (FileTransfer b) \<Longrightarrow> path_ok path \<Longrightarrow>
    ftp_step lib has_date w (other_starts lib env (ChangeDir path [] False (fs_ops w)) w)"
| step_list: "env_ok lib has_date env \<Longrightarrow> fs_ops w = op # ops \<Longrightarrow> op_data op = Other (FileTransfer b) \<Longrightarrow>
    ftp_step lib has_date w (other_starts lib env (Some (List_op (fs_server w) empty_path [] LIST_FLAG_REFRESH)) w)"
| step_transfer: "env_ok lib has_date env \<Longrightarrow> fs_ops w = op # ops \<Longrightarrow> op_data op = Other (FileTransfer b) \<Longrightarrow>
    ftp_step lib has_date w (other_starts lib env (Some (Other (RawTransfer cmd))) w)"
| step_dirs: "cache_reach lib c \<Longrightarrow> ftp_step lib has_date w (Some (w\<lparr>fs_dirs := c\<rparr>))"
| step_paths: "paths_ok lib c \<Longrightarrow> ftp_step lib has_date w (Some (w\<lparr>fs_paths := c\<rparr>))"
| step_locks: "lock_step lib (fs_locks w) s \<Longrightarrow> ftp_step lib has_date w (map_option (\<lambda>t. w\<lparr>fs_locks := t\<rparr>) s)"
| step_caps: "ftp_step lib has_date w (Some (w\<lparr>fs_caps := caps\<rparr>))"

text \<open>The states that can be reached, \<^const>\<open>None\<close> when a step has failed.\<close>

inductive ftp_reach :: "'a fzlib_scheme \<Rightarrow> (direntry \<Rightarrow> bool) \<Rightarrow> ftp option \<Rightarrow> bool" for lib has_date where
  reach_new: "ftp_reach lib has_date (Some (new_connection k server caps))"
| reach_next: "ftp_reach lib has_date (Some w) \<Longrightarrow> ftp_step lib has_date w s \<Longrightarrow> ftp_reach lib has_date s"

lemma targets_ok_start: "targets_ok empty_path_cache"
  by (simp add: targets_ok_def empty_path_cache_def)

lemma new_connection_ok: "ftp_ok lib has_date (new_connection k server caps)"
proof -
  have "system_ok lib initial_system" using lock_reach_ok [OF lock_reach.reach_start] by auto
  then show ?thesis
    by (simp add: new_connection_def ftp_ok_def base_ok_def cache_reach.start path_cache_reach.pc_start targets_ok_start)
qed

lemma other_starts_ok:
  assumes "lib_ok lib" "env_ok lib has_date env" and w: "ftp_ok lib has_date w" "fs_ops w = op # ops" "op_data op = Other (FileTransfer b)"
    and "op_ok lib has_date x" "sits_on x (Other (FileTransfer b))" "\<not> needs_path x"
  shows "\<exists>w1. other_starts lib env (Some x) w = Some w1 \<and> ftp_ok lib has_date w1"
proof -
  have "ftp_ok lib has_date (push_data x w)" using assms(3-) by (simp add: ftp_ok_def)
  then show ?thesis using run_from [OF assms(1,2), of "Next CallSend (push_data x w)"] by (simp add: other_starts_def)
qed

lemma ftp_step_ok:
  assumes "ftp_step lib has_date w s" and lib: "lib_ok lib" and w: "ftp_ok lib has_date w"
  shows "\<exists>w1. s = Some w1 \<and> ftp_ok lib has_date w1"
  using assms(1) w
proof (induction rule: ftp_step.induct)
  case (step_command env cmd w)
  show ?case using Execute_ok [OF lib step_command(1,3,2)] by (metis option.simps(9) snd_conv)
next
  case (step_reply env r w)
  show ?case using on_reply_ok [OF lib step_reply(1,4,2,3)] by blast
next
  case (step_close env w code)
  then show ?case using run_from [OF lib] ftp_close by blast
next
  case (step_reply_ends env w op ops k r sent reason code n)
  define v where "v = w\<lparr>fs_response := r, fs_pending := n\<rparr>"
  have "ftp_ok lib has_date v" "fs_ops v = op # ops" using step_reply_ends(2,4,5) by (simp_all add: v_def ftp_ok_def base_ok_def)
  then obtain w1 where "other_ends lib env sent reason code v = Some w1" "ftp_ok lib has_date w1"
    using other_ends_ok [OF lib step_reply_ends(1) _ _ step_reply_ends(3)] by blast
  then show ?case by (simp add: v_def ftp_ok_def base_ok_def)
next
  case (step_logon w op ops b t)
  then show ?case by (simp add: ftp_ok_def base_ok_def)
next
  case (step_cwd env w op ops b path)
  have "\<exists>x. ChangeDir path [] False (fs_ops w) = Some x \<and> op_ok lib has_date x \<and> sits_on x (Other (FileTransfer b)) \<and> \<not> needs_path x"
    using step_cwd(4) by (simp add: ChangeDir_def)
  then show ?case using other_starts_ok [OF lib step_cwd(1,5,2,3)] by auto
next
  case (step_list env w op ops b)
  then show ?case using other_starts_ok [OF lib, of has_date env w op ops b] List_op_ok(1) [of empty_path "[]" lib has_date]
    by (simp add: List_op_def)
next
  case (step_transfer env w op ops b cmd)
  then show ?case using other_starts_ok [OF lib, of has_date env w op ops b] by simp
next
  case (step_locks w s)
  have "system_ok lib (fs_locks w)" using step_locks(2) by (simp add: ftp_ok_def base_ok_def)
  then obtain t where "s = Some t" "system_ok lib t" using lock_step_ok [OF step_locks(1)] by blast
  then show ?case using step_locks(2) by (simp add: ftp_ok_def base_ok_def)
next
  case (step_dirs c w)
  then show ?case by (simp add: ftp_ok_def)
next
  case (step_paths c w)
  then show ?case by (simp add: ftp_ok_def)
next
  case (step_acts w op ops k b n t caps out)
  then show ?case by (simp add: ftp_ok_def)
next
  case (step_caps w caps)
  then show ?case by (simp add: ftp_ok_def)
qed (use lib in \<open>auto intro: OnObtainLock_ok Cancel_ok OnInvalidate_ok keep_alive_ok other_ends_ok\<close>)

lemma ftp_reach_ok:
  assumes "ftp_reach lib has_date s" "lib_ok lib"
  shows "\<exists>w. s = Some w \<and> ftp_ok lib has_date w"
  using assms(1)
proof (induction rule: ftp_reach.induct)
  case (reach_new k server caps)
  then show ?case by (simp add: new_connection_ok)
next
  case (reach_next w s)
  then show ?case using ftp_step_ok [OF reach_next(2) assms(2)] by blast
qed

end
