(* ===== verification/Ftp_Props.thy ===== *)
theory Ftp_Props
  imports Ftp_System Directory_Cache_Props
begin

text \<open>The properties of an FTP connection as a whole: it never fails, its invariant, its loop and listings from the cache.\<close>

subsection \<open>The loop\<close>

text \<open>Up to \<open>n\<close> calls of the loop.\<close>

fun loop_for :: "'a fzlib_scheme \<Rightarrow> ftp_env \<Rightarrow> nat \<Rightarrow> progress \<Rightarrow> progress option" where
  "loop_for lib env 0 p = Some p"
| "loop_for lib env (Suc n) (Done res w) = Some (Done res w)"
| "loop_for lib env (Suc n) (Next c w) = Option.bind (call_step lib env c w) (loop_for lib env n)"

lemma pot_bound: "pot x \<le> 10"
  by (cases x) (simp_all split: list_state.split)

lemma call_measure_bound: "call_measure c w < 30 * length (fs_ops w) + 3"
proof -
  have "sum_list (map (\<lambda>op. pot (op_data op)) ops) \<le> 10 * length ops" for ops
    by (induction ops) (auto intro: add_mono pot_bound)
  then have "pot_sum w \<le> 10 * length (fs_ops w)" by (simp add: pot_sum_def)
  moreover have "call_weight c < 3" by (cases c) simp_all
  ultimately show ?thesis by (simp add: call_measure_def)
qed

lemma loop_for_run:
  "call_measure c w < n \<Longrightarrow>
     run lib env c w = (case loop_for lib env n (Next c w) of Some (Done res w1) \<Rightarrow> Some (res, w1) | _ \<Rightarrow> None) \<and>
     loop_for lib env n (Next c w) \<noteq> Some (Next c1 w1)"
proof (induction n arbitrary: c w)
  case (Suc n)
  show ?case
  proof (cases "call_step lib env c w")
    case None
    then show ?thesis by (simp add: run.simps [of lib env c w])
  next
    case (Some p)
    show ?thesis
    proof (cases p)
      case (Done res v)
      then show ?thesis using Some by (cases n) (simp_all add: run.simps [of lib env c w])
    next
      case (Next d v)
      then have "call_measure d v < n" using Some Suc.prems call_step_decreases [of lib env c w d v] by simp
      then show ?thesis using Suc.IH [of d v] Some Next by (simp add: run.simps [of lib env c w])
    qed
  qed
qed simp

subsection \<open>Listings from the cache\<close>

lemma Lookup_fresh:
  assumes ok: "cache_ok lib c" and r: "Lookup lib now server path True c = (Some (l, outdated), c1)"
  shows "outdated \<longleftrightarrow> now - ls_firstListTime l > dc_ttl c"
proof -
  have s: "struct_ok lib c" using ok by (simp add: cache_ok_def)
  obtain sid e where g: "GetServerEntry lib server c = Some sid" "lower_bound lib path (entries_of c sid) = Some e" "path_eq (ce_path e) path"
    "c1 = UpdateLru sid (ce_id e) c" "outdated = (now - ls_firstListTime (ce_listing e) > dc_ttl c)"
    "map_option ce_listing (get_entry c1 (ce_id e)) = Some l"
    using r by (auto simp: Lookup_def lookup_entry_def Let_def split: option.splits if_splits)
  have e: "(sid, e) \<in> indexed c" using g(2) entries_of_mem [OF s] lower_bound_entry by metis
  obtain lru where lru: "UpdateLru sid (ce_id e) c = c\<lparr>dc_lru := lru\<rparr>" using cache_ok_UpdateLru [OF ok e refl] .
  have "get_entry (c\<lparr>dc_lru := lru\<rparr>) (ce_id e) = Some e"
    using get_entry_Some [of lib "c\<lparr>dc_lru := lru\<rparr>"] s indexed_all [OF e] by simp
  then show ?thesis using g lru by simp
qed

lemma clear_caches_dirs:
  "cache_ok lib (fs_dirs w) \<Longrightarrow> stored lib (fs_dirs (clear_caches lib flags w)) (fs_server w) e \<longleftrightarrow>
     stored lib (fs_dirs w) (fs_server w) e \<and> \<not> has_flag flags LIST_FLAG_CLEARCACHE"
  by (simp add: clear_caches_def InvalidateServer_stored)

lemma list_target_frame:
  assumes "list_target lib path subDir w = (target, w1)"
  shows "fs_dirs w1 = fs_dirs w" "fs_server w1 = fs_server w" "fs_ops w1 = fs_ops w" "fs_path w1 = fs_path w" "fs_out w1 = fs_out w"
    "fs_pending w1 = fs_pending w"
  using assms by (auto simp: list_target_def lookup_path_def split: prod.splits)

lemma engine_List_OK:
  assumes "engine_List lib env path subDir flags w = (FZ_REPLY_OK, w1)"
  obtains target w2 l c where "\<not> has_flag flags LIST_FLAG_REFRESH" "list_target lib path subDir (clear_caches lib flags w) = (target, w2)"
    "Lookup lib (env_now env) (fs_server w2) target True (fs_dirs w2) = (Some (l, False), c)" "get_unsure_flags l = 0"
    "w1 = (if has_flag flags LIST_FLAG_AVOID then w2\<lparr>fs_dirs := c\<rparr> else emit (Listing (ls_path l) True False) (w2\<lparr>fs_dirs := c\<rparr>))"
proof -
  define v where "v = clear_caches lib flags w"
  obtain target w2 where t: "list_target lib path subDir v = (target, w2)" by fastforce
  obtain found c where l: "Lookup lib (env_now env) (fs_server w2) target True (fs_dirs w2) = (found, c)" by fastforce
  show thesis
  proof (cases found)
    case None
    then show thesis using assms t l by (simp add: engine_List_def v_def [symmetric] Let_def reply_codes split: if_splits)
  next
    case (Some x)
    then show thesis using assms that [of target w2 "fst x" c] t l
      by (cases x) (simp add: engine_List_def v_def [symmetric] Let_def reply_codes split: if_splits)
  qed
qed

subsection \<open>Properties\<close>

text \<open>
  C1: An FTP connection never fails, whatever the user asks for, whatever the server replies and whatever the
  connections beside it do with the caches and the locks: no assertion fails, no operation that is gone is used and nothing is
  read out of range.
\<close>

theorem ftp_never_fails:
  assumes "lib_ok lib" "ftp_reach lib has_date s"
  shows "s \<noteq> None"
  using ftp_reach_ok [OF assms(2,1)] by auto

text \<open>
  C8: In every state of an FTP connection the operations on its stack are well formed: each stands on one that waits for
  it, their paths have no zeros, the current directory is known where an operation relies on it, and the caches and
  the locks keep their invariants.
\<close>

theorem ftp_well_formed:
  assumes "lib_ok lib" "ftp_reach lib has_date (Some w)"
  shows "stack_ok lib has_date (datas w) \<and> path_known (datas w) (fs_path w) \<and> path_ok (fs_path w) \<and> 0 \<notin> set (fs_response w) \<and>
    cache_ok lib (fs_dirs w) \<and> path_cache_ok lib (fs_paths w) \<and> system_ok lib (fs_locks w)"
proof -
  have "ftp_ok lib has_date w" using ftp_reach_ok [OF assms(2,1)] by simp
  then show ?thesis using assms(1) cache_reach_ok path_cache_reach_ok by (auto simp: ftp_ok_def base_ok_def lib_ok_def)
qed

text \<open>
  C14: Between two events the control socket makes fewer than \<open>30\<close> calls for each operation on the stack and three more:
  after that many calls of \<^verbatim>\<open>SendNextCommand\<close>, \<^verbatim>\<open>ResetOperation\<close> and \<^verbatim>\<open>ParseSubcommandResult\<close> the loop has returned,
  with the same result as without a bound.
\<close>

theorem loop_returns:
  "loop_for lib env (30 * length (fs_ops w) + 3) (Next c w) \<noteq> Some (Next c1 w1) \<and>
   run lib env c w =
     (case loop_for lib env (30 * length (fs_ops w) + 3) (Next c w) of Some (Done res w2) \<Rightarrow> Some (res, w2) | _ \<Rightarrow> None)"
  using loop_for_run [OF call_measure_bound] by blast

text \<open>
  C13: A listing that the engine answers without the server is one that the cache has for this server and for the directory asked for.
  It is not older than the time to live and not unsure, neither a refresh nor clearing the cache was asked for, nothing is sent
  and no operation is started.
\<close>

theorem list_from_cache:
  assumes "lib_ok lib" "ftp_reach lib has_date (Some w)" "engine_List lib env path subDir flags w = (FZ_REPLY_OK, w1)"
  shows "\<exists>e. stored lib (fs_dirs w) (fs_server w) e \<and> ce_path e = fst (list_target lib path subDir w) \<and>
    env_now env - ls_firstListTime (ce_listing e) \<le> dc_ttl (fs_dirs w) \<and> get_unsure_flags (ce_listing e) = 0 \<and>
    \<not> has_flag flags LIST_FLAG_REFRESH \<and> \<not> has_flag flags LIST_FLAG_CLEARCACHE \<and>
    fs_ops w1 = fs_ops w \<and> fs_path w1 = fs_path w \<and> fs_pending w1 = fs_pending w \<and>
    fs_out w1 = fs_out w @ (if has_flag flags LIST_FLAG_AVOID then [] else [Listing (ce_path e) True False])"
proof -
  have "base_ok lib w" using ftp_reach_ok [OF assms(2,1)] by (auto simp: ftp_ok_def)
  then have b: "cache_ok lib (fs_dirs w)" "cache_ok lib (fs_dirs (clear_caches lib flags w))"
    using assms(1) cache_reach_ok clear_caches_ok(1) [of lib w flags] by (auto simp: base_ok_def lib_ok_def)
  obtain target w2 l c where g: "\<not> has_flag flags LIST_FLAG_REFRESH" "list_target lib path subDir (clear_caches lib flags w) = (target, w2)"
    "Lookup lib (env_now env) (fs_server w2) target True (fs_dirs w2) = (Some (l, False), c)" "get_unsure_flags l = 0"
    "w1 = (if has_flag flags LIST_FLAG_AVOID then w2\<lparr>fs_dirs := c\<rparr> else emit (Listing (ls_path l) True False) (w2\<lparr>fs_dirs := c\<rparr>))"
    by (rule engine_List_OK [OF assms(3)])
  note f = list_target_frame [OF g(2)]
  have srv: "fs_server (clear_caches lib flags w) = fs_server w" by (simp add: clear_caches_def)
  obtain e where e: "stored lib (fs_dirs (clear_caches lib flags w)) (fs_server w) e" "ce_path e = target" "ce_listing e = l"
    using Lookup_listing [OF _ b(2), of "env_now env" "fs_server w" target l] assms(1) g(3) f srv by (auto simp: lib_ok_def)
  then have k: "stored lib (fs_dirs w) (fs_server w) e" "\<not> has_flag flags LIST_FLAG_CLEARCACHE" using clear_caches_dirs [OF b(1)] by simp_all
  then have "clear_caches lib flags w = w" by (simp add: clear_caches_def)
  then show ?thesis using k e g f Lookup_fresh [OF b(2), of "env_now env" "fs_server w" target l False c]
    by (intro exI [of _ e]) (auto simp: emit_def ce_path_def)
qed

subsection \<open>Examples\<close>

definition test_env :: ftp_env where
  "test_env = \<lparr>env_now = 0, env_conv = (\<lambda>cmd. True), env_write = True, env_hidden = False,
     env_parse = (\<lambda>p. empty_listing\<lparr>ls_path := p\<rparr>), env_datetime = (\<lambda>s. None), env_has_date = (\<lambda>e. True),
     env_has_time = (\<lambda>e. False), env_has_seconds = (\<lambda>e. False), env_add_time = (+),
     env_seconds_between = (\<lambda>a b. (a - b) div 1000)\<rparr>"

definition test_server :: cserver where
  "test_server = empty_server\<lparr>srv_host := L ''host''\<rparr>"

definition test_ftp :: ftp where
  "test_ftp = new_connection 0 test_server []"

definition make_home :: command where
  "make_home = MkdirCommand (unix_path [L ''home''])"

lemma ascii_lib_ok: "lib_ok ascii_lib"
  by (simp add: lib_ok_def)

lemma test_env_ok: "env_ok ascii_lib (\<lambda>e. True) test_env"
  by (simp add: env_ok_def test_env_def listing_ok_def cl_ok_def ls_ok_def map_ok_def empty_listing_def)

lemma make_home_valid: "command_texts make_home" "command_valid make_home"
  by (simp_all add: make_home_def path_ok_def unix_path_def key_ok_def path_empty_def no_zeros_def segments_of_def HasParent_def)

lemma make_home_reach: "ftp_reach ascii_lib (\<lambda>e. True) (map_option snd (Execute ascii_lib test_env make_home test_ftp))"
  unfolding test_ftp_def
  by (rule ftp_reach.reach_next [OF ftp_reach.reach_new]) (rule ftp_step.step_command [OF test_env_ok make_home_valid(1)])

lemma make_home_executed:
  "\<exists>w. Execute ascii_lib test_env make_home test_ftp = Some (FZ_REPLY_WOULDBLOCK, w) \<and>
     datas w = [Other (Logon True), Mkdir (unix_path [L ''home''])]"
proof -
  define v where "v = Push (Mkdir (unix_path [L ''home''])) test_ftp"
  have v: "datas v = [Other (Logon True), Mkdir (unix_path [L ''home''])]" "fs_skip v = 0"
    by (simp_all add: v_def Push_def Let_def test_ftp_def new_connection_def push_data_def Mkdir_def is_logon_def)
  then obtain op ops where o: "fs_ops v = op # ops" "op_data op = Other (Logon True)" by (cases "fs_ops v") auto
  have "SendNextCommand ascii_lib test_env v = Some (Done FZ_REPLY_WOULDBLOCK v)"
    using o v(2) on_top_other(1) [OF o, of ascii_lib test_env] by (simp add: SendNextCommand_def)
  then have "run_progress ascii_lib test_env (Next CallSend v) = Some v"
    by (simp add: run_progress_def run.simps [of ascii_lib test_env CallSend v] call_step_def)
  moreover have "start_command ascii_lib test_env make_home test_ftp = Some (FZ_REPLY_CONTINUE, v)" by (simp add: start_command_def make_home_def v_def)
  ultimately have "Execute ascii_lib test_env make_home test_ftp = Some (FZ_REPLY_WOULDBLOCK, v)"
    using make_home_valid(2) by (simp add: Execute_def OnCommandEvent_def test_ftp_def new_connection_def)
  then show ?thesis using v(1) by (intro exI [of _ v] conjI)
qed

theorem ftp_never_fails_witness: "Execute ascii_lib test_env make_home test_ftp \<noteq> None"
  using ftp_never_fails [OF ascii_lib_ok make_home_reach] by simp

theorem ftp_well_formed_witness:
  "\<exists>w. Execute ascii_lib test_env make_home test_ftp = Some (FZ_REPLY_WOULDBLOCK, w) \<and>
     stack_ok ascii_lib (\<lambda>e. True) [Other (Logon True), Mkdir (unix_path [L ''home''])] \<and> cache_ok ascii_lib (fs_dirs w)"
proof -
  obtain w where w: "Execute ascii_lib test_env make_home test_ftp = Some (FZ_REPLY_WOULDBLOCK, w)"
    "datas w = [Other (Logon True), Mkdir (unix_path [L ''home''])]" using make_home_executed by (elim exE conjE)
  then have "ftp_reach ascii_lib (\<lambda>e. True) (Some w)" using make_home_reach by simp
  then show ?thesis using ftp_well_formed [OF ascii_lib_ok, of "\<lambda>e. True" w] w by simp
qed

lemma home_cached:
  "\<exists>c e. cache_reach ascii_lib c \<and> dc_ttl c = 600000 \<and> stored ascii_lib c test_server e \<and> ce_listing e = home_listing"
proof -
  obtain c e where c: "Store ascii_lib 0 home_listing test_server empty_cache = Some c"
    "stored ascii_lib c test_server e" "ce_listing e = home_listing"
    using Store_ok [OF ascii_lib_opt_less cache_ok_empty home_listing_ok] by blast
  then have "cache_reach ascii_lib (SetTtl 600000 c)"
    using cache_reach.ttl [OF cache_reach.store [OF cache_reach.start home_listing_ok c(1)]] by blast
  moreover have "stored ascii_lib (SetTtl 600000 c) test_server e" using c(2) by (simp add: stored_def SetTtl_def indexed_def server_ids_def)
  ultimately show ?thesis using c(3) by (intro exI conjI) (assumption | simp add: SetTtl_def)+
qed

theorem list_from_cache_witness:
  "\<exists>w w1 e. engine_List ascii_lib test_env (unix_path [L ''home'']) [] 0 w = (FZ_REPLY_OK, w1) \<and>
     stored ascii_lib (fs_dirs w) test_server e \<and> ce_path e = unix_path [L ''home''] \<and>
     fs_out w1 = [Listing (unix_path [L ''home'']) True False]"
proof -
  let ?home = "unix_path [L ''home'']"
  obtain c e where c: "cache_reach ascii_lib c" "dc_ttl c = 600000" "stored ascii_lib c test_server e" "ce_listing e = home_listing"
    using home_cached by blast
  define w where "w = test_ftp\<lparr>fs_dirs := c\<rparr>"
  have r: "ftp_reach ascii_lib (\<lambda>e. True) (Some w)"
    unfolding w_def test_ftp_def by (rule ftp_reach.reach_next [OF ftp_reach.reach_new ftp_step.step_dirs [OF c(1)]])
  have ok: "cache_ok ascii_lib c" by (rule cache_reach_ok [OF ascii_lib_opt_less ascii_lib_mm_pick c(1)])
  have "ce_path e = ?home" by (simp add: ce_path_def c(4) home_listing_def)
  then have "map_option fst (fst (Lookup ascii_lib 0 test_server ?home True c)) = Some home_listing"
    using Lookup_listing [OF ascii_lib_opt_less ok] c by blast
  then obtain outdated c1 where l: "Lookup ascii_lib 0 test_server ?home True c = (Some (home_listing, outdated), c1)"
    by (cases "Lookup ascii_lib 0 test_server ?home True c") auto
  have "ls_firstListTime home_listing = 0" by (simp add: home_listing_def two_files_def empty_listing_def Assign_def clear_maps_def)
  moreover have "get_unsure_flags home_listing = 0" by code_simp
  ultimately have out: "\<not> outdated" "get_unsure_flags home_listing = 0" using Lookup_fresh [OF ok l] c(2) by simp_all
  have p: "list_target ascii_lib ?home [] w = (?home, w)" "clear_caches ascii_lib 0 w = w" "\<not> has_flag 0 LIST_FLAG_REFRESH" "\<not> path_empty ?home"
    "server_valid test_server"
    by (simp_all add: list_target_def lookup_path_def pc_Lookup_def w_def test_ftp_def new_connection_def empty_path_cache_def
        clear_caches_def has_flag_def path_empty_def unix_path_def empty_path_def server_valid_def test_server_def)
  have f: "fs_server w = test_server" "fs_dirs w = c" "env_now test_env = 0" "fs_out w = []"
    by (simp_all add: w_def test_ftp_def new_connection_def test_env_def)
  have "fst (engine_List ascii_lib test_env ?home [] 0 w) = FZ_REPLY_OK" using l out p f by (simp add: engine_List_def Let_def)
  then obtain w1 where "engine_List ascii_lib test_env ?home [] 0 w = (FZ_REPLY_OK, w1)" by (metis prod.collapse)
  then show ?thesis using list_from_cache [OF ascii_lib_ok r, of test_env ?home "[]" 0 w1] p f
    by (intro exI [of _ w] exI [of _ w1]) (auto simp: has_flag_def)
qed

end
