(* ===== verification/Spec2Isabelle.thy ===== *)
theory Spec2Isabelle
  imports Safe_Path Directory_Cache_Props Path_Cache_Props Op_Locks_Props Ftp_Reply_Props Ftp_Props
begin

text \<open>
  Verification of the engine of FlintZilla, a file transfer client for FTP and other protocols. This library
  models the parts of \<^verbatim>\<open>src/src/engine\<close> that decide what the client believes about a server: where it is, what is
  in its directories, what other connections do, and which command comes next.

  \<^bold>\<open>The program.\<close> A connection (\<^verbatim>\<open>CFtpControlSocket\<close>) keeps a stack of operations. The engine pushes an operation,
  the operation sends commands and may push sub-operations, the replies of the server drive it on, and its
  result goes to the operation below. Paths on the server are \<^verbatim>\<open>CServerPath\<close> objects, whose syntax depends on
  the type of the server. All connections of the process share a cache of directory listings
  (\<^verbatim>\<open>CDirectoryCache\<close>), a cache of where changes of directories end (\<^verbatim>\<open>CPathCache\<close>), a manager of locks that
  keeps two connections from creating or listing the same directory at once (\<^verbatim>\<open>OpLockManager\<close>), and what is known of
  the abilities of each server (\<^verbatim>\<open>CServerCapabilities\<close>).

  \<^bold>\<open>Conventions.\<close> A \<^verbatim>\<open>wchar_t\<close> is a natural number and a \<^verbatim>\<open>std::wstring\<close> a list of them; \<open>L ''abc''\<close> is a literal.
  A \<^verbatim>\<open>std::map\<close> is an association list in the order of its comparison (\<^verbatim>\<open>FZ_Containers\<close>). \<^const>\<open>None\<close> is a failed
  assertion, a vector read out of range or an iterator that does not exist any more. The library \<^verbatim>\<open>libfilezilla\<close> is
  not part of the sources: its functions are the fields of the record \<^typ>\<open>unit fzlib_ext\<close> in \<^verbatim>\<open>FZ_Lib\<close>, what the
  code relies on are the predicates there, and \<^const>\<open>ascii_lib\<close> is an instance for which they all hold. A mutex is
  held during a whole call, so that a call is one step. Log messages are left out.

  \<^bold>\<open>The theories.\<close>
  \<^item> \<^verbatim>\<open>FZ_Prelude\<close>, \<^verbatim>\<open>FZ_Containers\<close>, \<^verbatim>\<open>FZ_Lib\<close>: strings, ordered maps (the locale \<^verbatim>\<open>strict_weak\<close> has the laws of a
    map over a strict weak order), and the functions of the library.
  \<^item> \<^verbatim>\<open>Server\<close>, \<^verbatim>\<open>Server_Props\<close>: \<^verbatim>\<open>engine/server.cpp\<close>, \<^verbatim>\<open>include/server.h\<close>. The order of servers, the invariant of their
    setters, prefixes of protocols.
  \<^item> \<^verbatim>\<open>Server_Path\<close>, \<^verbatim>\<open>Segments\<close>, \<^verbatim>\<open>Server_Path_Props\<close>, \<^verbatim>\<open>Path_Roundtrip\<close>, \<^verbatim>\<open>Safe_Path\<close>, \<^verbatim>\<open>Path_Order\<close>, \<^verbatim>\<open>Common_Parent\<close>,
    \<^verbatim>\<open>Path_Zeros\<close>: \<^verbatim>\<open>engine/serverpath.cpp\<close>. Printing and parsing are inverse, the storage format is read back and fits
    its buffer, every change keeps a path well-formed, the order and the ancestors of paths.
  \<^item> \<^verbatim>\<open>Directory_Listing\<close>: \<^verbatim>\<open>engine/directorylisting.cpp\<close>. The lazily built search maps agree with a linear search.
  \<^item> \<^verbatim>\<open>Directory_Cache\<close> with \<^verbatim>\<open>Cache_Invariant\<close>, \<^verbatim>\<open>Cache_Updates\<close>, \<^verbatim>\<open>Cache_Removal\<close>, \<^verbatim>\<open>Cache_Store\<close>, \<^verbatim>\<open>Cache_Operations\<close>,
    \<^verbatim>\<open>Cache_Reach\<close> and \<^verbatim>\<open>Directory_Cache_Props\<close>: \<^verbatim>\<open>engine/directorycache.cpp\<close>. Iterators are identities, so that a dangling
    one can be told. Every reachable cache is consistent, its loops end, and lookups give what was stored.
  \<^item> \<^verbatim>\<open>Path_Cache\<close>, \<^verbatim>\<open>Path_Cache_Props\<close>: \<^verbatim>\<open>engine/pathcache.cpp\<close>.
  \<^item> \<^verbatim>\<open>Op_Locks\<close>, \<^verbatim>\<open>Op_Locks_Inv\<close>, \<^verbatim>\<open>Op_Locks_System\<close>, \<^verbatim>\<open>Op_Locks_Props\<close>: \<^verbatim>\<open>engine/oplock_manager.cpp\<close> and its clients as a
    transition system. Exclusion, absence of failures, and that a lock which can be granted has an event on
    its way.
  \<^item> \<^verbatim>\<open>Capabilities\<close>: \<^verbatim>\<open>engine/servercapabilities.cpp\<close>.
  \<^item> \<^verbatim>\<open>Ftp_Reply\<close>, \<^verbatim>\<open>Ftp_Reply_Props\<close>: receiving of replies and parsing of PWD replies.
  \<^item> \<^verbatim>\<open>Ftp_Data\<close>, \<^verbatim>\<open>Ftp_Ops\<close>, \<^verbatim>\<open>Ftp_List\<close>: the operations of \<^verbatim>\<open>engine/ftp\<close>, one function per handler.
  \<^item> \<^verbatim>\<open>Ftp_Run\<close>, \<^verbatim>\<open>Ftp_Loop\<close>: the stack of operations. The functions of \<^verbatim>\<open>controlsocket.cpp\<close> call each other in tail
    position, so they are one loop; it needs no fuel, since a weight of the stack falls with each call.
  \<^item> \<^verbatim>\<open>Engine_Commands\<close>: \<^verbatim>\<open>engine/commands.cpp\<close> and the part of \<^verbatim>\<open>engine/engineprivate.cpp\<close> that executes a command on a
    connection, with the listings that come from the cache.
  \<^item> \<^verbatim>\<open>Ftp_Paths\<close>, \<^verbatim>\<open>Ftp_Inv\<close>, \<^verbatim>\<open>Ftp_Handlers\<close>, \<^verbatim>\<open>Ftp_List_Inv\<close>, \<^verbatim>\<open>Ftp_Stack\<close>: the invariant of a connection, and that every
    handler and every call of the loop keeps it and does not fail.
  \<^item> \<^verbatim>\<open>Ftp_System\<close>, \<^verbatim>\<open>Ftp_Props\<close>: a connection as a transition system. Its steps are commands, replies of any server,
    events, the operations of other modules, and what other connections do to the caches and the locks. No
    reachable state has failed, the stack is always well formed, and the loop returns within a bound.

  \<^bold>\<open>Not modelled.\<close> Logon, raw and file transfers drive sockets, TLS and local files; in the model they are
  operations that end with any result. HTTP, SFTP and Storj run child processes or sockets of a library. The
  parser of directory listings, the user interface, and the vendored code under \<^verbatim>\<open>putty\<close> and \<^verbatim>\<open>pugixml\<close> are left out.
\<close>

end
